(* ===== verification/Prelude.thy ===== *)
theory Prelude
  imports Main "HOL-Library.Word" "HOL-Library.State_Monad" "HOL-Library.Char_ord"
    "HOL-Library.Code_Target_Nat"
begin

text \<open>
  Shared vocabulary of the development: the weakest-precondition calculus of the state monad in
  which the effectful code is written, unsigned decimal printing and parsing as
  \<open>std::to_string\<close> and \<open>std::from_chars\<close> do it, ASCII character classes, and the
  identifier check that the sources repeat in several files.
\<close>

unbundle bit_operations_syntax

section \<open>Rule collections\<close>

named_theorems wp_simp \<open>equations that push a weakest precondition through program syntax\<close>
named_theorems wp_rule \<open>introduction rules for the weakest precondition of one operation\<close>

section \<open>Weakest preconditions for the state monad\<close>

text \<open>
  \<open>wp m Q s\<close> holds when running \<open>m\<close> from \<open>s\<close> ends in a value and a
  state that satisfy \<open>Q\<close>. Every program of the model is total, so this is total
  correctness.
\<close>

definition wp :: "('s, 'a) state \<Rightarrow> ('a \<Rightarrow> 's \<Rightarrow> bool) \<Rightarrow> 's \<Rightarrow> bool" where
  "wp m Q s = (case run_state m s of (a, s') \<Rightarrow> Q a s')"

definition gets :: "('s \<Rightarrow> 'a) \<Rightarrow> ('s, 'a) state" where
  "gets f = State (\<lambda>s. (f s, s))"

definition modify :: "('s \<Rightarrow> 's) \<Rightarrow> ('s, unit) state" where
  "modify f = State (\<lambda>s. ((), f s))"

lemma run_state_gets [simp]: "run_state (gets f) s = (f s, s)"
  by (simp add: gets_def)

lemma run_state_modify [simp]: "run_state (modify f) s = ((), f s)"
  by (simp add: modify_def)

lemma wp_return [wp_simp, simp]: "wp (State_Monad.return a) Q s = Q a s"
  by (simp add: wp_def)

lemma wp_bind [wp_simp, simp]: "wp (State_Monad.bind m f) Q s = wp m (\<lambda>a. wp (f a) Q) s"
  by (simp add: wp_def split: prod.splits)

lemma wp_gets [wp_simp, simp]: "wp (gets f) Q s = Q (f s) s"
  by (simp add: wp_def)

lemma wp_modify [wp_simp, simp]: "wp (modify f) Q s = Q () (f s)"
  by (simp add: wp_def)

lemma wp_if [wp_simp]: "wp (if b then m else n) Q s = (if b then wp m Q s else wp n Q s)"
  by simp

lemma wp_mono:
  assumes "wp m P s" and "\<And>a s'. P a s' \<Longrightarrow> Q a s'"
  shows "wp m Q s"
  using assms by (auto simp: wp_def split: prod.splits)

lemma wp_conj: "wp m P s \<Longrightarrow> wp m Q s \<Longrightarrow> wp m (\<lambda>a s'. P a s' \<and> Q a s') s"
  by (auto simp: wp_def split: prod.splits)

lemma wpD: "wp m Q s \<Longrightarrow> run_state m s = (a, s') \<Longrightarrow> Q a s'"
  by (simp add: wp_def)

lemma wpI: "(\<And>a s'. run_state m s = (a, s') \<Longrightarrow> Q a s') \<Longrightarrow> wp m Q s"
  by (simp add: wp_def split: prod.splits)

lemma wp_true [simp]: "wp m (\<lambda>_ _. True) s"
  by (simp add: wp_def split: prod.splits)

section \<open>ASCII characters\<close>

definition is_ascii_digit :: "char \<Rightarrow> bool" where
  "is_ascii_digit c \<longleftrightarrow> CHR ''0'' \<le> c \<and> c \<le> CHR ''9''"

definition is_ascii_letter :: "char \<Rightarrow> bool" where
  "is_ascii_letter c \<longleftrightarrow>
     (CHR ''A'' \<le> c \<and> c \<le> CHR ''Z'') \<or> (CHR ''a'' \<le> c \<and> c \<le> CHR ''z'')"

definition is_ascii_alphanumeric :: "char \<Rightarrow> bool" where
  "is_ascii_alphanumeric c \<longleftrightarrow> is_ascii_letter c \<or> is_ascii_digit c"

abbreviation newline :: char where
  "newline \<equiv> CHR 0x0A"

text \<open>
  The identifier check that \<open>activation_service.cpp\<close>,
  \<open>activation_transaction_store.cpp\<close> and \<open>local_protocol.cpp\<close> each hold
  a copy of.
\<close>

definition identifier_character :: "char \<Rightarrow> bool" where
  "identifier_character c \<longleftrightarrow>
     is_ascii_alphanumeric c \<or> c = CHR ''-'' \<or> c = CHR ''_'' \<or> c = CHR ''.'' \<or> c = CHR '':''"

definition valid_identifier :: "string \<Rightarrow> bool" where
  "valid_identifier value \<longleftrightarrow>
     value \<noteq> [] \<and> length value \<le> 128 \<and> list_all identifier_character value"

lemma identifier_character_not_control:
  "identifier_character c \<Longrightarrow> c \<noteq> newline \<and> c \<noteq> CHR 0x0D \<and> c \<noteq> CHR 0x00"
  by (auto simp: identifier_character_def is_ascii_alphanumeric_def is_ascii_letter_def
      is_ascii_digit_def)

lemma valid_identifier_no_newline: "valid_identifier s \<Longrightarrow> newline \<notin> set s"
  by (auto simp: valid_identifier_def list_all_iff dest: identifier_character_not_control)

section \<open>Unsigned decimal numbers\<close>

definition digit_char :: "nat \<Rightarrow> char" where
  "digit_char d = char_of (48 + d)"

definition digit_value :: "char \<Rightarrow> nat" where
  "digit_value c = of_char c - 48"

text \<open>\<open>std::to_string\<close> of an unsigned integer.\<close>

fun decimal :: "nat \<Rightarrow> string" where
  "decimal n = (if n < 10 then [digit_char n] else decimal (n div 10) @ [digit_char (n mod 10)])"

declare decimal.simps [simp del]

definition decimal_value :: "string \<Rightarrow> nat" where
  "decimal_value s = foldl (\<lambda>acc c. 10 * acc + digit_value c) 0 s"

text \<open>
  \<open>std::from_chars\<close> for an unsigned type whose largest value is \<open>limit\<close>: the
  longest digit prefix is read; no digit is an error, a value above the limit is another. The
  third component is the unread rest, the \<open>ptr\<close> of the C++ result.
\<close>

datatype conversion_error = Conversion_ok | Invalid_argument | Result_out_of_range

definition from_chars :: "nat \<Rightarrow> string \<Rightarrow> conversion_error \<times> nat \<times> string" where
  "from_chars limit s =
     (let digits = takeWhile is_ascii_digit s; rest = dropWhile is_ascii_digit s;
          v = decimal_value digits
      in if digits = [] then (Invalid_argument, 0, s)
         else if limit < v then (Result_out_of_range, 0, rest)
         else (Conversion_ok, v, rest))"

abbreviation uint64_max :: nat where
  "uint64_max \<equiv> 18446744073709551615"

text \<open>\<open>std::to_string\<close> of a signed integer.\<close>

definition int_string :: "int \<Rightarrow> string" where
  "int_string n = (if n < 0 then CHR ''-'' # decimal (nat (- n)) else decimal (nat n))"

lemma digit_char_code: "d < 10 \<Longrightarrow> (of_char (digit_char d) :: nat) = 48 + d"
  by (simp add: digit_char_def)

lemma is_ascii_digit_code: "is_ascii_digit c \<longleftrightarrow> 48 \<le> (of_char c :: nat) \<and> (of_char c :: nat) \<le> 57"
  by (simp add: is_ascii_digit_def less_eq_char_def)

lemma digit_char_digit [simp]: "d < 10 \<Longrightarrow> is_ascii_digit (digit_char d)"
  by (simp add: is_ascii_digit_code digit_char_code)

lemma digit_value_char [simp]: "d < 10 \<Longrightarrow> digit_value (digit_char d) = d"
  by (simp add: digit_value_def digit_char_code)

lemma decimal_digits: "list_all is_ascii_digit (decimal n)"
proof (induction n rule: decimal.induct)
  case (1 n)
  then show ?case
    by (cases "n < 10") (simp_all add: decimal.simps [of n])
qed

lemma decimal_nonempty [simp]: "decimal n \<noteq> []"
  by (subst decimal.simps) simp

lemma decimal_value_decimal [simp]: "decimal_value (decimal n) = n"
proof (induction n rule: decimal.induct)
  case (1 n)
  show ?case
  proof (cases "n < 10")
    case True
    then show ?thesis by (simp add: decimal.simps [of n] decimal_value_def)
  next
    case False
    with 1 have "foldl (\<lambda>acc c. 10 * acc + digit_value c) 0 (decimal (n div 10)) = n div 10"
      by (simp add: decimal_value_def)
    with False show ?thesis by (simp add: decimal.simps [of n] decimal_value_def)
  qed
qed

lemma decimal_inject [simp]: "decimal m = decimal n \<longleftrightarrow> m = n"
  by (metis decimal_value_decimal)

lemma takeWhile_decimal: "takeWhile is_ascii_digit (decimal n) = decimal n"
  using decimal_digits [of n] by (auto simp: list_all_iff takeWhile_eq_all_conv)

lemma from_chars_decimal: "n \<le> limit \<Longrightarrow> from_chars limit (decimal n) = (Conversion_ok, n, [])"
  using decimal_digits [of n]
  by (simp add: from_chars_def takeWhile_decimal dropWhile_eq_Nil_conv list_all_iff)

lemma from_chars_ok:
  "from_chars limit s = (Conversion_ok, v, rest) \<Longrightarrow> v \<le> limit"
  by (auto simp: from_chars_def Let_def split: if_splits)

lemma from_chars_whole:
  "from_chars limit s = (Conversion_ok, v, []) \<Longrightarrow>
     s \<noteq> [] \<and> list_all is_ascii_digit s \<and> v = decimal_value s"
  by (auto simp: from_chars_def Let_def list_all_iff takeWhile_eq_all_conv [THEN iffD2]
      split: if_splits)

lemma length_decimal: "n < 10 ^ Suc k \<Longrightarrow> length (decimal n) \<le> Suc k"
proof (induction k arbitrary: n)
  case (Suc k)
  show ?case
  proof (cases "n < 10")
    case False
    from Suc.prems have "n div 10 < 10 ^ Suc k" by (simp add: less_mult_imp_div_less)
    from Suc.IH [OF this] False show ?thesis by (simp add: decimal.simps [of n])
  qed (simp add: decimal.simps [of n])
next
  case 0
  then show ?case by (simp add: decimal.simps [of n])
qed

lemma digit_not_newline: "is_ascii_digit c \<Longrightarrow> c \<noteq> newline"
  by (auto simp: is_ascii_digit_def)

lemma decimal_no_newline: "newline \<notin> set (decimal n)"
  using decimal_digits [of n] by (auto simp: list_all_iff dest: digit_not_newline)

section \<open>Machine integers\<close>

type_synonym u64 = "64 word"
type_synonym u32 = "32 word"

lemma unat_u64_le: "unat (x :: u64) \<le> uint64_max"
proof -
  have "unat x < 2 ^ LENGTH(64)" by (rule unsigned_less)
  then show ?thesis by simp
qed

lemma length_decimal_u64: "length (decimal (unat (x :: u64))) \<le> 20"
  using unat_u64_le [of x] length_decimal [of "unat x" 19] by simp

lemma from_chars_unat: "from_chars uint64_max (decimal (unat (x :: u64))) = (Conversion_ok, unat x, [])"
  by (rule from_chars_decimal) (rule unat_u64_le)

end
