(* ===== verification/Posix.thy ===== *)
theory Posix
  imports Events
begin

text \<open>
  The operating system as the sources use it. A \<open>world\<close> holds the files the program
  touches, the process identity, the external behaviours it depends on (the outcome of each
  system call, the processes it starts, the clock) and the sequence of externally visible
  actions so far. A system call takes its outcome from \<open>script\<close>, a list of injected
  faults and short transfers that is consumed call by call; when the list is used up, every
  further call succeeds. Any finite pattern of failures is a script, so a theorem about an
  arbitrary world is a theorem about every such pattern.

  Files are keyed by directory and entry name, the way \<open>openat\<close> addresses them, and
  \<open>dirs\<close> holds the directories the stores are rooted in. Interference by another process
  between two system calls of one operation is not part of the model.
\<close>

section \<open>Files, outcomes, processes\<close>

datatype errno =
  EINTR | EIO | ENOENT | EEXIST | EPERM | EINVAL | EACCES | ELOOP | ENOTDIR | EISDIR | EAGAIN
  | ENOSPC | ECONNABORTED | ETIMEDOUT | EINPROGRESS | EISCONN | Errno nat

datatype file_kind = Regular_file | Directory | Symbolic_link | Unix_socket | Other_file

record node =
  kind :: file_kind
  owner :: nat
  group :: nat
  mode :: u32
  links :: nat
  inode :: nat
  content :: string

text \<open>\<open>Fine\<close>: the call succeeds in full; \<open>Short n\<close>: a transfer moves at most
  \<open>n\<close> bytes; \<open>Fault e\<close>: the call fails with \<open>e\<close> and has no effect.\<close>

datatype outcome = Fine | Short nat | Fault errno

record process_result =
  launched :: bool
  timed_out :: bool
  output_truncated :: bool
  exit_code :: int
  standard_output :: string
  standard_error :: string
  error_message :: string

type_synonym path = "string \<times> string"
type_synonym files = "path \<Rightarrow> node option"

text \<open>
  The externally visible actions, in the order they happen. \<open>Executed\<close> keeps the files
  as the started process found them; the last three record the consultation of a provider with the
  answer it gave, \<open>True\<close> for authorized, healthy and confirmed.
\<close>

datatype visible_action =
    Audited event
  | Executed string "string list" files process_result
  | Authorization_requested string u64 string bool
  | Probe_run string int bool
  | Confirmation_awaited string u64 int bool

text \<open>What the poll-and-receive loop of a connected socket meets, one event at a time: bytes
  (no bytes is the end of the stream), a retry, the deadline, an error.\<close>

datatype socket_event = Received string | Would_block | Interrupted | Timed_out | Broken

record world =
  entries :: files
  dirs :: "string \<Rightarrow> node option"
  effective_uid :: nat
  effective_gid :: nat
  process_id :: nat
  script :: "outcome list"
  last_errno :: errno
  strerror :: "errno \<Rightarrow> string"
  next_inode :: nat
  transaction_sequence :: u64
  revision_sequence :: u64
  clock :: "nat \<Rightarrow> string"
  clock_reads :: nat
  processes :: "nat \<Rightarrow> string \<Rightarrow> string list \<Rightarrow> files \<Rightarrow> process_result"
  processes_run :: nat
  inbound :: "socket_event list"
  outbound :: string
  send_events :: "outcome list"
  actions :: "visible_action list"

type_synonym 'a io = "(world, 'a) state"

abbreviation return :: "'a \<Rightarrow> 'a io" where
  "return \<equiv> State_Monad.return"

section \<open>Single system calls\<close>

text \<open>
  \<open>ENOENT\<close> and \<open>EEXIST\<close> state facts about the directory, so they come from the files
  only: an injected one is taken as \<open>EIO\<close>.
\<close>

definition genuine :: "outcome \<Rightarrow> outcome" where
  "genuine r = (if r = Fault ENOENT \<or> r = Fault EEXIST then Fault EIO else r)"

definition next_outcome :: "outcome io" where
  "next_outcome = State (\<lambda>w.
     case script w of [] \<Rightarrow> (Fine, w) | r # rs \<Rightarrow> (genuine r, w\<lparr>script := rs\<rparr>))"

definition set_errno :: "errno \<Rightarrow> unit io" where
  "set_errno e = modify (\<lambda>w. w\<lparr>last_errno := e\<rparr>)"

definition strerror_now :: "string io" where
  "strerror_now = gets (\<lambda>w. strerror w (last_errno w))"

definition strerror_of :: "errno \<Rightarrow> string io" where
  "strerror_of e = gets (\<lambda>w. strerror w e)"

definition saved_errno :: "errno io" where
  "saved_errno = gets last_errno"

text \<open>A call with no result but success: \<open>fsync\<close>, \<open>close\<close>, \<open>flock\<close>.\<close>

definition plain_call :: "bool io" where
  "plain_call = do {
     r \<leftarrow> next_outcome;
     (case r of Fault e \<Rightarrow> do { set_errno e; return False } | _ \<Rightarrow> return True)
   }"

abbreviation fsync :: "bool io" where "fsync \<equiv> plain_call"
abbreviation close_descriptor :: "bool io" where "close_descriptor \<equiv> plain_call"
abbreviation flock :: "bool io" where "flock \<equiv> plain_call"

definition is_absolute :: "string \<Rightarrow> bool" where
  "is_absolute p \<longleftrightarrow> (case p of [] \<Rightarrow> False | c # _ \<Rightarrow> c = CHR ''/'')"

text \<open>\<open>root / name\<close> as text, for arguments and results.\<close>

definition path_string :: "path \<Rightarrow> string" where
  "path_string p = fst p @ ''/'' @ snd p"

text \<open>
  \<open>open\<close> of a directory with \<open>O_DIRECTORY | O_NOFOLLOW\<close>.
\<close>

definition open_directory :: "string \<Rightarrow> bool io" where
  "open_directory root = do {
     r \<leftarrow> next_outcome;
     d \<leftarrow> gets (\<lambda>w. dirs w root);
     (case r of
        Fault e \<Rightarrow> do { set_errno e; return False }
      | _ \<Rightarrow> (case d of
          None \<Rightarrow> do { set_errno ENOENT; return False }
        | Some n \<Rightarrow> (if kind n = Directory then return True
                    else do { set_errno ENOTDIR; return False })))
   }"

text \<open>\<open>lstat\<close> or \<open>fstat\<close> of a directory; \<open>None\<close> is a non-zero result.\<close>

definition stat_directory :: "string \<Rightarrow> node option io" where
  "stat_directory root = do {
     r \<leftarrow> next_outcome;
     d \<leftarrow> gets (\<lambda>w. dirs w root);
     (case r of
        Fault e \<Rightarrow> do { set_errno e; return None }
      | _ \<Rightarrow> (case d of None \<Rightarrow> do { set_errno ENOENT; return None } | Some n \<Rightarrow> return (Some n)))
   }"

text \<open>\<open>lstat\<close>, \<open>fstat\<close> or \<open>fstatat\<close> of an entry, links not followed.\<close>

definition stat_entry :: "path \<Rightarrow> node option io" where
  "stat_entry p = do {
     r \<leftarrow> next_outcome;
     n \<leftarrow> gets (\<lambda>w. entries w p);
     (case r of
        Fault e \<Rightarrow> do { set_errno e; return None }
      | _ \<Rightarrow> (case n of None \<Rightarrow> do { set_errno ENOENT; return None } | Some n \<Rightarrow> return (Some n)))
   }"

definition fresh_file :: "u32 \<Rightarrow> world \<Rightarrow> node" where
  "fresh_file m w =
     \<lparr>kind = Regular_file, owner = effective_uid w, group = effective_gid w, mode = m, links = 1,
      inode = next_inode w, content = []\<rparr>"

lemma fresh_file_sel [simp]:
  "kind (fresh_file m w) = Regular_file" "owner (fresh_file m w) = effective_uid w"
  "mode (fresh_file m w) = m" "content (fresh_file m w) = []" "links (fresh_file m w) = 1"
  by (simp_all add: fresh_file_def)

definition put_entry :: "path \<Rightarrow> node option \<Rightarrow> world \<Rightarrow> world" where
  "put_entry p n w = w\<lparr>entries := (entries w)(p := n)\<rparr>"

text \<open>\<open>openat\<close> with \<open>O_CREAT | O_EXCL | O_NOFOLLOW\<close> and the given mode.\<close>

definition create_exclusive :: "path \<Rightarrow> u32 \<Rightarrow> bool io" where
  "create_exclusive p m = do {
     r \<leftarrow> next_outcome;
     n \<leftarrow> gets (\<lambda>w. entries w p);
     (case r of
        Fault e \<Rightarrow> do { set_errno e; return False }
      | _ \<Rightarrow> (if n \<noteq> None then do { set_errno EEXIST; return False }
             else do {
               modify (\<lambda>w. put_entry p (Some (fresh_file m w)) (w\<lparr>next_inode := Suc (next_inode w)\<rparr>));
               return True
             }))
   }"

text \<open>\<open>openat\<close> of an existing entry with \<open>O_NOFOLLOW\<close>.\<close>

definition open_existing :: "path \<Rightarrow> bool io" where
  "open_existing p = do {
     r \<leftarrow> next_outcome;
     n \<leftarrow> gets (\<lambda>w. entries w p);
     (case r of
        Fault e \<Rightarrow> do { set_errno e; return False }
      | _ \<Rightarrow> (case n of
          None \<Rightarrow> do { set_errno ENOENT; return False }
        | Some n \<Rightarrow> (if kind n = Symbolic_link then do { set_errno ELOOP; return False }
                    else return True)))
   }"

text \<open>\<open>openat\<close> with \<open>O_CREAT | O_NOFOLLOW\<close> but not \<open>O_EXCL\<close>.\<close>

definition open_or_create :: "path \<Rightarrow> u32 \<Rightarrow> bool io" where
  "open_or_create p m = do {
     r \<leftarrow> next_outcome;
     n \<leftarrow> gets (\<lambda>w. entries w p);
     (case r of
        Fault e \<Rightarrow> do { set_errno e; return False }
      | _ \<Rightarrow> (case n of
          None \<Rightarrow> do {
            modify (\<lambda>w. put_entry p (Some (fresh_file m w)) (w\<lparr>next_inode := Suc (next_inode w)\<rparr>));
            return True
          }
        | Some n \<Rightarrow> (if kind n = Symbolic_link then do { set_errno ELOOP; return False }
                    else if kind n = Directory then do { set_errno EISDIR; return False }
                    else return True)))
   }"

definition unlink :: "path \<Rightarrow> bool io" where
  "unlink p = do {
     r \<leftarrow> next_outcome;
     n \<leftarrow> gets (\<lambda>w. entries w p);
     (case r of
        Fault e \<Rightarrow> do { set_errno e; return False }
      | _ \<Rightarrow> (if n = None then do { set_errno ENOENT; return False }
             else do { modify (put_entry p None); return True }))
   }"

text \<open>\<open>renameat\<close> replaces the target atomically.\<close>

definition rename_entry :: "path \<Rightarrow> path \<Rightarrow> bool io" where
  "rename_entry p q = do {
     r \<leftarrow> next_outcome;
     n \<leftarrow> gets (\<lambda>w. entries w p);
     (case r of
        Fault e \<Rightarrow> do { set_errno e; return False }
      | _ \<Rightarrow> (if n = None then do { set_errno ENOENT; return False }
             else do { modify (\<lambda>w. put_entry p None (put_entry q n w)); return True }))
   }"

text \<open>\<open>linkat\<close> never replaces an existing entry.\<close>

definition link_entry :: "path \<Rightarrow> path \<Rightarrow> bool io" where
  "link_entry p q = do {
     r \<leftarrow> next_outcome;
     n \<leftarrow> gets (\<lambda>w. entries w p);
     m \<leftarrow> gets (\<lambda>w. entries w q);
     (case r of
        Fault e \<Rightarrow> do { set_errno e; return False }
      | _ \<Rightarrow> (if n = None then do { set_errno ENOENT; return False }
             else if m \<noteq> None then do { set_errno EEXIST; return False }
             else do { modify (put_entry q n); return True }))
   }"

section \<open>The transfer loops\<close>

text \<open>
  \<open>write_all\<close> of the stores and the journal: retry on \<open>EINTR\<close>, continue after a
  short write, fail on any other error and on a write of no bytes. The recursion follows the
  outcome script; the second component is what reached the file.
\<close>

datatype transfer = Transferred | Failed errno

fun write_loop :: "outcome list \<Rightarrow> string \<Rightarrow> transfer \<times> string \<times> outcome list" where
  "write_loop rs [] = (Transferred, [], rs)"
| "write_loop [] (c # s) = (Transferred, c # s, [])"
| "write_loop (r # rs) (c # s) =
     (case r of
        Fine \<Rightarrow> (Transferred, c # s, rs)
      | Short n \<Rightarrow>
          (if n = 0 then (Failed EIO, [], rs)
           else (case write_loop rs (drop n (c # s)) of
                   (t, out, rs') \<Rightarrow> (t, take n (c # s) @ out, rs')))
      | Fault e \<Rightarrow> (if e = EINTR then write_loop rs (c # s) else (Failed e, [], rs)))"

text \<open>
  \<open>read_all\<close>: at most \<open>chunk\<close> bytes a call until \<open>left\<close> bytes are read; end of
  file before that is an error.
\<close>

definition fault_of :: "outcome list \<Rightarrow> errno option" where
  "fault_of rs = (case rs of Fault e # _ \<Rightarrow> Some e | _ \<Rightarrow> None)"

definition granted :: "outcome list \<Rightarrow> nat \<Rightarrow> nat" where
  "granted rs wanted = (case rs of Short k # _ \<Rightarrow> min k wanted | _ \<Rightarrow> wanted)"

lemma fault_of_nonempty: "fault_of rs = Some e \<Longrightarrow> rs \<noteq> []"
  by (auto simp: fault_of_def)

function read_loop ::
  "nat \<Rightarrow> outcome list \<Rightarrow> nat \<Rightarrow> string \<Rightarrow> transfer \<times> string \<times> outcome list" where
  "read_loop chunk rs left available =
     (if left = 0 then (Transferred, [], rs)
      else (case fault_of rs of
              Some e \<Rightarrow>
                (if e = EINTR then read_loop chunk (tl rs) left available
                 else (Failed e, [], tl rs))
            | None \<Rightarrow>
                (let n = min (length available) (granted rs (min left chunk))
                 in if n = 0 then (Failed EIO, [], tl rs)
                    else (case read_loop chunk (tl rs) (left - n) (drop n available) of
                            (t, out, rs') \<Rightarrow> (t, take n available @ out, rs')))))"
  by pat_completeness auto
termination
proof (relation "measure (\<lambda>(chunk, rs, left, available). length rs + left)", goal_cases)
  case (2 chunk rs left available n)
  then have "0 < n" "0 < left" by simp_all
  then have "length (tl rs) + (left - n) < length rs + left" by simp
  then show ?case by simp
qed (auto dest: fault_of_nonempty)

declare read_loop.simps [simp del]

definition write_all :: "path \<Rightarrow> string \<Rightarrow> bool io" where
  "write_all p bytes = State (\<lambda>w.
     case write_loop (script w) bytes of
       (t, out, rs) \<Rightarrow>
         (let grown = map_option (\<lambda>n. n\<lparr>content := content n @ out\<rparr>) (entries w p)
          in case t of
               Transferred \<Rightarrow> (True, put_entry p grown (w\<lparr>script := rs\<rparr>))
             | Failed e \<Rightarrow> (False, put_entry p grown (w\<lparr>script := rs, last_errno := e\<rparr>))))"

definition read_all :: "nat \<Rightarrow> path \<Rightarrow> nat \<Rightarrow> string option io" where
  "read_all chunk p count = State (\<lambda>w.
     case read_loop chunk (script w) count (case entries w p of None \<Rightarrow> [] | Some n \<Rightarrow> content n) of
       (t, out, rs) \<Rightarrow>
         (case t of Transferred \<Rightarrow> (Some out, w\<lparr>script := rs\<rparr>)
          | Failed e \<Rightarrow> (None, w\<lparr>script := rs, last_errno := e\<rparr>)))"

section \<open>Ownership and permission checks\<close>

text \<open>\<open>S_IWGRP | S_IWOTH\<close> is octal 022, \<open>S_IRWXG | S_IRWXO\<close> octal 077.\<close>

definition safe_directory :: "nat \<Rightarrow> node \<Rightarrow> bool" where
  "safe_directory uid n \<longleftrightarrow> kind n = Directory \<and> owner n = uid \<and> mode n AND 18 = 0"

definition private_regular_file :: "nat \<Rightarrow> node \<Rightarrow> bool" where
  "private_regular_file uid n \<longleftrightarrow> kind n = Regular_file \<and> owner n = uid \<and> mode n AND 63 = 0"

definition file_size :: "node \<Rightarrow> int" where
  "file_size n = int (length (content n))"

section \<open>Processes, clock, visible actions\<close>

definition log_action :: "visible_action \<Rightarrow> unit io" where
  "log_action a = modify (\<lambda>w. w\<lparr>actions := actions w @ [a]\<rparr>)"

definition read_clock :: "string io" where
  "read_clock = State (\<lambda>w. (clock w (clock_reads w), w\<lparr>clock_reads := Suc (clock_reads w)\<rparr>))"

text \<open>One started process: what it does is outside the model, a parameter of the world.\<close>

definition execute :: "string \<Rightarrow> string list \<Rightarrow> process_result io" where
  "execute exe argv = State (\<lambda>w.
     let r = processes w (processes_run w) exe argv (entries w)
     in (r, w\<lparr>processes_run := Suc (processes_run w),
              actions := actions w @ [Executed exe argv (entries w) r]\<rparr>))"

section \<open>Rules\<close>

text \<open>Every call that leaves files and actions alone changes the script and errno only.\<close>

abbreviation settle :: "outcome list \<Rightarrow> errno \<Rightarrow> world \<Rightarrow> world" where
  "settle rs e w \<equiv> w\<lparr>script := rs, last_errno := e\<rparr>"

lemma put_entry_sel [simp]:
  "entries (put_entry p n w) = (entries w)(p := n)"
  "next_inode (put_entry p n w) = next_inode w"
  "dirs (put_entry p n w) = dirs w"
  "effective_uid (put_entry p n w) = effective_uid w"
  "effective_gid (put_entry p n w) = effective_gid w"
  "process_id (put_entry p n w) = process_id w"
  "script (put_entry p n w) = script w"
  "last_errno (put_entry p n w) = last_errno w"
  "strerror (put_entry p n w) = strerror w"
  "transaction_sequence (put_entry p n w) = transaction_sequence w"
  "revision_sequence (put_entry p n w) = revision_sequence w"
  "clock (put_entry p n w) = clock w"
  "clock_reads (put_entry p n w) = clock_reads w"
  "processes (put_entry p n w) = processes w"
  "processes_run (put_entry p n w) = processes_run w"
  "inbound (put_entry p n w) = inbound w"
  "outbound (put_entry p n w) = outbound w"
  "send_events (put_entry p n w) = send_events w"
  "actions (put_entry p n w) = actions w"
  by (simp_all add: put_entry_def)

lemma settle_id [simp]: "settle (script w) (last_errno w) w = w"
  by simp

lemma wp_next_outcome:
  assumes "\<And>r rs. r \<noteq> Fault ENOENT \<Longrightarrow> r \<noteq> Fault EEXIST \<Longrightarrow> Q r (w\<lparr>script := rs\<rparr>)"
  shows "wp next_outcome Q w"
proof (cases "script w")
  case Nil
  then have "w\<lparr>script := []\<rparr> = w" by (cases w) simp
  then have "Q Fine w" using assms [of Fine "[]"] by simp
  with Nil show ?thesis by (simp add: wp_def next_outcome_def)
next
  case (Cons r rs)
  have "Q (genuine r) (w\<lparr>script := rs\<rparr>)" by (rule assms) (simp_all add: genuine_def)
  with Cons show ?thesis by (simp add: wp_def next_outcome_def)
qed

lemma wp_set_errno [simp, wp_simp]: "wp (set_errno e) Q w = Q () (w\<lparr>last_errno := e\<rparr>)"
  by (simp add: set_errno_def)

lemma wp_saved_errno [simp, wp_simp]: "wp saved_errno Q w = Q (last_errno w) w"
  by (simp add: saved_errno_def)

lemma wp_strerror_now [simp, wp_simp]: "wp strerror_now Q w = Q (strerror w (last_errno w)) w"
  by (simp add: strerror_now_def)

lemma wp_strerror_of [simp, wp_simp]: "wp (strerror_of e) Q w = Q (strerror w e) w"
  by (simp add: strerror_of_def)

lemma wp_log_action [simp, wp_simp]:
  "wp (log_action a) Q w = Q () (w\<lparr>actions := actions w @ [a]\<rparr>)"
  by (simp add: log_action_def)

lemma fresh_file_settle [simp]:
  "fresh_file m (w\<lparr>script := rs\<rparr>) = fresh_file m w"
  "fresh_file m (w\<lparr>last_errno := e\<rparr>) = fresh_file m w"
  by (simp_all add: fresh_file_def)

text \<open>
  One rule per call: the cases its result distinguishes, each with the world it leaves.
\<close>

lemma wp_plain_call [wp_rule]:
  assumes "\<And>ok rs e. Q ok (settle rs e w)"
  shows "wp plain_call Q w"
proof -
  have "Q True (w\<lparr>script := rs\<rparr>)" for rs
    using assms [where ok = True and rs = rs and e = "last_errno w"] by simp
  then show ?thesis
    unfolding plain_call_def
    by (simp, intro wp_next_outcome) (simp add: assms split: outcome.split)
qed

lemma wp_open_directory [wp_rule]:
  assumes "\<And>rs e. Q False (settle rs e w)"
    and "\<And>rs e n. dirs w root = Some n \<Longrightarrow> kind n = Directory \<Longrightarrow> Q True (settle rs e w)"
  shows "wp (open_directory root) Q w"
  unfolding open_directory_def
  by (simp, rule wp_next_outcome) (auto simp: assms assms(1) [where e = "last_errno w", simplified] assms(2) [where e = "last_errno w", simplified]
      split: outcome.split option.split)

lemma wp_stat_directory [wp_rule]:
  assumes "\<And>rs e. Q None (settle rs e w)"
    and "\<And>rs e n. dirs w root = Some n \<Longrightarrow> Q (Some n) (settle rs e w)"
  shows "wp (stat_directory root) Q w"
  unfolding stat_directory_def
  by (simp, rule wp_next_outcome) (auto simp: assms assms(1) [where e = "last_errno w", simplified] assms(2) [where e = "last_errno w", simplified]
      split: outcome.split option.split)

lemma wp_stat_entry [wp_rule]:
  assumes "\<And>rs e. Q None (settle rs e w)"
    and "\<And>rs e n. entries w p = Some n \<Longrightarrow> Q (Some n) (settle rs e w)"
  shows "wp (stat_entry p) Q w"
  unfolding stat_entry_def
  by (simp, rule wp_next_outcome) (auto simp: assms assms(1) [where e = "last_errno w", simplified] assms(2) [where e = "last_errno w", simplified]
      split: outcome.split option.split)

lemma wp_open_existing [wp_rule]:
  assumes "\<And>rs e. (e = ENOENT \<Longrightarrow> entries w p = None) \<Longrightarrow> Q False (settle rs e w)"
    and "\<And>rs e n. entries w p = Some n \<Longrightarrow> kind n \<noteq> Symbolic_link \<Longrightarrow> Q True (settle rs e w)"
  shows "wp (open_existing p) Q w"
  unfolding open_existing_def
  by (simp, rule wp_next_outcome)
    (auto simp: assms(2) [where e = "last_errno w", simplified] intro!: assms
      split: outcome.split option.split)

definition created :: "path \<Rightarrow> u32 \<Rightarrow> world \<Rightarrow> world" where
  "created p m w = put_entry p (Some (fresh_file m w)) (w\<lparr>next_inode := Suc (next_inode w)\<rparr>)"

lemma created_sel [simp]:
  "entries (created p m w) = (entries w)(p \<mapsto> fresh_file m w)"
  "dirs (created p m w) = dirs w"
  "effective_uid (created p m w) = effective_uid w"
  "effective_gid (created p m w) = effective_gid w"
  "process_id (created p m w) = process_id w"
  "script (created p m w) = script w"
  "last_errno (created p m w) = last_errno w"
  "strerror (created p m w) = strerror w"
  "transaction_sequence (created p m w) = transaction_sequence w"
  "revision_sequence (created p m w) = revision_sequence w"
  "clock (created p m w) = clock w"
  "clock_reads (created p m w) = clock_reads w"
  "processes (created p m w) = processes w"
  "processes_run (created p m w) = processes_run w"
  "inbound (created p m w) = inbound w"
  "outbound (created p m w) = outbound w"
  "send_events (created p m w) = send_events w"
  "actions (created p m w) = actions w"
  by (simp_all add: created_def)

text \<open>Script and errno updates move outwards, where they absorb each other.\<close>

lemma settle_outwards [simp]:
  "put_entry p n (w\<lparr>script := rs\<rparr>) = (put_entry p n w)\<lparr>script := rs\<rparr>"
  "put_entry p n (w\<lparr>last_errno := e\<rparr>) = (put_entry p n w)\<lparr>last_errno := e\<rparr>"
  "created p m (w\<lparr>script := rs\<rparr>) = (created p m w)\<lparr>script := rs\<rparr>"
  "created p m (w\<lparr>last_errno := e\<rparr>) = (created p m w)\<lparr>last_errno := e\<rparr>"
  by (simp_all add: put_entry_def created_def fresh_file_def)

lemma put_entry_swap:
  "p \<noteq> q \<Longrightarrow> put_entry p n (put_entry q m w) = put_entry q m (put_entry p n w)"
  by (auto simp: put_entry_def fun_upd_twist)

lemma put_entry_twice [simp]:
  "put_entry p n (put_entry p m w) = put_entry p n w"
  "put_entry p n (created p k w) = put_entry p n (w\<lparr>next_inode := Suc (next_inode w)\<rparr>)"
  by (simp_all add: put_entry_def created_def)

lemma wp_create_exclusive [wp_rule]:
  assumes "\<And>rs e. (e = EEXIST \<Longrightarrow> entries w p \<noteq> None) \<Longrightarrow> Q False (settle rs e w)"
    and "\<And>rs e. entries w p = None \<Longrightarrow> Q True (created p m (settle rs e w))"
  shows "wp (create_exclusive p m) Q w"
  unfolding create_exclusive_def created_def [symmetric]
  by (simp, rule wp_next_outcome)
    (auto simp: assms(2) [where e = "last_errno w", simplified] intro!: assms
      split: outcome.split option.split)

lemma wp_open_or_create [wp_rule]:
  assumes "\<And>rs e. Q False (settle rs e w)"
    and "\<And>rs e. entries w p = None \<Longrightarrow> Q True (created p m (settle rs e w))"
    and "\<And>rs e n. entries w p = Some n \<Longrightarrow> Q True (settle rs e w)"
  shows "wp (open_or_create p m) Q w"
  unfolding open_or_create_def created_def [symmetric]
  by (simp, rule wp_next_outcome) (auto simp: assms assms(1) [where e = "last_errno w", simplified]
      assms(2) [where e = "last_errno w", simplified]
      assms(3) [where e = "last_errno w", simplified] split: outcome.split option.split)

lemma wp_unlink [wp_rule]:
  assumes "\<And>rs e. Q False (settle rs e w)"
    and "\<And>rs e n. entries w p = Some n \<Longrightarrow> Q True (put_entry p None (settle rs e w))"
  shows "wp (unlink p) Q w"
  unfolding unlink_def
  by (simp, rule wp_next_outcome) (auto simp: assms assms(1) [where e = "last_errno w", simplified] assms(2) [where e = "last_errno w", simplified]
      split: outcome.split option.split)

lemma wp_rename_entry [wp_rule]:
  assumes "\<And>rs e. Q False (settle rs e w)"
    and "\<And>rs e n. entries w p = Some n \<Longrightarrow> Q True (put_entry p None (put_entry q (Some n) (settle rs e w)))"
  shows "wp (rename_entry p q) Q w"
  unfolding rename_entry_def
  by (simp, rule wp_next_outcome) (auto simp: assms assms(1) [where e = "last_errno w", simplified] assms(2) [where e = "last_errno w", simplified]
      split: outcome.split option.split)

lemma wp_link_entry [wp_rule]:
  assumes "\<And>rs e. (e = EEXIST \<Longrightarrow> entries w q \<noteq> None) \<Longrightarrow> Q False (settle rs e w)"
    and "\<And>rs e n. entries w p = Some n \<Longrightarrow> entries w q = None \<Longrightarrow>
           Q True (put_entry q (Some n) (settle rs e w))"
  shows "wp (link_entry p q) Q w"
  unfolding link_entry_def
  by (simp, rule wp_next_outcome)
    (auto simp: assms(2) [where e = "last_errno w", simplified] intro!: assms
      split: outcome.split option.split)

lemma write_loop_prefix: "write_loop rs s = (t, out, rs') \<Longrightarrow> \<exists>rest. s = out @ rest"
proof (induction rs s arbitrary: t out rs' rule: write_loop.induct)
  case (3 r rs c s)
  then show ?case
  proof (cases r)
    case (Short n)
    show ?thesis
    proof (cases "n = 0")
      case False
      with 3(3) Short obtain out1 where loop: "write_loop rs (drop n (c # s)) = (t, out1, rs')"
        and out: "out = take n (c # s) @ out1"
        by (auto split: prod.splits)
      from 3(1) [OF Short False loop] obtain rest where "drop n (c # s) = out1 @ rest" ..
      with out have "c # s = out @ rest" by (metis append.assoc append_take_drop_id)
      then show ?thesis ..
    qed (use 3 Short in auto)
  qed (auto split: if_splits)
qed auto

lemma write_loop_transferred: "write_loop rs s = (Transferred, out, rs') \<Longrightarrow> out = s"
proof (induction rs s arbitrary: out rs' rule: write_loop.induct)
  case (3 r rs c s)
  then show ?case
  proof (cases r)
    case (Short n)
    with 3 show ?thesis by (auto split: if_splits prod.splits) (metis append_take_drop_id drop_Cons')+
  qed (auto split: if_splits)
qed auto

lemma granted_le: "granted rs n \<le> n"
  by (simp add: granted_def split: list.split outcome.split)

lemma read_loop_transferred:
  "read_loop chunk rs left available = (Transferred, out, rs') \<Longrightarrow>
     out = take left available \<and> left \<le> length available"
proof (induction chunk rs left available arbitrary: out rs' rule: read_loop.induct)
  case (1 chunk rs left available)
  consider "left = 0" | e where "left \<noteq> 0" "fault_of rs = Some e" | "left \<noteq> 0" "fault_of rs = None"
    by fastforce
  then show ?case
  proof cases
    case 1
    with "1.prems" show ?thesis by (simp add: read_loop.simps [of chunk rs 0])
  next
    case 2
    with "1.prems" have "e = EINTR" "read_loop chunk (tl rs) left available = (Transferred, out, rs')"
      by (auto simp: read_loop.simps [of chunk rs left] split: if_splits)
    with "1.IH"(2) 2 show ?thesis by blast
  next
    case 3
    define n where "n = min (length available) (granted rs (min left chunk))"
    from "1.prems" 3 obtain out1 where n: "n \<noteq> 0" "out = take n available @ out1"
      and rest: "read_loop chunk (tl rs) (left - n) (drop n available) = (Transferred, out1, rs')"
      by (auto simp: read_loop.simps [of chunk rs left] n_def Let_def split: if_splits prod.splits)
    have le: "n \<le> length available" "n \<le> left"
      using granted_le [of rs "min left chunk"] by (auto simp: n_def)
    from "1.IH"(1) [OF 3 n_def n(1) rest]
    have "out1 = take (left - n) (drop n available)" "left - n \<le> length (drop n available)"
      by simp_all
    with le n(2) show ?thesis
      using take_add [of n "left - n" available] by simp
  qed
qed

abbreviation extended :: "path \<Rightarrow> string \<Rightarrow> world \<Rightarrow> world" where
  "extended p out w \<equiv>
     put_entry p (map_option (\<lambda>n. n\<lparr>content := content n @ out\<rparr>) (entries w p)) w"

lemma wp_write_all [wp_rule]:
  assumes "\<And>rs e out rest. bytes = out @ rest \<Longrightarrow> Q False (extended p out (settle rs e w))"
    and "\<And>rs e. Q True (extended p bytes (settle rs e w))"
  shows "wp (write_all p bytes) Q w"
proof -
  obtain t out rs where loop: "write_loop (script w) bytes = (t, out, rs)"
    by (cases "write_loop (script w) bytes") auto
  show ?thesis
  proof (cases t)
    case Transferred
    with loop have "out = bytes" by (simp add: write_loop_transferred)
    with loop Transferred show ?thesis
      using assms(2) [where rs = rs and e = "last_errno w"]
      by (simp add: wp_def write_all_def)
  next
    case (Failed e)
    have "\<exists>rest. bytes = out @ rest" using write_loop_prefix [OF loop] .
    with loop Failed show ?thesis
      using assms(1) [where rs = rs and e = e]
      by (auto simp: wp_def write_all_def)
  qed
qed

lemma wp_read_all [wp_rule]:
  assumes "\<And>rs e. Q None (settle rs e w)"
    and "\<And>rs e n. entries w p = Some n \<Longrightarrow> count \<le> length (content n) \<Longrightarrow>
           Q (Some (take count (content n))) (settle rs e w)"
    and "count \<noteq> 0 \<or> entries w p \<noteq> None"
  shows "wp (read_all chunk p count) Q w"
proof -
  let ?s = "case entries w p of None \<Rightarrow> [] | Some n \<Rightarrow> content n"
  obtain t out rs where loop: "read_loop chunk (script w) count ?s = (t, out, rs)"
    by (cases "read_loop chunk (script w) count ?s") auto
  show ?thesis
  proof (cases t)
    case Transferred
    with loop have out: "out = take count ?s" "count \<le> length ?s"
      by (simp_all add: read_loop_transferred)
    with assms(3) obtain n where n: "entries w p = Some n" by (cases "entries w p") auto
    with out have "Q (Some out) (w\<lparr>script := rs\<rparr>)"
      using assms(2) [where rs = rs and e = "last_errno w" and n = n] by simp
    with loop Transferred show ?thesis by (simp add: wp_def read_all_def)
  next
    case (Failed e)
    with loop show ?thesis using assms(1) [where rs = rs and e = e]
      by (simp add: wp_def read_all_def)
  qed
qed

lemma wp_execute [wp_rule]:
  assumes "\<And>r. r = processes w (processes_run w) exe argv (entries w) \<Longrightarrow>
    Q r (w\<lparr>processes_run := Suc (processes_run w),
           actions := actions w @ [Executed exe argv (entries w) r]\<rparr>)"
  shows "wp (execute exe argv) Q w"
  using assms by (simp add: wp_def execute_def Let_def)

lemma wp_read_clock [simp, wp_simp]:
  "wp read_clock Q w = Q (clock w (clock_reads w)) (w\<lparr>clock_reads := Suc (clock_reads w)\<rparr>)"
  by (simp add: wp_def read_clock_def)

section \<open>Calls without injected faults\<close>

lemma run_next_outcome_Nil [simp]: "script w = [] \<Longrightarrow> run_state next_outcome w = (Fine, w)"
  by (simp add: next_outcome_def)

lemma run_plain_call_Nil [simp]: "script w = [] \<Longrightarrow> run_state plain_call w = (True, w)"
  by (simp add: plain_call_def)

lemma run_stat_entry_Nil [simp]:
  "script w = [] \<Longrightarrow> entries w p = Some n \<Longrightarrow> run_state (stat_entry p) w = (Some n, w)"
  by (simp add: stat_entry_def)

lemma run_write_all_Nil [simp]:
  "script w = [] \<Longrightarrow> run_state (write_all p s) w = (True, extended p s w)"
  by (cases s) (simp_all add: write_all_def put_entry_def)

lemma run_stat_directory_Nil [simp]:
  "script w = [] \<Longrightarrow> dirs w root = Some n \<Longrightarrow> run_state (stat_directory root) w = (Some n, w)"
  by (simp add: stat_directory_def)

lemma run_open_directory_Nil [simp]:
  "script w = [] \<Longrightarrow> dirs w root = Some n \<Longrightarrow> kind n = Directory \<Longrightarrow>
     run_state (open_directory root) w = (True, w)"
  by (simp add: open_directory_def)

lemma run_open_existing_Nil [simp]:
  "script w = [] \<Longrightarrow> entries w p = Some n \<Longrightarrow> kind n \<noteq> Symbolic_link \<Longrightarrow>
     run_state (open_existing p) w = (True, w)"
  by (simp add: open_existing_def)

lemma run_open_missing_Nil [simp]:
  "script w = [] \<Longrightarrow> entries w p = None \<Longrightarrow>
     run_state (open_existing p) w = (False, w\<lparr>last_errno := ENOENT\<rparr>)"
  by (simp add: open_existing_def set_errno_def)

lemma read_loop_Nil:
  "0 < chunk \<Longrightarrow> left \<le> length available \<Longrightarrow>
     read_loop chunk [] left available = (Transferred, take left available, [])"
proof (induction left arbitrary: available rule: less_induct)
  case (less left)
  show ?case
  proof (cases "left = 0")
    case False
    with less.prems have n: "min (length available) (granted [] (min left chunk)) = min left chunk"
      "min left chunk \<noteq> 0" by (auto simp: granted_def)
    from False less.prems have "read_loop chunk [] (left - min left chunk) (drop (min left chunk) available) =
        (Transferred, take (left - min left chunk) (drop (min left chunk) available), [])"
      by (intro less.IH) auto
    moreover have "take (min left chunk) available @ take (left - min left chunk) (drop (min left chunk) available) =
        take left available"
      using take_add [of "min left chunk" "left - min left chunk" available] by simp
    ultimately show ?thesis using False n by (simp add: read_loop.simps [of chunk "[]" left] fault_of_def Let_def)
  qed (simp add: read_loop.simps [of chunk "[]" 0])
qed

lemma run_read_all_Nil [simp]:
  "script w = [] \<Longrightarrow> entries w p = Some n \<Longrightarrow> 0 < chunk \<Longrightarrow> k = length (content n) \<Longrightarrow>
     run_state (read_all chunk p k) w = (Some (content n), w)"
  by (cases w) (simp add: read_all_def read_loop_Nil)

lemma run_create_exclusive_Nil [simp]:
  "script w = [] \<Longrightarrow> entries w p = None \<Longrightarrow>
     run_state (create_exclusive p m) w = (True, created p m w)"
  by (simp add: create_exclusive_def created_def)

lemma run_unlink_Nil [simp]:
  "script w = [] \<Longrightarrow> entries w p = Some n \<Longrightarrow> run_state (unlink p) w = (True, put_entry p None w)"
  by (simp add: unlink_def)

lemma run_rename_entry_Nil [simp]:
  "script w = [] \<Longrightarrow> entries w p = Some n \<Longrightarrow>
     run_state (rename_entry p q) w = (True, put_entry p None (put_entry q (Some n) w))"
  by (simp add: rename_entry_def)

lemma run_link_entry_Nil [simp]:
  "script w = [] \<Longrightarrow> entries w p = Some n \<Longrightarrow> entries w q = None \<Longrightarrow>
     run_state (link_entry p q) w = (True, put_entry q (Some n) w)"
  by (simp add: link_entry_def)

section \<open>What file operations leave alone\<close>

text \<open>The parts of a world that no file operation changes.\<close>

definition same_setting :: "world \<Rightarrow> world \<Rightarrow> bool" where
  "same_setting w w' \<longleftrightarrow>
     dirs w' = dirs w \<and> effective_uid w' = effective_uid w \<and> effective_gid w' = effective_gid w \<and>
     process_id w' = process_id w \<and> strerror w' = strerror w \<and> clock w' = clock w \<and>
     processes w' = processes w \<and> inbound w' = inbound w \<and> outbound w' = outbound w \<and>
     send_events w' = send_events w"

lemma same_setting_refl [simp]: "same_setting w w"
  by (simp add: same_setting_def)

lemma same_setting_trans [trans]:
  "same_setting w w1 \<Longrightarrow> same_setting w1 w2 \<Longrightarrow> same_setting w w2"
  by (simp add: same_setting_def)

lemma same_setting_update [simp]:
  "same_setting w (w1\<lparr>script := rs\<rparr>) = same_setting w w1"
  "same_setting w (w1\<lparr>last_errno := e\<rparr>) = same_setting w w1"
  "same_setting w (w1\<lparr>next_inode := i\<rparr>) = same_setting w w1"
  "same_setting w (w1\<lparr>actions := a\<rparr>) = same_setting w w1"
  "same_setting w (w1\<lparr>clock_reads := c\<rparr>) = same_setting w w1"
  "same_setting w (w1\<lparr>processes_run := c\<rparr>) = same_setting w w1"
  "same_setting w (w1\<lparr>transaction_sequence := q\<rparr>) = same_setting w w1"
  "same_setting w (w1\<lparr>revision_sequence := q\<rparr>) = same_setting w w1"
  "same_setting w (put_entry p n w1) = same_setting w w1"
  "same_setting w (created p m w1) = same_setting w w1"
  by (simp_all add: same_setting_def put_entry_def created_def)

lemma same_setting_start [simp]:
  "same_setting (w\<lparr>script := rs\<rparr>) w1 = same_setting w w1"
  "same_setting (w\<lparr>last_errno := e\<rparr>) w1 = same_setting w w1"
  "same_setting (w\<lparr>next_inode := i\<rparr>) w1 = same_setting w w1"
  "same_setting (w\<lparr>actions := a\<rparr>) w1 = same_setting w w1"
  "same_setting (w\<lparr>clock_reads := c\<rparr>) w1 = same_setting w w1"
  "same_setting (w\<lparr>processes_run := c\<rparr>) w1 = same_setting w w1"
  "same_setting (w\<lparr>transaction_sequence := q\<rparr>) w1 = same_setting w w1"
  "same_setting (w\<lparr>revision_sequence := q\<rparr>) w1 = same_setting w w1"
  "same_setting (put_entry p n w) w1 = same_setting w w1"
  "same_setting (created p m w) w1 = same_setting w w1"
  by (simp_all add: same_setting_def put_entry_def created_def)

text \<open>Nothing outside the paths \<open>P\<close> is created, changed or removed.\<close>

definition only_touches :: "path set \<Rightarrow> world \<Rightarrow> world \<Rightarrow> bool" where
  "only_touches P w w' \<longleftrightarrow> (\<forall>p. p \<notin> P \<longrightarrow> entries w' p = entries w p)"

abbreviation in_directory :: "string \<Rightarrow> path set" where
  "in_directory root \<equiv> {p. fst p = root}"

lemma only_touches_refl [simp]: "only_touches P w w"
  by (simp add: only_touches_def)

lemma only_touches_trans:
  "only_touches P w w1 \<Longrightarrow> only_touches P w1 w2 \<Longrightarrow> only_touches P w w2"
  by (simp add: only_touches_def)

lemma only_touches_mono: "only_touches P w w' \<Longrightarrow> P \<subseteq> P' \<Longrightarrow> only_touches P' w w'"
  by (auto simp: only_touches_def)

lemma only_touches_entry: "only_touches P w w' \<Longrightarrow> p \<notin> P \<Longrightarrow> entries w' p = entries w p"
  unfolding only_touches_def by blast

lemma only_touches_update [simp]:
  "only_touches P w (w1\<lparr>script := rs\<rparr>) = only_touches P w w1"
  "only_touches P w (w1\<lparr>last_errno := e\<rparr>) = only_touches P w w1"
  "only_touches P w (w1\<lparr>next_inode := i\<rparr>) = only_touches P w w1"
  "only_touches P w (w1\<lparr>actions := a\<rparr>) = only_touches P w w1"
  "only_touches P w (w1\<lparr>clock_reads := c\<rparr>) = only_touches P w w1"
  "only_touches P w (w1\<lparr>processes_run := c\<rparr>) = only_touches P w w1"
  "only_touches P w (w1\<lparr>transaction_sequence := q\<rparr>) = only_touches P w w1"
  "only_touches P w (w1\<lparr>revision_sequence := q\<rparr>) = only_touches P w w1"
  by (simp_all add: only_touches_def)

lemma only_touches_start [simp]:
  "only_touches P (w\<lparr>script := rs\<rparr>) w1 = only_touches P w w1"
  "only_touches P (w\<lparr>last_errno := e\<rparr>) w1 = only_touches P w w1"
  "only_touches P (w\<lparr>next_inode := i\<rparr>) w1 = only_touches P w w1"
  "only_touches P (w\<lparr>actions := a\<rparr>) w1 = only_touches P w w1"
  "only_touches P (w\<lparr>clock_reads := c\<rparr>) w1 = only_touches P w w1"
  "only_touches P (w\<lparr>processes_run := c\<rparr>) w1 = only_touches P w w1"
  "only_touches P (w\<lparr>transaction_sequence := q\<rparr>) w1 = only_touches P w w1"
  "only_touches P (w\<lparr>revision_sequence := q\<rparr>) w1 = only_touches P w w1"
  "p \<in> P \<Longrightarrow> only_touches P (put_entry p n w) w1 = only_touches P w w1"
  "p \<in> P \<Longrightarrow> only_touches P (created p m w) w1 = only_touches P w w1"
  by (auto simp: only_touches_def)

lemma only_touches_put_entry [simp]:
  "p \<in> P \<Longrightarrow> only_touches P w (put_entry p n w1) = only_touches P w w1"
  "p \<in> P \<Longrightarrow> only_touches P w (created p m w1) = only_touches P w w1"
  by (auto simp: only_touches_def)

text \<open>The text of a file, empty when there is none.\<close>

definition file_text :: "world \<Rightarrow> path \<Rightarrow> string" where
  "file_text w p = (case entries w p of None \<Rightarrow> [] | Some n \<Rightarrow> content n)"

lemma file_text_None: "entries w p = None \<Longrightarrow> file_text w p = []"
  by (simp add: file_text_def)

lemma file_text_Some: "entries w p = Some n \<Longrightarrow> file_text w p = content n"
  by (simp add: file_text_def)

lemma file_text_simps [simp]:
  "file_text (put_entry p None w) p = []"
  "file_text (put_entry p (Some n) w) p = content n"
  "file_text (created p m w) p = []"
  "p \<noteq> q \<Longrightarrow> file_text (put_entry p n' w) q = file_text w q"
  "file_text (w\<lparr>script := rs\<rparr>) p = file_text w p"
  "file_text (w\<lparr>last_errno := e\<rparr>) p = file_text w p"
  "file_text (w\<lparr>next_inode := i\<rparr>) p = file_text w p"
  "file_text (w\<lparr>actions := a\<rparr>) p = file_text w p"
  "file_text (w\<lparr>clock_reads := c\<rparr>) p = file_text w p"
  by (simp_all add: file_text_def fresh_file_def)

section \<open>A concrete world\<close>

text \<open>
  No file yet, every directory private to user 0, no fault ahead, every process succeeds
  silently. Concrete instances of the theorems start from it.
\<close>

definition private_directory :: node where
  "private_directory = \<lparr>kind = Directory, owner = 0, group = 0, mode = 448, links = 1, inode = 1,
     content = []\<rparr>"

definition silent_success :: process_result where
  "silent_success = \<lparr>launched = True, timed_out = False, output_truncated = False, exit_code = 0,
     standard_output = [], standard_error = [], error_message = []\<rparr>"

definition idle_world :: world where
  "idle_world = \<lparr>entries = \<lambda>_. None, dirs = \<lambda>_. Some private_directory, effective_uid = 0,
     effective_gid = 0, process_id = 42, script = [], last_errno = EIO, strerror = \<lambda>_. ''error'',
     next_inode = 2, transaction_sequence = 0, revision_sequence = 0, clock = decimal,
     clock_reads = 0, processes = \<lambda>_ _ _ _. silent_success, processes_run = 0, inbound = [],
     outbound = [], send_events = [], actions = []\<rparr>"

lemma idle_world_sel [simp]:
  "entries idle_world = (\<lambda>_. None)" "dirs idle_world = (\<lambda>_. Some private_directory)"
  "effective_uid idle_world = 0" "script idle_world = []" "actions idle_world = []"
  by (simp_all add: idle_world_def)

lemma private_directory_safe [simp]: "safe_directory 0 private_directory" "kind private_directory = Directory"
  by (simp_all add: safe_directory_def private_directory_def)

end
