(* ===== verification/Journal.thy ===== *)
theory Journal
  imports Posix
begin

text \<open>
  The operation journal (\<open>operation_journal.cpp\<close>): append one event as a JSON line to
  \<open>operations.jsonl\<close> under the audit root, with an entry limit, a file limit, safety checks
  on directory and file, a lock, and \<open>fsync\<close> of both. \<open>Audited\<close> enters the visible
  actions when an append reports success.
\<close>

section \<open>The append operation\<close>

datatype journal_status =
  Appended | Invalid_event | Journal_unsafe_root | Unsafe_journal | Capacity_exceeded | Journal_io_error

record journal_result =
  journal_status :: journal_status
  journal_event_id :: string
  journal_message :: string

definition journal_ok :: "journal_result \<Rightarrow> bool" where
  "journal_ok r \<longleftrightarrow> journal_status r = Appended"

definition maximum_entry_size :: nat where "maximum_entry_size = 64 * 1024"
definition maximum_journal_size :: nat where "maximum_journal_size = 16 * 1024 * 1024"

definition journal_filename :: string where "journal_filename = ''operations.jsonl''"

definition journal_path :: "string \<Rightarrow> path" where
  "journal_path root = (root, journal_filename)"

definition journal_failure :: "journal_status \<Rightarrow> string \<Rightarrow> string \<Rightarrow> journal_result" where
  "journal_failure s e m = \<lparr>journal_status = s, journal_event_id = e, journal_message = m\<rparr>"

definition has_required_fields :: "event \<Rightarrow> bool" where
  "has_required_fields e \<longleftrightarrow>
     ev_timestamp e \<noteq> [] \<and> ev_event_id e \<noteq> [] \<and> ev_component e \<noteq> [] \<and>
     ev_operation_id e \<noteq> [] \<and> ev_action e \<noteq> [] \<and> ev_outcome e \<noteq> []"

text \<open>
  The part between \<open>flock\<close> and \<open>close\<close> of the journal file. \<open>None\<close> is the
  early return on a full journal; \<open>Some ok\<close> is the variable \<open>successful\<close>.
\<close>

definition locked_append :: "path \<Rightarrow> string \<Rightarrow> bool option io" where
  "locked_append p line = do {
     locked \<leftarrow> flock;
     if \<not> locked then return (Some False)
     else do {
       st \<leftarrow> stat_entry p;
       (case st of
          None \<Rightarrow> return (Some False)
        | Some n \<Rightarrow>
            (let current = (if file_size n < 0 then maximum_journal_size else nat (file_size n))
             in if current + length line > maximum_journal_size then return None
                else do {
                  written \<leftarrow> write_all p line;
                  if \<not> written then return (Some False)
                  else do { synced \<leftarrow> fsync; return (Some synced) }
                }))
     }
   }"

text \<open>The tail of \<open>append\<close> once the journal file is open and checked.\<close>

definition commit_append :: "path \<Rightarrow> string \<Rightarrow> event \<Rightarrow> journal_result io" where
  "commit_append p line e = do {
     attempt \<leftarrow> locked_append p line;
     (case attempt of
        None \<Rightarrow> do {
          flock; close_descriptor; close_descriptor;
          return (journal_failure Capacity_exceeded ''GH-AUDIT-1005''
            ''Audit journal reached its size limit and must be rotated.'')
        }
      | Some successful \<Rightarrow> do {
          append_error \<leftarrow> saved_errno;
          flock;
          closed \<leftarrow> close_descriptor;
          let successful1 = (successful \<and> closed);
          synced \<leftarrow> (if successful1 then fsync else return True);
          let successful2 = (successful1 \<and> synced);
          close_descriptor;
          if \<not> successful2 then do {
            text \<leftarrow> strerror_of (if successful then EIO else append_error);
            return (journal_failure Journal_io_error ''GH-AUDIT-2001''
              (''Could not append and synchronize audit event: '' @ text))
          }
          else do {
            log_action (Audited e);
            return \<lparr>journal_status = Appended, journal_event_id = ''GH-AUDIT-0001'',
                    journal_message = ''Audit event appended successfully.''\<rparr>
          }
        })
   }"

definition journal_append :: "string \<Rightarrow> event \<Rightarrow> journal_result io" where
  "journal_append root e =
     (if \<not> has_required_fields e
      then return (journal_failure Invalid_event ''GH-AUDIT-1001''
        ''Audit event is missing one or more required fields.'')
      else
        let serialized = format_event e in
        if length serialized + 1 > maximum_entry_size
        then return (journal_failure Invalid_event ''GH-AUDIT-1002''
          ''Serialized audit event exceeds the maximum entry size.'')
        else if \<not> is_absolute root
        then return (journal_failure Journal_unsafe_root ''GH-AUDIT-1003''
          ''Audit root must be an absolute path.'')
        else do {
          uid \<leftarrow> gets effective_uid;
          st \<leftarrow> stat_directory root;
          if (case st of None \<Rightarrow> True | Some d \<Rightarrow> \<not> safe_directory uid d)
          then return (journal_failure Journal_unsafe_root ''GH-AUDIT-1003''
            ''Audit root must be a non-symlink directory owned by the current user and not group/world writable.'')
          else do {
            opened \<leftarrow> open_directory root;
            if \<not> opened
            then return (journal_failure Journal_unsafe_root ''GH-AUDIT-1003''
              ''Audit root could not be opened safely.'')
            else do {
              file \<leftarrow> open_or_create (journal_path root) 384;
              if \<not> file then do {
                open_error \<leftarrow> saved_errno;
                close_descriptor;
                text \<leftarrow> strerror_of open_error;
                return (journal_failure Unsafe_journal ''GH-AUDIT-1004''
                  (''Audit journal could not be opened safely: '' @ text))
              }
              else do {
                jst \<leftarrow> stat_entry (journal_path root);
                if (case jst of None \<Rightarrow> True | Some n \<Rightarrow> \<not> private_regular_file uid n) then do {
                  close_descriptor; close_descriptor;
                  return (journal_failure Unsafe_journal ''GH-AUDIT-1004''
                    ''Audit journal must be a private regular file owned by the current user.'')
                }
                else commit_append (journal_path root) (serialized @ [newline]) e
              }
            }
          }
        })"

section \<open>What an append does to the world\<close>

definition journal_effect :: "string \<Rightarrow> event \<Rightarrow> journal_result \<Rightarrow> world \<Rightarrow> world \<Rightarrow> bool" where
  "journal_effect root e r w w' \<longleftrightarrow>
     same_setting w w' \<and> only_touches {journal_path root} w w' \<and>
     actions w' = actions w @ (if journal_ok r then [Audited e] else []) \<and>
     (\<exists>out rest. format_event e @ [newline] = out @ rest \<and> (journal_ok r \<longrightarrow> rest = []) \<and>
        file_text w' (journal_path root) = file_text w (journal_path root) @ out \<and>
        (out = [] \<or> length (file_text w' (journal_path root)) \<le> maximum_journal_size))"

lemma journal_ok_simps [simp]:
  "\<not> journal_ok (journal_failure Invalid_event a b)"
  "\<not> journal_ok (journal_failure Journal_unsafe_root a b)"
  "\<not> journal_ok (journal_failure Unsafe_journal a b)"
  "\<not> journal_ok (journal_failure Capacity_exceeded a b)"
  "\<not> journal_ok (journal_failure Journal_io_error a b)"
  "journal_ok \<lparr>journal_status = Appended, journal_event_id = a, journal_message = b\<rparr>"
  by (simp_all add: journal_ok_def journal_failure_def)

lemma journal_effect_start [simp]:
  "journal_effect root e r (w\<lparr>script := rs\<rparr>) w' = journal_effect root e r w w'"
  "journal_effect root e r (w\<lparr>last_errno := er\<rparr>) w' = journal_effect root e r w w'"
  by (simp_all add: journal_effect_def)

lemma journal_effect_created:
  "entries w (journal_path root) = None \<Longrightarrow>
     journal_effect root e r (created (journal_path root) m w) w' = journal_effect root e r w w'"
  by (simp add: journal_effect_def file_text_None)

lemma journal_effect_quiet:
  "\<not> journal_ok r \<Longrightarrow> journal_effect root e r w (settle rs er w)"
  by (auto simp: journal_effect_def)

lemma journal_effect_none: "\<not> journal_ok r \<Longrightarrow> journal_effect root e r w w"
  by (auto simp: journal_effect_def)

lemma journal_effect_created_quiet:
  "entries w (journal_path root) = None \<Longrightarrow> \<not> journal_ok r \<Longrightarrow>
     journal_effect root e r w (settle rs er (created (journal_path root) m w))"
  by (auto simp: journal_effect_def file_text_None)

lemma journal_effect_partial:
  assumes "entries w (journal_path root) = Some n" "format_event e @ [newline] = out @ rest"
    "length (content n) + length out \<le> maximum_journal_size" "\<not> journal_ok r"
  shows "journal_effect root e r w
      (settle rs er (put_entry (journal_path root) (Some (n\<lparr>content := content n @ out\<rparr>)) w))"
  using assms by (auto simp: journal_effect_def file_text_Some)

lemma journal_effect_written:
  assumes "entries w (journal_path root) = Some n"
    "length (content n) + Suc (length (format_event e)) \<le> maximum_journal_size"
  shows "\<not> journal_ok r \<Longrightarrow> journal_effect root e r w
      (settle rs er (put_entry (journal_path root)
         (Some (n\<lparr>content := content n @ format_event e @ [newline]\<rparr>)) w))"
    and "journal_ok r \<Longrightarrow> journal_effect root e r w
      ((settle rs er (put_entry (journal_path root)
          (Some (n\<lparr>content := content n @ format_event e @ [newline]\<rparr>)) w))
         \<lparr>actions := actions w @ [Audited e]\<rparr>)"
  using assms by (auto simp: journal_effect_def file_text_Some)

lemma wp_locked_append:
  assumes full: "\<And>rs e. Q None (settle rs e w)"
    and early: "\<And>rs e. Q (Some False) (settle rs e w)"
    and partial: "\<And>n out rest rs e. entries w p = Some n \<Longrightarrow> line = out @ rest \<Longrightarrow>
      length (content n) + length line \<le> maximum_journal_size \<Longrightarrow>
      Q (Some False) (settle rs e (put_entry p (Some (n\<lparr>content := content n @ out\<rparr>)) w))"
    and written: "\<And>n b rs e. entries w p = Some n \<Longrightarrow>
      length (content n) + length line \<le> maximum_journal_size \<Longrightarrow>
      Q (Some b) (settle rs e (put_entry p (Some (n\<lparr>content := content n @ line\<rparr>)) w))"
  shows "wp (locked_append p line) Q w"
  unfolding locked_append_def
  by (auto simp: Let_def file_size_def early full written partial not_less intro!: wp_rule)

lemma wp_commit_append:
  assumes "\<And>r w'. journal_effect root e r w w' \<Longrightarrow> Q r w'"
    and "entries w (journal_path root) \<noteq> None"
  shows "wp (commit_append (journal_path root) (format_event e @ [newline]) e) Q w"
proof -
  from assms(2) obtain n where n: "entries w (journal_path root) = Some n" by auto
  show ?thesis
    unfolding commit_append_def
    apply (rule wp_bind [THEN iffD2], rule wp_locked_append)
       apply (auto simp: Let_def n intro!: wp_rule assms(1) journal_effect_quiet
         journal_effect_written)
    apply (auto intro!: journal_effect_partial [OF n])
    done
qed

lemma wp_journal_append [wp_rule]:
  assumes "\<And>r w'. journal_effect root e r w w' \<Longrightarrow> Q r w'"
  shows "wp (journal_append root e) Q w"
  unfolding journal_append_def
  by (auto simp: Let_def journal_effect_created split: option.splits
      intro!: wp_commit_append wp_rule assms journal_effect_quiet journal_effect_none
        journal_effect_created_quiet)

text \<open>
  C21. The journal is append-only and bounded, whatever fails: after any append, under any pattern
  of system-call failures, the file is its old text followed by a prefix of the event's line; no
  other file changes; the prefix is the whole line when success is reported, and an append that
  adds anything leaves the file within its 16 MiB limit.
\<close>

theorem journal_append_only:
  "case run_state (journal_append root e) w of (r, w') \<Rightarrow>
     (\<exists>out rest. format_event e @ [newline] = out @ rest \<and>
        file_text w' (journal_path root) = file_text w (journal_path root) @ out \<and>
        (if journal_ok r then rest = [] else True) \<and>
        (out = [] \<or> length (file_text w' (journal_path root)) \<le> maximum_journal_size)) \<and>
     only_touches {journal_path root} w w' \<and>
     actions w' = actions w @ (if journal_ok r then [Audited e] else [])"
proof -
  have "wp (journal_append root e) (\<lambda>r w'. journal_effect root e r w w') w"
    by (rule wp_journal_append)
  then show ?thesis by (auto simp: wp_def journal_effect_def split: prod.splits)
qed

text \<open>What the clients of the journal need: nothing but the journal file and the trail changes.\<close>

definition audited :: "string \<Rightarrow> event list \<Rightarrow> world \<Rightarrow> world \<Rightarrow> bool" where
  "audited root es w w' \<longleftrightarrow>
     same_setting w w' \<and> only_touches {journal_path root} w w' \<and>
     actions w' = actions w @ map Audited es"

lemma audited_clock [simp]: "audited root es (w\<lparr>clock_reads := c\<rparr>) w' = audited root es w w'"
  by (simp add: audited_def)

lemma wp_journal_append_audited:
  assumes "\<And>r w'. audited root (if journal_ok r then [e] else []) w w' \<Longrightarrow> Q r w'"
  shows "wp (journal_append root e) Q w"
  by (rule wp_journal_append, rule assms) (auto simp: journal_effect_def audited_def)

section \<open>Appends that succeed\<close>

text \<open>
  A journal that nothing is wrong with: no pending fault, a safe root, a private file or none.
\<close>

definition journal_ready :: "string \<Rightarrow> world \<Rightarrow> bool" where
  "journal_ready root w \<longleftrightarrow>
     script w = [] \<and> is_absolute root \<and>
     (case dirs w root of None \<Rightarrow> False | Some d \<Rightarrow> safe_directory (effective_uid w) d) \<and>
     (case entries w (journal_path root) of None \<Rightarrow> True
      | Some n \<Rightarrow> private_regular_file (effective_uid w) n)"

definition loggable :: "event \<Rightarrow> bool" where
  "loggable e \<longleftrightarrow> has_required_fields e \<and> length (format_event e) + 1 \<le> maximum_entry_size"

lemma private_fresh_file [simp]: "private_regular_file (effective_uid w) (fresh_file 384 w)"
  by (simp add: private_regular_file_def fresh_file_def)

lemma commit_append_ready:
  assumes "script w = []" "entries w p = Some n"
    "length (content n) + length line \<le> maximum_journal_size"
  shows "run_state (commit_append p line e) w =
    (\<lparr>journal_status = Appended, journal_event_id = ''GH-AUDIT-0001'',
      journal_message = ''Audit event appended successfully.''\<rparr>,
     (extended p line w)\<lparr>actions := actions w @ [Audited e]\<rparr>)"
  using assms
  by (simp add: commit_append_def locked_append_def file_size_def log_action_def Let_def
      saved_errno_def not_less)

lemma journal_append_ready:
  assumes "journal_ready root w" and "loggable e"
    and "length (file_text w (journal_path root)) + length (format_event e) + 1 \<le> maximum_journal_size"
  shows "case run_state (journal_append root e) w of (r, w') \<Rightarrow>
     journal_ok r \<and> journal_ready root w' \<and>
     file_text w' (journal_path root) = file_text w (journal_path root) @ format_event e @ [newline]"
proof -
  from assms(1) obtain d where ready: "script w = []" "is_absolute root" "dirs w root = Some d"
    "safe_directory (effective_uid w) d" "kind d = Directory"
    by (auto simp: journal_ready_def safe_directory_def split: option.splits)
  show ?thesis
  proof (cases "entries w (journal_path root)")
    case None
    let ?w = "created (journal_path root) 384 w"
    have room: "length (content (fresh_file 384 w)) + length (format_event e @ [newline]) \<le> maximum_journal_size"
      using assms(3) by (simp add: fresh_file_def)
    have "run_state (journal_append root e) w =
        run_state (commit_append (journal_path root) (format_event e @ [newline]) e) ?w"
      using assms(2) ready None
      by (simp add: journal_append_def loggable_def Let_def stat_directory_def open_directory_def
          open_or_create_def created_def [symmetric])
    then show ?thesis
      using commit_append_ready [of ?w "journal_path root" "fresh_file 384 w", OF _ _ room] ready None
      by (simp add: journal_ready_def file_text_None private_regular_file_def created_def)
  next
    case (Some n)
    with assms(1) have n: "private_regular_file (effective_uid w) n" by (simp add: journal_ready_def)
    then have "kind n = Regular_file" by (simp add: private_regular_file_def)
    with assms(2) ready Some n have "run_state (journal_append root e) w =
        run_state (commit_append (journal_path root) (format_event e @ [newline]) e) w"
      by (simp add: journal_append_def loggable_def Let_def stat_directory_def open_directory_def
          open_or_create_def)
    then show ?thesis
      using commit_append_ready [of w "journal_path root" n "format_event e @ [newline]" e] assms(3) ready Some n
      by (simp add: journal_ready_def file_text_Some private_regular_file_def)
  qed
qed

text \<open>
  An append to a journal in good order with room left does report success, stores the whole
  line and keeps the journal in good order: the audit trail does not refuse events on its own.
\<close>

theorem journal_append_succeeds:
  assumes "journal_ready root w" and "loggable e"
    and "length (file_text w (journal_path root)) + length (format_event e) + 1 \<le> maximum_journal_size"
  shows "case run_state (journal_append root e) w of (r, w') \<Rightarrow>
     journal_ok r \<and> journal_ready root w' \<and>
     file_text w' (journal_path root) = file_text w (journal_path root) @ format_event e @ [newline]"
  using assms by (rule journal_append_ready)

definition sample_event :: event where
  "sample_event =
     \<lparr>ev_timestamp = ''t'', ev_severity = Info, ev_event_id = ''GH-PF-0301'',
      ev_component = ''controller'', ev_operation_id = ''op'', ev_action = ''activate'',
      ev_outcome = ''success'', ev_message = ''done'', ev_attributes = [(''token'', ''7'')]\<rparr>"

lemma journal_append_succeeds_witness:
  "case run_state (journal_append ''/a'' sample_event) idle_world of (r, w') \<Rightarrow>
     journal_ok r \<and> journal_ready ''/a'' w' \<and>
     file_text w' (journal_path ''/a'') =
       file_text idle_world (journal_path ''/a'') @ format_event sample_event @ [newline]"
proof (rule journal_append_succeeds)
  show "journal_ready ''/a'' idle_world"
    by (simp add: journal_ready_def idle_world_def is_absolute_def safe_directory_def
        private_directory_def)
  show "loggable sample_event" by code_simp
  show "length (file_text idle_world (journal_path ''/a'')) + length (format_event sample_event) + 1
      \<le> maximum_journal_size" by code_simp
qed

end
