(* ===== verification/Transaction_Store.thy ===== *)
theory Transaction_Store
  imports Journal
begin

text \<open>
  The durable activation transaction (\<open>activation_transaction_store.cpp\<close>): at most one
  pending activation, in the file \<open>pending-activation\<close>, with a phase that only advances
  step by step. The record format is a parser and a printer; the operations are system-call
  sequences over \<open>world\<close>. \<open>stored\<close> is the abstract view, and the rules of the
  operations are stated over it. Since a failing call has no effect on the files, a crash at any
  point of an operation is the run in which every later call fails; the rules hold for those too.
\<close>

section \<open>The record\<close>

datatype activation_phase =
  Prepared_for_load | Target_loaded | Verified | Awaiting_confirmation | Committing | Committed

fun phase_number :: "activation_phase \<Rightarrow> nat" where
  "phase_number Prepared_for_load = 0"
| "phase_number Target_loaded = 1"
| "phase_number Verified = 2"
| "phase_number Awaiting_confirmation = 3"
| "phase_number Committing = 4"
| "phase_number Committed = 5"

lemma phase_number_inject [simp]: "phase_number p = phase_number q \<longleftrightarrow> p = q"
  by (cases p; cases q) simp_all

instantiation activation_phase :: linorder
begin

definition less_eq_activation_phase :: "activation_phase \<Rightarrow> activation_phase \<Rightarrow> bool" where
  "less_eq_activation_phase p q \<longleftrightarrow> phase_number p \<le> phase_number q"

definition less_activation_phase :: "activation_phase \<Rightarrow> activation_phase \<Rightarrow> bool" where
  "less_activation_phase p q \<longleftrightarrow> phase_number p < phase_number q"

instance
  by standard (auto simp: less_eq_activation_phase_def less_activation_phase_def)

end

record pending_activation =
  txn_operation_id :: string
  txn_target_revision :: u64
  txn_rollback_revision :: u64
  txn_phase :: activation_phase

datatype transaction_status =
    Txn_created | Txn_advanced | Txn_loaded | Txn_cleared | Txn_no_pending | Txn_conflict
  | Txn_invalid_record | Txn_invalid_transition | Txn_unsafe_root | Txn_unsafe_file | Txn_io_error

record transaction_result =
  txn_status :: transaction_status
  txn_event_id :: string
  txn_message :: string
  txn_transaction :: "pending_activation option"

definition transaction_ok :: "transaction_result \<Rightarrow> bool" where
  "transaction_ok r \<longleftrightarrow>
     txn_status r = Txn_created \<or> txn_status r = Txn_advanced \<or> txn_status r = Txn_loaded \<or>
     txn_status r = Txn_cleared \<or> txn_status r = Txn_no_pending"

definition txn_failure :: "transaction_status \<Rightarrow> string \<Rightarrow> string \<Rightarrow> transaction_result" where
  "txn_failure s e m =
     \<lparr>txn_status = s, txn_event_id = e, txn_message = m, txn_transaction = None\<rparr>"

definition valid_transaction :: "pending_activation \<Rightarrow> bool" where
  "valid_transaction t \<longleftrightarrow>
     valid_identifier (txn_operation_id t) \<and> txn_target_revision t > 0 \<and>
     txn_rollback_revision t > 0 \<and> txn_target_revision t \<noteq> txn_rollback_revision t"

definition phase_string :: "activation_phase \<Rightarrow> string" where
  "phase_string p = (case p of
       Prepared_for_load \<Rightarrow> ''prepared_for_load''
     | Target_loaded \<Rightarrow> ''target_loaded''
     | Verified \<Rightarrow> ''verified''
     | Awaiting_confirmation \<Rightarrow> ''awaiting_confirmation''
     | Committing \<Rightarrow> ''committing''
     | Committed \<Rightarrow> ''committed'')"

definition format_header :: string where "format_header = ''gatehold-activation-v1''"
definition transaction_filename :: string where "transaction_filename = ''pending-activation''"
definition maximum_record_size :: nat where "maximum_record_size = 1024"

definition serialize :: "pending_activation \<Rightarrow> string" where
  "serialize t =
     format_header @ [newline] @ ''operation_id='' @ txn_operation_id t @
     [newline] @ ''target_revision='' @ decimal (unat (txn_target_revision t)) @
     [newline] @ ''rollback_revision='' @ decimal (unat (txn_rollback_revision t)) @
     [newline] @ ''phase='' @ phase_string (txn_phase t) @ [newline]"

definition parse_phase :: "string \<Rightarrow> activation_phase option" where
  "parse_phase v =
     (if v = ''prepared_for_load'' then Some Prepared_for_load
      else if v = ''target_loaded'' then Some Target_loaded
      else if v = ''verified'' then Some Verified
      else if v = ''awaiting_confirmation'' then Some Awaiting_confirmation
      else if v = ''committing'' then Some Committing
      else if v = ''committed'' then Some Committed
      else None)"

definition parse_revision :: "string \<Rightarrow> u64 option" where
  "parse_revision v =
     (case from_chars uint64_max v of
        (err, n, rest) \<Rightarrow>
          (if err = Conversion_ok \<and> rest = [] \<and> n > 0 then Some (word_of_nat n) else None))"

text \<open>
  The line loop of \<open>parse\<close>: at most \<open>k\<close> newline-terminated lines; a last line with
  no newline rejects the record. What is left over comes second.
\<close>

fun take_lines :: "nat \<Rightarrow> string \<Rightarrow> (string list \<times> string) option" where
  "take_lines 0 s = Some ([], s)"
| "take_lines (Suc k) [] = Some ([], [])"
| "take_lines (Suc k) (c # s) =
     (let l = takeWhile (\<lambda>x. x \<noteq> newline) (c # s);
          rest = dropWhile (\<lambda>x. x \<noteq> newline) (c # s)
      in (case rest of
            [] \<Rightarrow> None
          | _ # rest' \<Rightarrow>
              (case take_lines k rest' of None \<Rightarrow> None | Some (ls, r) \<Rightarrow> Some (l # ls, r))))"

definition parse_fields :: "string \<Rightarrow> string \<Rightarrow> string \<Rightarrow> string \<Rightarrow> pending_activation option" where
  "parse_fields l1 l2 l3 l4 =
     (if \<not> prefix ''operation_id='' l1 \<or> \<not> prefix ''target_revision='' l2 \<or>
         \<not> prefix ''rollback_revision='' l3 \<or> \<not> prefix ''phase='' l4
      then None
      else (case (parse_revision (drop (length ''target_revision='') l2),
                  parse_revision (drop (length ''rollback_revision='') l3),
                  parse_phase (drop (length ''phase='') l4)) of
              (Some target, Some rollback, Some p) \<Rightarrow>
                (let t = \<lparr>txn_operation_id = drop (length ''operation_id='') l1,
                          txn_target_revision = target, txn_rollback_revision = rollback,
                          txn_phase = p\<rparr>
                 in if valid_transaction t then Some t else None)
            | _ \<Rightarrow> None))"

definition parse_transaction :: "string \<Rightarrow> pending_activation option" where
  "parse_transaction record =
     (case take_lines 5 record of
        Some ([l0, l1, l2, l3, l4], []) \<Rightarrow>
          (if l0 \<noteq> format_header then None else parse_fields l1 l2 l3 l4)
      | _ \<Rightarrow> None)"

definition valid_transition :: "activation_phase \<Rightarrow> activation_phase \<Rightarrow> bool" where
  "valid_transition current next \<longleftrightarrow> phase_number next = phase_number current + 1"

section \<open>Round trips of the record format\<close>

lemma take_lines_line:
  "newline \<notin> set l \<Longrightarrow>
     take_lines (Suc k) (l @ newline # rest) =
       (case take_lines k rest of None \<Rightarrow> None | Some (ls, r) \<Rightarrow> Some (l # ls, r))"
proof -
  assume l: "newline \<notin> set l"
  obtain c s where cs: "l @ newline # rest = c # s" by (cases l) auto
  have "takeWhile (\<lambda>x. x \<noteq> newline) (l @ newline # rest) = l"
    "dropWhile (\<lambda>x. x \<noteq> newline) (l @ newline # rest) = newline # rest"
    using l by (induction l) auto
  then show ?thesis unfolding cs by (simp add: Let_def)
qed

lemma take_lines_concat:
  "list_all (\<lambda>l. newline \<notin> set l) ls \<Longrightarrow>
     take_lines (length ls) (concat (map (\<lambda>l. l @ [newline]) ls)) = Some (ls, [])"
proof (induction ls)
  case (Cons l ls)
  then show ?case using take_lines_line [of l "length ls"] by simp
qed simp

lemma count_newline_takeWhile [simp]:
  "count_list (takeWhile (\<lambda>x. x \<noteq> newline) s) newline = 0"
  by (induction s) auto

lemma take_lines_count:
  "take_lines k s = Some (ls, rest) \<Longrightarrow> count_list s newline = length ls + count_list rest newline"
proof (induction k s arbitrary: ls rest rule: take_lines.induct)
  case (3 k c s)
  let ?l = "takeWhile (\<lambda>x. x \<noteq> newline) (c # s)"
  from 3(2) obtain x rest' ls' r where
    d: "dropWhile (\<lambda>x. x \<noteq> newline) (c # s) = x # rest'"
    and t: "take_lines k rest' = Some (ls', r)" and ls: "ls = ?l # ls'" "rest = r"
    by (auto simp: Let_def split: list.splits option.splits)
  have x: "x = newline" using d hd_dropWhile [of "\<lambda>x. x \<noteq> newline" "c # s"] by force
  have "c # s = ?l @ x # rest'"
    using takeWhile_dropWhile_id [of "\<lambda>x. x \<noteq> newline" "c # s"] unfolding d by simp
  then have "count_list (c # s) newline = count_list (?l @ x # rest') newline" by (simp only:)
  also have "\<dots> = Suc (count_list rest' newline)" using x by (simp only: count_list_append count_newline_takeWhile count_list.simps) simp
  also have "count_list rest' newline = length ls' + count_list r newline"
    using 3(1) [OF refl refl d t] .
  finally show ?case using ls by simp
qed auto

lemma phase_string_no_newline: "newline \<notin> set (phase_string p)"
  by (cases p) (simp_all add: phase_string_def)

lemma parse_phase_string [simp]: "parse_phase (phase_string p) = Some p"
  by (cases p) (simp_all add: phase_string_def parse_phase_def)

lemma parse_revision_decimal [simp]: "x > 0 \<Longrightarrow> parse_revision (decimal (unat x)) = Some x"
  by (simp add: parse_revision_def from_chars_unat unat_gt_0)

lemma parse_revision_pos: "parse_revision v = Some x \<Longrightarrow> x > 0"
proof -
  assume "parse_revision v = Some x"
  then obtain n where n: "from_chars uint64_max v = (Conversion_ok, n, [])" "n > 0" "x = word_of_nat n"
    by (auto simp: parse_revision_def split: prod.splits if_splits)
  have "unat x = n"
    using from_chars_ok [OF n(1)] n(3) by (simp add: unat_of_nat)
  with n(2) show ?thesis by (simp add: word_gt_0 unat_gt_0 flip: unat_eq_0)
qed

lemma take_lines_serialize:
  assumes nl: "newline \<notin> set (txn_operation_id t)"
  shows "take_lines 5 (serialize t) =
    Some ([format_header, ''operation_id='' @ txn_operation_id t,
      ''target_revision='' @ decimal (unat (txn_target_revision t)),
      ''rollback_revision='' @ decimal (unat (txn_rollback_revision t)),
      ''phase='' @ phase_string (txn_phase t)], [])"
proof -
  let ?l1 = "''operation_id='' @ txn_operation_id t"
  let ?l2 = "''target_revision='' @ decimal (unat (txn_target_revision t))"
  let ?l3 = "''rollback_revision='' @ decimal (unat (txn_rollback_revision t))"
  let ?l4 = "''phase='' @ phase_string (txn_phase t)"
  let ?ls = "[format_header, ?l1, ?l2, ?l3, ?l4]"
  have lines: "list_all (\<lambda>l. newline \<notin> set l) ?ls"
    using nl decimal_no_newline phase_string_no_newline by (simp add: format_header_def)
  have "serialize t = concat (map (\<lambda>l. l @ [newline]) ?ls)"
    by (simp add: serialize_def)
  moreover have "length ?ls = 5" by simp
  ultimately show ?thesis using take_lines_concat [OF lines] by metis
qed

lemma parse_of_serialize:
  assumes "valid_transaction t"
  shows "parse_transaction (serialize t) = Some t"
proof -
  from assms have "newline \<notin> set (txn_operation_id t)"
    and "txn_target_revision t > 0" "txn_rollback_revision t > 0"
    by (auto simp: valid_transaction_def dest: valid_identifier_no_newline)
  with assms show ?thesis
    by (cases t) (simp add: parse_transaction_def parse_fields_def Let_def take_lines_serialize)
qed


lemma parse_transaction_valid:
  "parse_transaction s = Some t \<Longrightarrow> valid_transaction t"
  by (auto simp: parse_transaction_def parse_fields_def Let_def
      split: option.splits list.splits prod.splits if_splits)

lemma serialize_nonempty [simp]: "serialize t \<noteq> []"
  by (simp add: serialize_def)

lemma length_serialize: "valid_transaction t \<Longrightarrow> length (serialize t) \<le> 320"
proof -
  assume "valid_transaction t"
  then have "length (txn_operation_id t) \<le> 128"
    by (simp add: valid_transaction_def valid_identifier_def)
  moreover have "length (phase_string (txn_phase t)) \<le> 21"
    by (cases "txn_phase t") (simp_all add: phase_string_def)
  ultimately show ?thesis
    using length_decimal_u64 [of "txn_target_revision t"] length_decimal_u64 [of "txn_rollback_revision t"]
    by (simp add: serialize_def format_header_def)
qed

section \<open>The operations\<close>

definition transaction_path :: "string \<Rightarrow> path" where
  "transaction_path root = (root, transaction_filename)"

definition begin_temporary :: "nat \<Rightarrow> u64 \<Rightarrow> string" where
  "begin_temporary pid seq =
     ''.pending-activation.begin.'' @ decimal pid @ ''.'' @ decimal (unat seq) @ ''.tmp''"

definition update_temporary :: "nat \<Rightarrow> u64 \<Rightarrow> string" where
  "update_temporary pid seq =
     ''.pending-activation.'' @ decimal pid @ ''.'' @ decimal (unat seq) @ ''.tmp''"

text \<open>\<open>temporary_sequence.fetch_add(1)\<close> on the store's process-wide counter.\<close>

definition next_transaction_sequence :: "u64 io" where
  "next_transaction_sequence = State (\<lambda>w.
     (transaction_sequence w, w\<lparr>transaction_sequence := transaction_sequence w + 1\<rparr>))"

definition open_safe_root :: "string \<Rightarrow> bool io" where
  "open_safe_root root =
     (if \<not> is_absolute root then do { set_errno EINVAL; return False }
      else do {
        opened \<leftarrow> open_directory root;
        if \<not> opened then return False
        else do {
          st \<leftarrow> stat_directory root;
          uid \<leftarrow> gets effective_uid;
          if (case st of None \<Rightarrow> True | Some n \<Rightarrow> \<not> safe_directory uid n)
          then do { close_descriptor; set_errno EPERM; return False }
          else return True
        }
      })"

definition unsafe_root_failure :: transaction_result where
  "unsafe_root_failure = txn_failure Txn_unsafe_root ''GH-TXN-1002''
     ''Transaction root is not a safe owner-controlled directory.''"

text \<open>
  The write, \<open>fsync\<close>, \<open>close\<close> sequence both writers share: the variable
  \<open>successful\<close> after the three.
\<close>

definition write_temporary :: "path \<Rightarrow> string \<Rightarrow> bool io" where
  "write_temporary p bytes = do {
     written \<leftarrow> write_all p bytes;
     synced \<leftarrow> (if written then fsync else return False);
     closed \<leftarrow> close_descriptor;
     return (synced \<and> closed)
   }"

definition persist_replacement :: "string \<Rightarrow> pending_activation \<Rightarrow> transaction_result io" where
  "persist_replacement root t = do {
     sequence \<leftarrow> next_transaction_sequence;
     pid \<leftarrow> gets process_id;
     let temporary = (root, update_temporary pid sequence);
     created_file \<leftarrow> create_exclusive temporary 384;
     if \<not> created_file then do {
       text \<leftarrow> strerror_now;
       return (txn_failure Txn_io_error ''GH-TXN-2003'' (''Could not create transaction update: '' @ text))
     }
     else do {
       complete \<leftarrow> write_temporary temporary (serialize t);
       renamed \<leftarrow> (if complete then rename_entry temporary (transaction_path root) else return False);
       successful \<leftarrow> (if renamed then fsync else return False);
       if \<not> successful then do {
         write_error \<leftarrow> saved_errno;
         unlink temporary;
         text \<leftarrow> strerror_of write_error;
         return (txn_failure Txn_io_error ''GH-TXN-2004''
           (''Could not atomically update transaction: '' @ text))
       }
       else return \<lparr>txn_status = Txn_advanced, txn_event_id = ''GH-TXN-0002'',
         txn_message = ''Pending activation transaction advanced durably.'', txn_transaction = Some t\<rparr>
     }
   }"

text \<open>
  \<open>begin\<close> publishes the record with \<open>linkat\<close>, which never replaces; the part after
  the temporary file is complete:
\<close>

definition publish_new :: "string \<Rightarrow> path \<Rightarrow> pending_activation \<Rightarrow> transaction_result io" where
  "publish_new root temporary t = do {
     linked \<leftarrow> link_entry temporary (transaction_path root);
     if \<not> linked then do {
       link_error \<leftarrow> saved_errno;
       unlink temporary;
       close_descriptor;
       if link_error = EEXIST
       then return (txn_failure Txn_conflict ''GH-TXN-1003''
         ''Another pending activation transaction already exists.'')
       else do {
         text \<leftarrow> strerror_of link_error;
         return (txn_failure Txn_io_error ''GH-TXN-2002''
           (''Could not publish pending transaction atomically: '' @ text))
       }
     }
     else do {
       unlink temporary;
       synced \<leftarrow> fsync;
       if \<not> synced then do {
         sync_error \<leftarrow> saved_errno;
         close_descriptor;
         text \<leftarrow> strerror_of sync_error;
         return (txn_failure Txn_io_error ''GH-TXN-2002''
           (''Could not synchronize pending transaction: '' @ text))
       }
       else do {
         close_descriptor;
         return \<lparr>txn_status = Txn_created, txn_event_id = ''GH-TXN-0001'',
           txn_message = ''Pending activation transaction created durably.'',
           txn_transaction = Some t\<rparr>
       }
     }
   }"

definition begin_transaction :: "string \<Rightarrow> pending_activation \<Rightarrow> transaction_result io" where
  "begin_transaction root t =
     (if \<not> valid_transaction t \<or> txn_phase t \<noteq> Prepared_for_load
      then return (txn_failure Txn_invalid_record ''GH-TXN-1001''
        ''Pending activation transaction is invalid.'')
      else do {
        opened \<leftarrow> open_safe_root root;
        if \<not> opened then return unsafe_root_failure
        else do {
          sequence \<leftarrow> next_transaction_sequence;
          pid \<leftarrow> gets process_id;
          let temporary = (root, begin_temporary pid sequence);
          created_file \<leftarrow> create_exclusive temporary 384;
          if \<not> created_file then do {
            open_error \<leftarrow> saved_errno;
            close_descriptor;
            text \<leftarrow> strerror_of open_error;
            return (txn_failure Txn_io_error ''GH-TXN-2001''
              (''Could not create pending transaction temporary file: '' @ text))
          }
          else do {
            complete \<leftarrow> write_temporary temporary (serialize t);
            if \<not> complete then do {
              write_error \<leftarrow> saved_errno;
              unlink temporary;
              close_descriptor;
              text \<leftarrow> strerror_of write_error;
              return (txn_failure Txn_io_error ''GH-TXN-2002''
                (''Could not persist pending transaction temporary file: '' @ text))
            }
            else publish_new root temporary t
          }
        }
      })"

definition unsafe_file_failure :: "string \<Rightarrow> transaction_result" where
  "unsafe_file_failure m = txn_failure Txn_unsafe_file ''GH-TXN-1004'' m"

definition intact :: "nat \<Rightarrow> node \<Rightarrow> bool" where
  "intact uid n \<longleftrightarrow>
     private_regular_file uid n \<and> 0 < file_size n \<and> file_size n \<le> int maximum_record_size"

definition load_transaction :: "string \<Rightarrow> transaction_result io" where
  "load_transaction root = do {
     opened \<leftarrow> open_safe_root root;
     if \<not> opened then return unsafe_root_failure
     else do {
       file \<leftarrow> open_existing (transaction_path root);
       if \<not> file then do {
         open_error \<leftarrow> saved_errno;
         close_descriptor;
         if open_error = ENOENT
         then return \<lparr>txn_status = Txn_no_pending, txn_event_id = ''GH-TXN-0005'',
           txn_message = ''No pending activation transaction exists.'', txn_transaction = None\<rparr>
         else return (unsafe_file_failure
           ''Pending activation transaction could not be opened safely.'')
       }
       else do {
         st \<leftarrow> stat_entry (transaction_path root);
         uid \<leftarrow> gets effective_uid;
         (case (case st of None \<Rightarrow> None | Some n \<Rightarrow> if intact uid n then Some n else None) of
            None \<Rightarrow> do {
              close_descriptor; close_descriptor;
              return (unsafe_file_failure ''Pending activation transaction failed safety checks.'')
            }
          | Some n \<Rightarrow> do {
              bytes \<leftarrow> read_all (nat (file_size n)) (transaction_path root) (nat (file_size n));
              read_error \<leftarrow> saved_errno;
              close_descriptor; close_descriptor;
              (case bytes of
                 None \<Rightarrow> do {
                   text \<leftarrow> strerror_of read_error;
                   return (txn_failure Txn_io_error ''GH-TXN-2005''
                     (''Could not read pending transaction: '' @ text))
                 }
               | Some record \<Rightarrow>
                   (case parse_transaction record of
                      None \<Rightarrow> return (txn_failure Txn_invalid_record ''GH-TXN-1005''
                        ''Pending activation transaction is malformed or unsupported.'')
                    | Some t \<Rightarrow> return \<lparr>txn_status = Txn_loaded, txn_event_id = ''GH-TXN-0003'',
                        txn_message = ''Pending activation transaction loaded safely.'',
                        txn_transaction = Some t\<rparr>))
            })
       }
     }
   }"

text \<open>The guard that \<open>advance\<close> and \<open>clear\<close> open with.\<close>

definition loaded_record :: "transaction_result \<Rightarrow> pending_activation option" where
  "loaded_record r = (if txn_status r \<noteq> Txn_loaded then None else txn_transaction r)"

definition advance_transaction :: "string \<Rightarrow> string \<Rightarrow> activation_phase \<Rightarrow> transaction_result io" where
  "advance_transaction root op next_phase = do {
     current \<leftarrow> load_transaction root;
     (case loaded_record current of
        None \<Rightarrow> return current
      | Some t \<Rightarrow>
          (if txn_operation_id t \<noteq> op \<or> \<not> valid_transition (txn_phase t) next_phase
           then return (txn_failure Txn_invalid_transition ''GH-TXN-1006''
             ''Pending activation transaction transition is invalid.'')
           else do {
             opened \<leftarrow> open_safe_root root;
             if \<not> opened then return unsafe_root_failure
             else do {
               result \<leftarrow> persist_replacement root (t\<lparr>txn_phase := next_phase\<rparr>);
               close_descriptor;
               return result
             }
           }))
   }"

definition clear_transaction :: "string \<Rightarrow> string \<Rightarrow> transaction_result io" where
  "clear_transaction root op = do {
     current \<leftarrow> load_transaction root;
     (case loaded_record current of
        None \<Rightarrow> return current
      | Some t \<Rightarrow>
          (if txn_operation_id t \<noteq> op
           then return (txn_failure Txn_conflict ''GH-TXN-1007''
             ''Pending transaction belongs to a different operation.'')
           else do {
             opened \<leftarrow> open_safe_root root;
             if \<not> opened then return unsafe_root_failure
             else do {
               removed \<leftarrow> unlink (transaction_path root);
               synced \<leftarrow> (if removed then fsync else return False);
               if \<not> synced then do {
                 clear_error \<leftarrow> saved_errno;
                 close_descriptor;
                 text \<leftarrow> strerror_of clear_error;
                 return (txn_failure Txn_io_error ''GH-TXN-2006''
                   (''Could not clear pending transaction: '' @ text))
               }
               else do {
                 close_descriptor;
                 return \<lparr>txn_status = Txn_cleared, txn_event_id = ''GH-TXN-0004'',
                   txn_message = ''Pending activation transaction cleared durably.'',
                   txn_transaction = Some t\<rparr>
               }
             }
           }))
   }"

section \<open>The abstract store\<close>

text \<open>
  What the file says, as an abstract value; the contract of the operations is a step relation on
  it. \<open>keep\<close> covers every failure that leaves the record as it was; a failure may also be
  reported after the record has changed, when only the last \<open>fsync\<close> fails.
\<close>

datatype stored_transaction = Absent | Unreadable | Pending pending_activation

definition record_view :: "nat \<Rightarrow> node option \<Rightarrow> stored_transaction" where
  "record_view uid entry =
     (case entry of
        None \<Rightarrow> Absent
      | Some n \<Rightarrow>
          (if \<not> intact uid n then Unreadable
           else (case parse_transaction (content n) of None \<Rightarrow> Unreadable | Some t \<Rightarrow> Pending t)))"

definition stored :: "string \<Rightarrow> world \<Rightarrow> stored_transaction" where
  "stored root w = record_view (effective_uid w) (entries w (transaction_path root))"

datatype transaction_request =
    Begin pending_activation
  | Load
  | Advance string activation_phase
  | Clear string

inductive contract_step :: "transaction_request \<Rightarrow> stored_transaction \<Rightarrow> stored_transaction \<Rightarrow> bool" where
  keep: "contract_step q s s"
| begin_new: "valid_transaction t \<Longrightarrow> txn_phase t = Prepared_for_load \<Longrightarrow>
    contract_step (Begin t) Absent (Pending t)"
| advance_one: "txn_operation_id t = op \<Longrightarrow> valid_transition (txn_phase t) p \<Longrightarrow>
    contract_step (Advance op p) (Pending t) (Pending (t\<lparr>txn_phase := p\<rparr>))"
| clear_own: "txn_operation_id t = op \<Longrightarrow> contract_step (Clear op) (Pending t) Absent"

inductive_cases contract_step_pendingE: "contract_step q (Pending t) s"
inductive_cases contract_step_absentE: "contract_step q Absent s"
inductive_cases contract_step_unreadableE: "contract_step q Unreadable s"

text \<open>What a reply tells the caller about the record before and after.\<close>

definition reply_contract ::
  "transaction_request \<Rightarrow> transaction_result \<Rightarrow> stored_transaction \<Rightarrow> stored_transaction \<Rightarrow> bool" where
  "reply_contract q r s s' \<longleftrightarrow>
     (case txn_status r of
        Txn_created \<Rightarrow> (\<exists>t. q = Begin t \<and> s = Absent \<and> s' = Pending t \<and> txn_transaction r = Some t)
      | Txn_advanced \<Rightarrow> (\<exists>op p t. q = Advance op p \<and> s = Pending t \<and> txn_operation_id t = op \<and>
          valid_transition (txn_phase t) p \<and> s' = Pending (t\<lparr>txn_phase := p\<rparr>) \<and>
          txn_transaction r = Some (t\<lparr>txn_phase := p\<rparr>))
      | Txn_loaded \<Rightarrow> (\<exists>t. q = Load \<and> s = Pending t \<and> s' = s \<and> txn_transaction r = Some t)
      | Txn_cleared \<Rightarrow> (\<exists>op t. q = Clear op \<and> s = Pending t \<and> txn_operation_id t = op \<and> s' = Absent \<and>
          txn_transaction r = Some t)
      | Txn_no_pending \<Rightarrow> s = Absent \<and> s' = Absent \<and> txn_transaction r = None
      | Txn_io_error \<Rightarrow> txn_transaction r = None
      | Txn_conflict \<Rightarrow> s \<noteq> Absent \<and> s' = s \<and> txn_transaction r = None
      | _ \<Rightarrow> s' = s \<and> txn_transaction r = None)"

definition run_request :: "string \<Rightarrow> transaction_request \<Rightarrow> transaction_result io" where
  "run_request root q = (case q of
       Begin t \<Rightarrow> begin_transaction root t
     | Load \<Rightarrow> load_transaction root
     | Advance op p \<Rightarrow> advance_transaction root op p
     | Clear op \<Rightarrow> clear_transaction root op)"

text \<open>An operation stays inside its root and does nothing visible outside.\<close>

definition store_frame :: "string \<Rightarrow> world \<Rightarrow> world \<Rightarrow> bool" where
  "store_frame root w w' \<longleftrightarrow>
     same_setting w w' \<and> only_touches (in_directory root) w w' \<and> actions w' = actions w"

definition transaction_effect ::
  "string \<Rightarrow> transaction_request \<Rightarrow> transaction_result \<Rightarrow> world \<Rightarrow> world \<Rightarrow> bool" where
  "transaction_effect root q r w w' \<longleftrightarrow>
     store_frame root w w' \<and>
     contract_step q (stored root w) (stored root w') \<and>
     reply_contract q r (stored root w) (stored root w')"

section \<open>The operations keep the contract\<close>

lemma transaction_path_fst [simp]: "fst (transaction_path root) = root"
  by (simp add: transaction_path_def)

lemma temporary_not_transaction [simp]:
  "(root, begin_temporary pid seq) \<noteq> transaction_path root"
  "(root, update_temporary pid seq) \<noteq> transaction_path root"
  "transaction_path root \<noteq> (root, begin_temporary pid seq)"
  "transaction_path root \<noteq> (root, update_temporary pid seq)"
  by (simp_all add: begin_temporary_def update_temporary_def transaction_path_def
      transaction_filename_def)

lemma stored_simps [simp]:
  "stored root (w\<lparr>script := rs\<rparr>) = stored root w"
  "stored root (w\<lparr>last_errno := e\<rparr>) = stored root w"
  "stored root (w\<lparr>actions := a\<rparr>) = stored root w"
  "stored root (w\<lparr>clock_reads := c\<rparr>) = stored root w"
  "stored root (w\<lparr>processes_run := c\<rparr>) = stored root w"
  "stored root (w\<lparr>next_inode := i\<rparr>) = stored root w"
  "stored root (w\<lparr>transaction_sequence := q\<rparr>) = stored root w"
  "stored root (w\<lparr>revision_sequence := q\<rparr>) = stored root w"
  "p \<noteq> transaction_path root \<Longrightarrow> stored root (put_entry p n w) = stored root w"
  "p \<noteq> transaction_path root \<Longrightarrow> stored root (created p m w) = stored root w"
  "stored root (put_entry (transaction_path root) None w) = Absent"
  by (simp_all add: stored_def record_view_def [of _ None])

lemma stored_frame:
  "only_touches P w w' \<Longrightarrow> same_setting w w' \<Longrightarrow> transaction_path root \<notin> P \<Longrightarrow>
     stored root w' = stored root w"
  by (simp add: stored_def same_setting_def only_touches_entry)

lemma stored_Absent: "stored root w = Absent \<longleftrightarrow> entries w (transaction_path root) = None"
  by (auto simp: stored_def record_view_def split: option.splits if_splits)

lemma stored_Pending_valid: "stored root w = Pending t \<Longrightarrow> valid_transaction t"
  by (auto simp: stored_def record_view_def parse_transaction_valid split: option.splits if_splits)

lemma stored_written [simp]:
  "valid_transaction t \<Longrightarrow> effective_uid w' = effective_uid w \<Longrightarrow>
     stored root (put_entry (transaction_path root)
       (Some ((fresh_file 384 w)\<lparr>content := serialize t\<rparr>)) w') = Pending t"
  using length_serialize [of t]
  by (simp add: stored_def record_view_def intact_def file_size_def private_regular_file_def
      maximum_record_size_def parse_of_serialize)

text \<open>Loading: the record as it is, or a failure.\<close>

definition load_reply :: "string \<Rightarrow> transaction_result \<Rightarrow> world \<Rightarrow> bool" where
  "load_reply root r w \<longleftrightarrow> reply_contract Load r (stored root w) (stored root w)"

lemma wp_open_safe_root [wp_rule]:
  assumes "\<And>ok rs e. Q ok (settle rs e w)"
  shows "wp (open_safe_root root) Q w"
proof -
  have "Q ok (settle (script w) e w)" for ok e by (rule assms)
  then show ?thesis
    unfolding open_safe_root_def by (auto simp: assms intro!: wp_rule)
qed

lemma load_reply_failures [simp]:
  "load_reply root unsafe_root_failure w" "load_reply root (unsafe_file_failure m) w"
  "load_reply root (txn_failure Txn_io_error a b) w"
  "load_reply root (txn_failure Txn_invalid_record a b) w"
  "load_reply root r (w\<lparr>script := rs\<rparr>) = load_reply root r w"
  "load_reply root r (w\<lparr>last_errno := e\<rparr>) = load_reply root r w"
  by (simp_all add: load_reply_def reply_contract_def unsafe_root_failure_def
      unsafe_file_failure_def txn_failure_def)

lemma load_reply_absent [simp]:
  "entries w (transaction_path root) = None \<Longrightarrow>
     load_reply root \<lparr>txn_status = Txn_no_pending, txn_event_id = a, txn_message = b,
       txn_transaction = None\<rparr> w"
  by (simp add: load_reply_def reply_contract_def stored_Absent)

lemma load_reply_loaded [simp]:
  "entries w (transaction_path root) = Some n \<Longrightarrow> intact (effective_uid w) n \<Longrightarrow>
     parse_transaction (content n) = Some t \<Longrightarrow>
     load_reply root \<lparr>txn_status = Txn_loaded, txn_event_id = a, txn_message = b,
       txn_transaction = Some t\<rparr> w"
  by (simp add: load_reply_def reply_contract_def stored_def record_view_def)

lemma wp_load_transaction:
  assumes "\<And>r rs e. load_reply root r w \<Longrightarrow> Q r (settle rs e w)"
  shows "wp (load_transaction root) Q w"
  unfolding load_transaction_def
  by (auto simp: file_size_def split: option.splits intro!: wp_rule assms)

lemma valid_transaction_phase [simp]:
  "valid_transaction (t\<lparr>txn_phase := p\<rparr>) = valid_transaction t"
  by (simp add: valid_transaction_def)

lemma loaded_record_Some:
  "load_reply root r w \<Longrightarrow> loaded_record r = Some t \<Longrightarrow> stored root w = Pending t"
  by (auto simp: loaded_record_def load_reply_def reply_contract_def split: if_splits)

lemma store_frame_refl [simp]: "store_frame root w w"
  by (simp add: store_frame_def)

lemma store_frame_update [simp]:
  "store_frame root w (w1\<lparr>script := rs\<rparr>) = store_frame root w w1"
  "store_frame root w (w1\<lparr>last_errno := e\<rparr>) = store_frame root w w1"
  "store_frame root w (w1\<lparr>next_inode := i\<rparr>) = store_frame root w w1"
  "store_frame root w (w1\<lparr>transaction_sequence := q\<rparr>) = store_frame root w w1"
  "store_frame root w (w1\<lparr>revision_sequence := q\<rparr>) = store_frame root w w1"
  "store_frame root (w\<lparr>script := rs\<rparr>) w1 = store_frame root w w1"
  "store_frame root (w\<lparr>last_errno := e\<rparr>) w1 = store_frame root w w1"
  "store_frame root (w\<lparr>next_inode := i\<rparr>) w1 = store_frame root w w1"
  "store_frame root (w\<lparr>transaction_sequence := q\<rparr>) w1 = store_frame root w w1"
  "fst p = root \<Longrightarrow> store_frame root w (put_entry p n w1) = store_frame root w w1"
  "fst p = root \<Longrightarrow> store_frame root w (created p m w1) = store_frame root w w1"
  by (simp_all add: store_frame_def)

lemma wp_write_temporary [wp_rule]:
  assumes "\<And>rs e out rest. bytes = out @ rest \<Longrightarrow> Q False (settle rs e (extended p out w))"
    and "\<And>ok rs e. Q ok (settle rs e (extended p bytes w))"
  shows "wp (write_temporary p bytes) Q w"
  unfolding write_temporary_def
  by (auto intro!: wp_rule assms)

lemma wp_next_transaction_sequence [simp, wp_simp]:
  "wp next_transaction_sequence Q w =
     Q (transaction_sequence w) (w\<lparr>transaction_sequence := transaction_sequence w + 1\<rparr>)"
  by (simp add: wp_def next_transaction_sequence_def)

lemma sequence_outwards [simp]:
  "put_entry p n (w\<lparr>transaction_sequence := q\<rparr>) = (put_entry p n w)\<lparr>transaction_sequence := q\<rparr>"
  "created p m (w\<lparr>transaction_sequence := q\<rparr>) = (created p m w)\<lparr>transaction_sequence := q\<rparr>"
  "fresh_file m (w\<lparr>transaction_sequence := q\<rparr>) = fresh_file m w"
  by (simp_all add: put_entry_def created_def fresh_file_def)

lemma wp_persist_replacement [wp_rule]:
  assumes "valid_transaction t"
    and "\<And>a b w'. store_frame root w w' \<Longrightarrow> stored root w' = stored root w \<or> stored root w' = Pending t \<Longrightarrow>
      Q (txn_failure Txn_io_error a b) w'"
    and "\<And>a b w'. store_frame root w w' \<Longrightarrow> stored root w' = Pending t \<Longrightarrow>
      Q \<lparr>txn_status = Txn_advanced, txn_event_id = a, txn_message = b, txn_transaction = Some t\<rparr> w'"
  shows "wp (persist_replacement root t) Q w"
  unfolding persist_replacement_def
  by (auto simp: Let_def assms(1) intro!: wp_rule assms(2,3))

text \<open>Failures that leave the record alone, and the three changes.\<close>

lemma transaction_effect_failure [simp]:
  "store_frame root w w' \<Longrightarrow> stored root w' = stored root w \<Longrightarrow>
     s \<in> {Txn_io_error, Txn_unsafe_root, Txn_unsafe_file, Txn_invalid_record, Txn_invalid_transition} \<Longrightarrow>
     transaction_effect root q (txn_failure s a b) w w'"
  by (auto simp: transaction_effect_def reply_contract_def txn_failure_def contract_step.keep)

lemma transaction_effect_unsafe_root [simp]:
  "store_frame root w w' \<Longrightarrow> stored root w' = stored root w \<Longrightarrow>
     transaction_effect root q unsafe_root_failure w w'"
  by (simp add: unsafe_root_failure_def)

lemma transaction_effect_conflict [simp]:
  "store_frame root w w' \<Longrightarrow> stored root w' = stored root w \<Longrightarrow> stored root w \<noteq> Absent \<Longrightarrow>
     transaction_effect root q (txn_failure Txn_conflict a b) w w'"
  by (simp add: transaction_effect_def reply_contract_def txn_failure_def contract_step.keep)

lemma transaction_effect_late_failure:
  "store_frame root w w' \<Longrightarrow> contract_step q (stored root w) (stored root w') \<Longrightarrow>
     transaction_effect root q (txn_failure Txn_io_error a b) w w'"
  by (simp add: transaction_effect_def reply_contract_def txn_failure_def)

lemma transaction_effect_begun:
  assumes "store_frame root w w'" "entries w (transaction_path root) = None"
    "stored root w' = Pending t" "valid_transaction t" "txn_phase t = Prepared_for_load"
  shows "transaction_effect root (Begin t) (txn_failure Txn_io_error a b) w w'"
    and "transaction_effect root (Begin t) \<lparr>txn_status = Txn_created, txn_event_id = c,
      txn_message = d, txn_transaction = Some t\<rparr> w w'"
  using assms stored_Absent [of root w]
  by (auto simp: transaction_effect_def reply_contract_def txn_failure_def contract_step.begin_new)

lemma transaction_effect_advanced:
  assumes "stored root w = Pending t" "store_frame root w w'" "txn_operation_id t = op"
    "valid_transition (txn_phase t) p" "stored root w' = Pending (t\<lparr>txn_phase := p\<rparr>)"
  shows "transaction_effect root (Advance op p) (txn_failure Txn_io_error a b) w w'"
    and "transaction_effect root (Advance op p) \<lparr>txn_status = Txn_advanced, txn_event_id = c,
      txn_message = d, txn_transaction = Some (t\<lparr>txn_phase := p\<rparr>)\<rparr> w w'"
  using assms
  by (auto simp: transaction_effect_def reply_contract_def txn_failure_def contract_step.advance_one)

lemma transaction_effect_cleared:
  assumes "stored root w = Pending t" "store_frame root w w'" "txn_operation_id t = op"
    "stored root w' = Absent"
  shows "transaction_effect root (Clear op) (txn_failure Txn_io_error a b) w w'"
    and "transaction_effect root (Clear op) \<lparr>txn_status = Txn_cleared, txn_event_id = c,
      txn_message = d, txn_transaction = Some t\<rparr> w w'"
  using assms
  by (auto simp: transaction_effect_def reply_contract_def txn_failure_def contract_step.clear_own)

lemma transaction_effect_not_loaded:
  "load_reply root r w \<Longrightarrow> loaded_record r = None \<Longrightarrow> store_frame root w w' \<Longrightarrow>
     stored root w' = stored root w \<Longrightarrow> transaction_effect root q r w w'"
  by (auto simp: transaction_effect_def reply_contract_def load_reply_def loaded_record_def
      contract_step.keep split: transaction_status.splits if_splits)

lemma wp_load_guard [wp_rule]:
  assumes "\<And>r rs e. loaded_record r = None \<Longrightarrow> load_reply root r w \<Longrightarrow> Q r (settle rs e w)"
    and "\<And>r t rs e. loaded_record r = Some t \<Longrightarrow> stored root w = Pending t \<Longrightarrow> valid_transaction t \<Longrightarrow>
      Q r (settle rs e w)"
  shows "wp (load_transaction root) Q w"
proof (rule wp_load_transaction)
  fix r rs e assume r: "load_reply root r w"
  show "Q r (settle rs e w)"
  proof (cases "loaded_record r")
    case None
    with r show ?thesis by (rule assms(1) [rotated])
  next
    case (Some t)
    with r have "stored root w = Pending t" by (rule loaded_record_Some)
    with Some show ?thesis by (auto intro: assms(2) stored_Pending_valid)
  qed
qed

lemma transaction_effect_start [simp]:
  "transaction_effect root q r (w\<lparr>script := rs\<rparr>) w' = transaction_effect root q r w w'"
  "transaction_effect root q r (w\<lparr>last_errno := e\<rparr>) w' = transaction_effect root q r w w'"
  "transaction_effect root q r (w\<lparr>next_inode := i\<rparr>) w' = transaction_effect root q r w w'"
  "transaction_effect root q r (w\<lparr>transaction_sequence := n\<rparr>) w' = transaction_effect root q r w w'"
  "p \<noteq> transaction_path root \<Longrightarrow> fst p = root \<Longrightarrow>
     transaction_effect root q r (put_entry p n' w) w' = transaction_effect root q r w w'"
  "p \<noteq> transaction_path root \<Longrightarrow> fst p = root \<Longrightarrow>
     transaction_effect root q r (created p m w) w' = transaction_effect root q r w w'"
  by (simp_all add: transaction_effect_def store_frame_def)

lemma wp_publish_new:
  assumes "valid_transaction t" "txn_phase t = Prepared_for_load"
    "(root, name) \<noteq> transaction_path root"
    "entries w (root, name) = Some ((fresh_file 384 w0)\<lparr>content := serialize t\<rparr>)"
    "effective_uid w = effective_uid w0"
    and "\<And>r w'. transaction_effect root (Begin t) r w w' \<Longrightarrow> Q r w'"
  shows "wp (publish_new root (root, name) t) Q w"
  using assms(1-5) unfolding publish_new_def
  by (auto intro!: wp_rule assms(6) simp: stored_Absent transaction_effect_begun)

lemma wp_begin_transaction [wp_rule]:
  assumes "\<And>r w'. transaction_effect root (Begin t) r w w' \<Longrightarrow> Q r w'"
  shows "wp (begin_transaction root t) Q w"
  unfolding begin_transaction_def
  by (auto simp: Let_def intro!: wp_rule wp_publish_new [where ?w0.0 = w] assms)

lemma wp_load_transaction_effect:
  assumes "\<And>r w'. transaction_effect root Load r w w' \<Longrightarrow> Q r w'"
  shows "wp (load_transaction root) Q w"
  by (auto simp: transaction_effect_def load_reply_def contract_step.keep
      intro!: wp_load_transaction assms)

lemma wp_advance_transaction [wp_rule]:
  assumes "\<And>r w'. transaction_effect root (Advance op p) r w w' \<Longrightarrow> Q r w'"
  shows "wp (advance_transaction root op p) Q w"
  unfolding advance_transaction_def
  by (auto simp: Let_def transaction_effect_not_loaded transaction_effect_advanced
      intro!: wp_rule assms)

lemma wp_clear_transaction [wp_rule]:
  assumes "\<And>r w'. transaction_effect root (Clear op) r w w' \<Longrightarrow> Q r w'"
  shows "wp (clear_transaction root op) Q w"
  unfolding clear_transaction_def
  by (auto simp: Let_def transaction_effect_not_loaded transaction_effect_cleared
      intro!: wp_rule assms)

lemma wp_run_request:
  assumes "\<And>r w'. transaction_effect root q r w w' \<Longrightarrow> Q r w'"
  shows "wp (run_request root q) Q w"
  unfolding run_request_def
  by (cases q) (auto intro!: wp_begin_transaction wp_load_transaction_effect wp_advance_transaction
      wp_clear_transaction assms)

section \<open>The contract as an interface\<close>

text \<open>Requests one after the other, by any mixture of clients.\<close>

fun serve_all ::
  "(transaction_request \<Rightarrow> ('w, transaction_result) state) \<Rightarrow> transaction_request list \<Rightarrow>
     ('w, transaction_result list) state" where
  "serve_all serve [] = State_Monad.return []"
| "serve_all serve (q # qs) = do {
     r \<leftarrow> serve q;
     rs \<leftarrow> serve_all serve qs;
     State_Monad.return (r # rs)
   }"

definition advances :: "string \<Rightarrow> transaction_request \<Rightarrow> bool" where
  "advances op q \<longleftrightarrow> (case q of Advance op' _ \<Rightarrow> op' = op | _ \<Rightarrow> False)"

definition same_activation :: "pending_activation \<Rightarrow> pending_activation \<Rightarrow> bool" where
  "same_activation t t' \<longleftrightarrow>
     txn_operation_id t' = txn_operation_id t \<and> txn_target_revision t' = txn_target_revision t \<and>
     txn_rollback_revision t' = txn_rollback_revision t"

locale single_slot_store =
  fixes view :: "'w \<Rightarrow> stored_transaction"
    and serve :: "transaction_request \<Rightarrow> ('w, transaction_result) state"
  assumes refines: "wp (serve q)
    (\<lambda>r w'. contract_step q (view w) (view w') \<and> reply_contract q r (view w) (view w')) w"
begin

lemma pending_step:
  assumes "view w = Pending t" "q \<noteq> Clear (txn_operation_id t)" "run_state (serve q) w = (r, w')"
  obtains t' where "view w' = Pending t'" "same_activation t t'" "txn_phase t \<le> txn_phase t'"
    "phase_number (txn_phase t') \<le>
       phase_number (txn_phase t) + (if advances (txn_operation_id t) q then 1 else 0)"
proof -
  have "contract_step q (Pending t) (view w')"
    using wpD [OF refines assms(3)] assms(1) by simp
  then show ?thesis
    by (rule contract_step_pendingE)
      (use assms(2) in \<open>auto simp: same_activation_def less_eq_activation_phase_def advances_def
        valid_transition_def intro: that\<close>)
qed

lemma pending_lineage:
  assumes "view w = Pending t" "Clear (txn_operation_id t) \<notin> set qs"
    "run_state (serve_all serve qs) w = (rs, w')"
  shows "\<exists>t'. view w' = Pending t' \<and> same_activation t t' \<and> txn_phase t \<le> txn_phase t' \<and>
    phase_number (txn_phase t') \<le>
      phase_number (txn_phase t) + length (filter (advances (txn_operation_id t)) qs)"
  using assms
proof (induction qs arbitrary: w t rs)
  case Nil
  then show ?case by (auto simp: same_activation_def)
next
  case (Cons q qs)
  obtain r w1 where first: "run_state (serve q) w = (r, w1)" by fastforce
  with Cons.prems(3) obtain rs' where rest: "run_state (serve_all serve qs) w1 = (rs', w')"
    by (auto split: prod.splits)
  from Cons.prems(2) have "q \<noteq> Clear (txn_operation_id t)" by auto
  from Cons.prems(1) this first obtain t1 where t1: "view w1 = Pending t1" "same_activation t t1"
    "txn_phase t \<le> txn_phase t1" "phase_number (txn_phase t1) \<le>
       phase_number (txn_phase t) + (if advances (txn_operation_id t) q then 1 else 0)"
    by (rule pending_step)
  then have "Clear (txn_operation_id t1) \<notin> set qs"
    using Cons.prems(2) by (simp add: same_activation_def)
  from Cons.IH [OF t1(1) this rest] t1(2-4) show ?case
    by (auto simp: same_activation_def split: if_splits)
qed

end

interpretation disk: single_slot_store "stored root" "run_request root" for root
proof
  fix q w
  show "wp (run_request root q) (\<lambda>r w'. contract_step q (stored root w) (stored root w') \<and>
      reply_contract q r (stored root w) (stored root w')) w"
    by (rule wp_run_request) (simp add: transaction_effect_def)
qed

text \<open>
  C11. The store refines its contract under every pattern of faults, hence at every crash point:
  each operation either keeps the stored record or makes the one step it is for, the reply tells
  which, nothing outside the root changes, and a reader never finds a half-written record.
\<close>

theorem transaction_store_refines:
  "case run_state (run_request root q) w of (r, w') \<Rightarrow>
     contract_step q (stored root w) (stored root w') \<and>
     reply_contract q r (stored root w) (stored root w') \<and>
     only_touches (in_directory root) w w' \<and> actions w' = actions w"
proof -
  have "wp (run_request root q) (\<lambda>r w'. transaction_effect root q r w w') w"
    by (rule wp_run_request)
  then show ?thesis by (auto simp: wp_def transaction_effect_def store_frame_def)
qed


section \<open>Completing an activation\<close>

definition temporary_name :: "string \<Rightarrow> bool" where
  "temporary_name n \<longleftrightarrow> prefix ''.pending-activation.'' n"

text \<open>A store nothing is wrong with: no fault ahead, a safe root, no stale temporary file.\<close>

definition store_ready :: "string \<Rightarrow> world \<Rightarrow> bool" where
  "store_ready root w \<longleftrightarrow>
     script w = [] \<and> is_absolute root \<and>
     (\<exists>d. dirs w root = Some d \<and> safe_directory (effective_uid w) d) \<and>
     (\<forall>n. temporary_name n \<longrightarrow> entries w (root, n) = None)"

lemma temporary_prefix [simp]:
  "temporary_name (begin_temporary pid seq)"
  "temporary_name (update_temporary pid seq)"
  "\<not> temporary_name transaction_filename"
  by (simp_all add: begin_temporary_def update_temporary_def transaction_filename_def temporary_name_def)

lemma run_open_safe_root_ready [simp]:
  "store_ready root w \<Longrightarrow> run_state (open_safe_root root) w = (True, w)"
  by (auto simp: store_ready_def open_safe_root_def safe_directory_def split: option.splits)

lemma store_ready_script: "store_ready root w \<Longrightarrow> script w = []"
  by (simp add: store_ready_def)

lemma store_ready_free [simp]:
  assumes "store_ready root w"
  shows "entries w (root, begin_temporary pid seq) = None"
    "entries w (root, update_temporary pid seq) = None"
  using assms by (simp_all add: store_ready_def)

lemma store_ready_update [simp]:
  "store_ready root (w\<lparr>transaction_sequence := q\<rparr>) = store_ready root w"
  "store_ready root (w\<lparr>next_inode := i\<rparr>) = store_ready root w"
  "store_ready root (put_entry (transaction_path root) n w) = store_ready root w"
  "store_ready root w \<Longrightarrow> store_ready root (put_entry (root, m) None w)"
  by (simp_all add: store_ready_def transaction_path_def)
    (metis temporary_prefix(3))+

lemma run_write_temporary_Nil [simp]:
  "script w = [] \<Longrightarrow> run_state (write_temporary p s) w = (True, extended p s w)"
  by (simp add: write_temporary_def)

lemma begin_succeeds:
  assumes "store_ready root w" "stored root w = Absent" "valid_transaction t"
    "txn_phase t = Prepared_for_load"
  shows "\<exists>r w'. run_state (begin_transaction root t) w = (r, w') \<and>
    r = \<lparr>txn_status = Txn_created, txn_event_id = ''GH-TXN-0001'',
      txn_message = ''Pending activation transaction created durably.'', txn_transaction = Some t\<rparr> \<and>
    store_ready root w'"
  using assms store_ready_script [OF assms(1)]
  by (simp add: begin_transaction_def publish_new_def next_transaction_sequence_def Let_def
      stored_Absent put_entry_swap [of "(root, n)" "transaction_path root" for n])

lemma loaded_record_loaded [simp]:
  "loaded_record \<lparr>txn_status = Txn_loaded, txn_event_id = a, txn_message = b,
     txn_transaction = Some t\<rparr> = Some t"
  by (simp add: loaded_record_def)

lemma load_succeeds:
  assumes "store_ready root w" "stored root w = Pending t"
  shows "\<exists>r. run_state (load_transaction root) w = (r, w) \<and> loaded_record r = Some t"
  using assms store_ready_script [OF assms(1)]
  by (auto simp: load_transaction_def stored_def record_view_def intact_def file_size_def
      private_regular_file_def saved_errno_def split: option.splits if_splits)

lemma advance_succeeds:
  assumes "store_ready root w" "stored root w = Pending t" "txn_operation_id t = op"
    "valid_transition (txn_phase t) p"
  shows "\<exists>r w'. run_state (advance_transaction root op p) w = (r, w') \<and>
    r = \<lparr>txn_status = Txn_advanced, txn_event_id = ''GH-TXN-0002'',
      txn_message = ''Pending activation transaction advanced durably.'',
      txn_transaction = Some (t\<lparr>txn_phase := p\<rparr>)\<rparr> \<and> store_ready root w'"
proof -
  from load_succeeds [OF assms(1,2)] obtain r where
    load: "run_state (load_transaction root) w = (r, w)" "loaded_record r = Some t" by blast
  with assms store_ready_script [OF assms(1)] show ?thesis
    by (simp add: advance_transaction_def persist_replacement_def next_transaction_sequence_def Let_def
        put_entry_swap [of "(root, n)" "transaction_path root" for n])
qed

lemma clear_succeeds:
  assumes "store_ready root w" "stored root w = Pending t" "txn_operation_id t = op"
  shows "\<exists>r w'. run_state (clear_transaction root op) w = (r, w') \<and>
    r = \<lparr>txn_status = Txn_cleared, txn_event_id = ''GH-TXN-0004'',
      txn_message = ''Pending activation transaction cleared durably.'',
      txn_transaction = Some t\<rparr> \<and> store_ready root w'"
proof -
  from load_succeeds [OF assms(1,2)] obtain r where
    load: "run_state (load_transaction root) w = (r, w)" "loaded_record r = Some t" by blast
  obtain n where "entries w (transaction_path root) = Some n"
    using assms(2) stored_Absent [of root w] by auto
  with load assms store_ready_script [OF assms(1)] show ?thesis
    by (simp add: clear_transaction_def Let_def)
qed

text \<open>The sequence of requests of one successful activation.\<close>

definition lifecycle :: "pending_activation \<Rightarrow> transaction_request list" where
  "lifecycle t =
     (let op = txn_operation_id t
      in [Begin t, Advance op Target_loaded, Advance op Verified, Advance op Awaiting_confirmation,
          Advance op Committing, Advance op Committed, Clear op])"

lemma begin_stage:
  assumes "store_ready root w" "stored root w = Absent" "valid_transaction t"
    "txn_phase t = Prepared_for_load"
  obtains r w' where "run_state (run_request root (Begin t)) w = (r, w')" "txn_status r = Txn_created"
    "store_ready root w'" "stored root w' = Pending t"
proof -
  from begin_succeeds [OF assms] obtain r w' where
    run: "run_state (run_request root (Begin t)) w = (r, w')" "txn_status r = Txn_created"
    "store_ready root w'" by (auto simp: run_request_def)
  from wpD [OF disk.refines run(1)] run(2) have "stored root w' = Pending t"
    by (auto simp: reply_contract_def)
  with run show ?thesis by (rule that)
qed

lemma advance_stage:
  assumes "store_ready root w" "stored root w = Pending t" "valid_transition (txn_phase t) p"
  obtains r w' where "run_state (run_request root (Advance (txn_operation_id t) p)) w = (r, w')"
    "txn_status r = Txn_advanced" "store_ready root w'" "stored root w' = Pending (t\<lparr>txn_phase := p\<rparr>)"
proof -
  from advance_succeeds [OF assms(1,2) refl assms(3)] obtain r w' where
    run: "run_state (run_request root (Advance (txn_operation_id t) p)) w = (r, w')"
      "txn_status r = Txn_advanced" "store_ready root w'" by (auto simp: run_request_def)
  from wpD [OF disk.refines run(1)] run(2) assms(2)
  have "stored root w' = Pending (t\<lparr>txn_phase := p\<rparr>)"
    by (auto simp: reply_contract_def)
  with run show ?thesis by (rule that)
qed

lemma clear_stage:
  assumes "store_ready root w" "stored root w = Pending t"
  obtains r w' where "run_state (run_request root (Clear (txn_operation_id t))) w = (r, w')"
    "txn_status r = Txn_cleared" "store_ready root w'" "stored root w' = Absent"
proof -
  from clear_succeeds [OF assms refl] obtain r w' where
    run: "run_state (run_request root (Clear (txn_operation_id t))) w = (r, w')"
      "txn_status r = Txn_cleared" "store_ready root w'" by (auto simp: run_request_def)
  from wpD [OF disk.refines run(1)] run(2) have "stored root w' = Absent"
    by (auto simp: reply_contract_def)
  with run show ?thesis by (rule that)
qed

text \<open>
  A fault-free store lets an activation through from \<open>begin\<close> over every phase to
  \<open>clear\<close>: each request of the lifecycle succeeds and the store ends empty and usable again.
\<close>

theorem lifecycle_completes:
  assumes "store_ready root w" and "stored root w = Absent" and "valid_transaction t"
    and "txn_phase t = Prepared_for_load"
  shows "case run_state (serve_all (run_request root) (lifecycle t)) w of (rs, w') \<Rightarrow>
    map txn_status rs = [Txn_created, Txn_advanced, Txn_advanced, Txn_advanced, Txn_advanced,
      Txn_advanced, Txn_cleared] \<and> stored root w' = Absent \<and> store_ready root w'"
proof -
  from begin_stage [OF assms] obtain r0 w0 where s0:
    "run_state (run_request root (Begin t)) w = (r0, w0)" "txn_status r0 = Txn_created"
    "store_ready root w0" "stored root w0 = Pending t" .
  have "valid_transition (txn_phase t) Target_loaded"
    using assms(4) by (simp add: valid_transition_def)
  from advance_stage [OF s0(3,4) this] obtain r1 w1 where s1:
    "run_state (run_request root (Advance (txn_operation_id t) Target_loaded)) w0 = (r1, w1)"
    "txn_status r1 = Txn_advanced" "store_ready root w1"
    "stored root w1 = Pending (t\<lparr>txn_phase := Target_loaded\<rparr>)" .
  from advance_stage [OF s1(3,4), of Verified] obtain r2 w2 where s2:
    "run_state (run_request root (Advance (txn_operation_id t) Verified)) w1 = (r2, w2)"
    "txn_status r2 = Txn_advanced" "store_ready root w2"
    "stored root w2 = Pending (t\<lparr>txn_phase := Verified\<rparr>)" by (auto simp: valid_transition_def)
  from advance_stage [OF s2(3,4), of Awaiting_confirmation] obtain r3 w3 where s3:
    "run_state (run_request root (Advance (txn_operation_id t) Awaiting_confirmation)) w2 = (r3, w3)"
    "txn_status r3 = Txn_advanced" "store_ready root w3"
    "stored root w3 = Pending (t\<lparr>txn_phase := Awaiting_confirmation\<rparr>)" by (auto simp: valid_transition_def)
  from advance_stage [OF s3(3,4), of Committing] obtain r4 w4 where s4:
    "run_state (run_request root (Advance (txn_operation_id t) Committing)) w3 = (r4, w4)"
    "txn_status r4 = Txn_advanced" "store_ready root w4"
    "stored root w4 = Pending (t\<lparr>txn_phase := Committing\<rparr>)" by (auto simp: valid_transition_def)
  from advance_stage [OF s4(3,4), of Committed] obtain r5 w5 where s5:
    "run_state (run_request root (Advance (txn_operation_id t) Committed)) w4 = (r5, w5)"
    "txn_status r5 = Txn_advanced" "store_ready root w5"
    "stored root w5 = Pending (t\<lparr>txn_phase := Committed\<rparr>)" by (auto simp: valid_transition_def)
  from clear_stage [OF s5(3,4)] obtain r6 w6 where s6:
    "run_state (run_request root (Clear (txn_operation_id t))) w5 = (r6, w6)"
    "txn_status r6 = Txn_cleared" "store_ready root w6" "stored root w6 = Absent" by auto
  show ?thesis
    using s0 s1 s2 s3 s4 s5 s6 by (simp add: lifecycle_def Let_def)
qed

definition sample_transaction :: pending_activation where
  "sample_transaction = \<lparr>txn_operation_id = ''op-1'', txn_target_revision = 2,
     txn_rollback_revision = 1, txn_phase = Prepared_for_load\<rparr>"

lemma lifecycle_completes_witness:
  "case run_state (serve_all (run_request ''/t'') (lifecycle sample_transaction)) idle_world of (rs, w') \<Rightarrow>
    map txn_status rs = [Txn_created, Txn_advanced, Txn_advanced, Txn_advanced, Txn_advanced,
      Txn_advanced, Txn_cleared] \<and> stored ''/t'' w' = Absent \<and> store_ready ''/t'' w'"
proof (rule lifecycle_completes)
  show "store_ready ''/t'' idle_world"
    by (simp add: store_ready_def idle_world_def is_absolute_def safe_directory_def private_directory_def)
  show "stored ''/t'' idle_world = Absent" by (simp add: stored_Absent idle_world_def)
  show "valid_transaction sample_transaction" by code_simp
  show "txn_phase sample_transaction = Prepared_for_load" by (simp add: sample_transaction_def)
qed

end
