(* ===== verification/Revision_Store.thy ===== *)
theory Revision_Store
  imports Transaction_Store
begin

text \<open>
  The revision archive (\<open>revision_store.cpp\<close>): validated rule sets stored as files that are
  created once and never replaced, and the \<open>last-known-good\<close> marker, replaced atomically.
  \<open>revision_text\<close> and \<open>marker\<close> are the abstract views; the rules of the four operations
  are stated over them.
\<close>

section \<open>Results and names\<close>

datatype revision_status =
    Rev_stored | Rev_loaded | Rev_marked_last_known_good | Rev_last_known_good_found
  | Rev_invalid_revision | Rev_unsafe_root | Rev_unsafe_source | Rev_already_exists
  | Rev_not_found | Rev_corrupt_pointer | Rev_too_large | Rev_io_error

record revision_write_result =
  rw_status :: revision_status
  rw_event_id :: string
  rw_message :: string
  rw_revision_path :: "path option"

record revision_read_result =
  rr_status :: revision_status
  rr_event_id :: string
  rr_message :: string
  rr_content :: string

record last_known_good_result =
  lkg_status :: revision_status
  lkg_event_id :: string
  lkg_message :: string
  lkg_revision :: "u64 option"

definition revision_write_ok :: "revision_write_result \<Rightarrow> bool" where
  "revision_write_ok r \<longleftrightarrow> rw_status r = Rev_stored"

definition revision_read_ok :: "revision_read_result \<Rightarrow> bool" where
  "revision_read_ok r \<longleftrightarrow> rr_status r = Rev_loaded"

definition last_known_good_ok :: "last_known_good_result \<Rightarrow> bool" where
  "last_known_good_ok r \<longleftrightarrow>
     lkg_status r = Rev_marked_last_known_good \<or> lkg_status r = Rev_last_known_good_found"

definition write_failure :: "revision_status \<Rightarrow> string \<Rightarrow> string \<Rightarrow> revision_write_result" where
  "write_failure s e m =
     \<lparr>rw_status = s, rw_event_id = e, rw_message = m, rw_revision_path = None\<rparr>"

definition read_failure :: "revision_status \<Rightarrow> string \<Rightarrow> string \<Rightarrow> revision_read_result" where
  "read_failure s e m = \<lparr>rr_status = s, rr_event_id = e, rr_message = m, rr_content = []\<rparr>"

definition pointer_failure :: "revision_status \<Rightarrow> string \<Rightarrow> string \<Rightarrow> last_known_good_result" where
  "pointer_failure s e m =
     \<lparr>lkg_status = s, lkg_event_id = e, lkg_message = m, lkg_revision = None\<rparr>"

definition maximum_revision_size :: nat where "maximum_revision_size = 1024 * 1024"

definition last_known_good_filename :: string where
  "last_known_good_filename = ''last-known-good''"

text \<open>\<open>setfill('0') << setw(20)\<close>\<close>

definition revision_filename :: "u64 \<Rightarrow> string" where
  "revision_filename revision =
     (let digits = decimal (unat revision)
      in replicate (20 - length digits) (CHR ''0'') @ digits @ ''.pf.conf'')"

definition revision_path :: "string \<Rightarrow> u64 \<Rightarrow> path" where
  "revision_path root revision = (root, revision_filename revision)"

definition marker_path :: "string \<Rightarrow> path" where
  "marker_path root = (root, last_known_good_filename)"

definition marker_temporary :: "u64 \<Rightarrow> nat \<Rightarrow> u64 \<Rightarrow> string" where
  "marker_temporary revision pid seq =
     ''.last-known-good.'' @ decimal (unat revision) @ ''.'' @ decimal pid @ ''.'' @
     decimal (unat seq) @ ''.tmp''"

section \<open>The operations\<close>

definition safe_root :: "string \<Rightarrow> bool io" where
  "safe_root root =
     (if \<not> is_absolute root then return False
      else do {
        st \<leftarrow> stat_directory root;
        uid \<leftarrow> gets effective_uid;
        return (case st of None \<Rightarrow> False | Some d \<Rightarrow> safe_directory uid d)
      })"

definition next_revision_sequence :: "u64 io" where
  "next_revision_sequence = State (\<lambda>w.
     (revision_sequence w, w\<lparr>revision_sequence := revision_sequence w + 1\<rparr>))"

text \<open>
  \<open>store\<close> from the opened and checked source on: the new file is created exclusively and
  read-only; every failure after that removes it again.
\<close>

definition persist_revision :: "string \<Rightarrow> u64 \<Rightarrow> string \<Rightarrow> revision_write_result io" where
  "persist_revision root revision bytes = do {
     opened \<leftarrow> open_directory root;
     if \<not> opened then return (write_failure Rev_unsafe_root ''GH-REV-1002''
       ''Revision root could not be opened safely.'')
     else do {
       created_file \<leftarrow> create_exclusive (revision_path root revision) 256;
       if \<not> created_file then do {
         open_error \<leftarrow> saved_errno;
         close_descriptor;
         if open_error = EEXIST
         then return (write_failure Rev_already_exists ''GH-REV-1005''
           ''Revision already exists and is immutable.'')
         else do {
           text \<leftarrow> strerror_of open_error;
           return (write_failure Rev_io_error ''GH-REV-2002'' (''Could not create revision: '' @ text))
         }
       }
       else do {
         complete \<leftarrow> write_temporary (revision_path root revision) bytes;
         successful \<leftarrow> (if complete then fsync else return False);
         if \<not> successful then do {
           write_error \<leftarrow> saved_errno;
           unlink (revision_path root revision);
           close_descriptor;
           text \<leftarrow> strerror_of write_error;
           return (write_failure Rev_io_error ''GH-REV-2003'' (''Could not persist revision: '' @ text))
         }
         else do {
           close_descriptor;
           return \<lparr>rw_status = Rev_stored, rw_event_id = ''GH-REV-0001'',
             rw_message = ''Validated PF revision stored immutably.'',
             rw_revision_path = Some (revision_path root revision)\<rparr>
         }
       }
     }
   }"

definition store_revision :: "string \<Rightarrow> u64 \<Rightarrow> path \<Rightarrow> revision_write_result io" where
  "store_revision root revision validated_candidate =
     (if revision = 0
      then return (write_failure Rev_invalid_revision ''GH-REV-1001''
        ''Revision number must be greater than zero.'')
      else do {
        safe \<leftarrow> safe_root root;
        if \<not> safe then return (write_failure Rev_unsafe_root ''GH-REV-1002''
          ''Revision root is not a safe owner-controlled directory.'')
        else do {
          source \<leftarrow> open_existing validated_candidate;
          if \<not> source then return (write_failure Rev_unsafe_source ''GH-REV-1003''
            ''Validated candidate could not be opened safely.'')
          else do {
            st \<leftarrow> stat_entry validated_candidate;
            uid \<leftarrow> gets effective_uid;
            (case (case st of None \<Rightarrow> None | Some n \<Rightarrow> if private_regular_file uid n then Some n else None) of
               None \<Rightarrow> do {
                 close_descriptor;
                 return (write_failure Rev_unsafe_source ''GH-REV-1003''
                   ''Validated candidate must be a private regular file owned by the current user.'')
               }
             | Some n \<Rightarrow>
                 (if file_size n < 0 \<or> file_size n > int maximum_revision_size then do {
                    close_descriptor;
                    return (write_failure Rev_too_large ''GH-REV-1004''
                      ''Validated candidate exceeds the revision size limit.'')
                  }
                  else do {
                    bytes \<leftarrow> read_all 4096 validated_candidate (nat (file_size n));
                    (case bytes of
                       None \<Rightarrow> do {
                         read_error \<leftarrow> saved_errno;
                         close_descriptor;
                         text \<leftarrow> strerror_of read_error;
                         return (write_failure Rev_io_error ''GH-REV-2001''
                           (''Could not read validated candidate: '' @ text))
                       }
                     | Some s \<Rightarrow> do { close_descriptor; persist_revision root revision s })
                  }))
          }
        }
      })"

definition load_revision :: "string \<Rightarrow> u64 \<Rightarrow> revision_read_result io" where
  "load_revision root revision =
     (if revision = 0
      then return (read_failure Rev_invalid_revision ''GH-REV-1001''
        ''Revision number must be greater than zero.'')
      else do {
        safe \<leftarrow> safe_root root;
        if \<not> safe then return (read_failure Rev_unsafe_root ''GH-REV-1002''
          ''Revision root is not a safe owner-controlled directory.'')
        else do {
          opened \<leftarrow> open_directory root;
          if \<not> opened then return (read_failure Rev_unsafe_root ''GH-REV-1002''
            ''Revision root could not be opened safely.'')
          else do {
            file \<leftarrow> open_existing (revision_path root revision);
            if \<not> file then do {
              open_error \<leftarrow> saved_errno;
              close_descriptor;
              text \<leftarrow> strerror_of open_error;
              return (if open_error = ENOENT
                then read_failure Rev_not_found ''GH-REV-1006'' ''Revision was not found.''
                else read_failure Rev_io_error ''GH-REV-2004'' (''Could not open revision: '' @ text))
            }
            else do {
              st \<leftarrow> stat_entry (revision_path root revision);
              uid \<leftarrow> gets effective_uid;
              (case (case st of None \<Rightarrow> None | Some n \<Rightarrow> if private_regular_file uid n then Some n else None) of
                 None \<Rightarrow> do {
                   close_descriptor; close_descriptor;
                   return (read_failure Rev_unsafe_source ''GH-REV-1007''
                     ''Revision file failed type, ownership, or permission checks.'')
                 }
               | Some n \<Rightarrow>
                   (if file_size n < 0 \<or> file_size n > int maximum_revision_size then do {
                      close_descriptor; close_descriptor;
                      return (read_failure Rev_too_large ''GH-REV-1004''
                        ''Stored revision exceeds the revision size limit.'')
                    }
                    else do {
                      bytes \<leftarrow> read_all 4096 (revision_path root revision) (nat (file_size n));
                      read_error \<leftarrow> saved_errno;
                      close_descriptor; close_descriptor;
                      (case bytes of
                         None \<Rightarrow> do {
                           text \<leftarrow> strerror_of read_error;
                           return (read_failure Rev_io_error ''GH-REV-2005''
                             (''Could not read revision: '' @ text))
                         }
                       | Some s \<Rightarrow> return \<lparr>rr_status = Rev_loaded, rr_event_id = ''GH-REV-0002'',
                           rr_message = ''PF revision loaded successfully.'', rr_content = s\<rparr>)
                    }))
            }
          }
        }
      })"

definition replace_marker :: "string \<Rightarrow> u64 \<Rightarrow> last_known_good_result io" where
  "replace_marker root revision = do {
     sequence \<leftarrow> next_revision_sequence;
     pid \<leftarrow> gets process_id;
     let temporary = (root, marker_temporary revision pid sequence);
     created_file \<leftarrow> create_exclusive temporary 384;
     if \<not> created_file then do {
       open_error \<leftarrow> saved_errno;
       close_descriptor;
       text \<leftarrow> strerror_of open_error;
       return (pointer_failure Rev_io_error ''GH-REV-2006''
         (''Could not create last-known-good marker: '' @ text))
     }
     else do {
       complete \<leftarrow> write_temporary temporary (decimal (unat revision) @ [newline]);
       renamed \<leftarrow> (if complete then rename_entry temporary (marker_path root) else return False);
       successful \<leftarrow> (if renamed then fsync else return False);
       if \<not> successful then do {
         write_error \<leftarrow> saved_errno;
         unlink temporary;
         close_descriptor;
         text \<leftarrow> strerror_of write_error;
         return (pointer_failure Rev_io_error ''GH-REV-2007''
           (''Could not atomically update last-known-good marker: '' @ text))
       }
       else do {
         close_descriptor;
         return \<lparr>lkg_status = Rev_marked_last_known_good, lkg_event_id = ''GH-REV-0003'',
           lkg_message = ''Revision marked as last known good.'', lkg_revision = Some revision\<rparr>
       }
     }
   }"

definition mark_last_known_good :: "string \<Rightarrow> u64 \<Rightarrow> last_known_good_result io" where
  "mark_last_known_good root revision = do {
     existing \<leftarrow> load_revision root revision;
     if \<not> revision_read_ok existing
     then return (pointer_failure (rr_status existing) (rr_event_id existing)
       ''Cannot mark a revision that is unavailable or unsafe.'')
     else do {
       opened \<leftarrow> open_directory root;
       if \<not> opened then return (pointer_failure Rev_unsafe_root ''GH-REV-1002''
         ''Revision root could not be opened safely.'')
       else replace_marker root revision
     }
   }"

definition marker_intact :: "nat \<Rightarrow> node \<Rightarrow> bool" where
  "marker_intact uid n \<longleftrightarrow> private_regular_file uid n \<and> 2 \<le> file_size n \<and> file_size n \<le> 32"

definition corrupt_pointer :: "string \<Rightarrow> last_known_good_result" where
  "corrupt_pointer m = pointer_failure Rev_corrupt_pointer ''GH-REV-1009'' m"

text \<open>The number in a complete marker line; the final character must be a newline.\<close>

definition parse_marker :: "string \<Rightarrow> u64 option" where
  "parse_marker s =
     (if s = [] \<or> last s \<noteq> newline then None
      else (case from_chars uint64_max (butlast s) of
              (err, n, rest) \<Rightarrow>
                (if err \<noteq> Conversion_ok \<or> rest \<noteq> [] \<or> n = 0 then None else Some (word_of_nat n))))"

definition last_known_good :: "string \<Rightarrow> last_known_good_result io" where
  "last_known_good root = do {
     safe \<leftarrow> safe_root root;
     if \<not> safe then return (pointer_failure Rev_unsafe_root ''GH-REV-1002''
       ''Revision root is not a safe owner-controlled directory.'')
     else do {
       opened \<leftarrow> open_directory root;
       if \<not> opened then return (pointer_failure Rev_unsafe_root ''GH-REV-1002''
         ''Revision root could not be opened safely.'')
       else do {
         file \<leftarrow> open_existing (marker_path root);
         if \<not> file then do {
           open_error \<leftarrow> saved_errno;
           close_descriptor;
           return (if open_error = ENOENT
             then pointer_failure Rev_not_found ''GH-REV-1008'' ''No last-known-good revision is recorded.''
             else corrupt_pointer ''Last-known-good marker could not be opened safely.'')
         }
         else do {
           st \<leftarrow> stat_entry (marker_path root);
           uid \<leftarrow> gets effective_uid;
           (case (case st of None \<Rightarrow> None | Some n \<Rightarrow> if marker_intact uid n then Some n else None) of
              None \<Rightarrow> do {
                close_descriptor; close_descriptor;
                return (corrupt_pointer ''Last-known-good marker failed validation.'')
              }
            | Some n \<Rightarrow> do {
                bytes \<leftarrow> read_all 4096 (marker_path root) (nat (file_size n));
                close_descriptor; close_descriptor;
                (case bytes of
                   None \<Rightarrow> return (corrupt_pointer ''Last-known-good marker is incomplete or malformed.'')
                 | Some s \<Rightarrow>
                     (if s = [] \<or> last s \<noteq> newline
                      then return (corrupt_pointer ''Last-known-good marker is incomplete or malformed.'')
                      else (case parse_marker s of
                              None \<Rightarrow> return (corrupt_pointer
                                ''Last-known-good marker references an invalid or unavailable revision.'')
                            | Some revision \<Rightarrow> do {
                                existing \<leftarrow> load_revision root revision;
                                if \<not> revision_read_ok existing then return (corrupt_pointer
                                  ''Last-known-good marker references an invalid or unavailable revision.'')
                                else return \<lparr>lkg_status = Rev_last_known_good_found,
                                  lkg_event_id = ''GH-REV-0004'',
                                  lkg_message = ''Last-known-good revision loaded successfully.'',
                                  lkg_revision = Some revision\<rparr>
                              })))
              })
         }
       }
     }
   }"

section \<open>Names do not collide\<close>

lemma length_revision_digits: "length (decimal (unat (r :: u64))) \<le> 20"
  by (rule length_decimal_u64)

lemma decimal_value_zeros: "decimal_value (replicate k (CHR ''0'') @ s) = decimal_value s"
  by (induction k) (simp_all add: decimal_value_def digit_value_def)

lemma revision_filename_inject [simp]: "revision_filename r = revision_filename r' \<longleftrightarrow> r = r'"
proof
  assume "revision_filename r = revision_filename r'"
  then have "decimal_value (replicate (20 - length (decimal (unat r))) (CHR ''0'') @ decimal (unat r)) =
      decimal_value (replicate (20 - length (decimal (unat r'))) (CHR ''0'') @ decimal (unat r'))"
    by (simp add: revision_filename_def Let_def flip: append_assoc)
  then show "r = r'" by (simp add: decimal_value_zeros word_unat_eq_iff)
qed simp

lemma last_names:
  "last (revision_filename r) = CHR ''f''" "last last_known_good_filename = CHR ''d''"
  "last (marker_temporary r pid seq) = CHR ''p''"
  by (simp_all add: revision_filename_def last_known_good_filename_def marker_temporary_def Let_def)

lemma revision_paths_differ [simp]:
  "revision_path root r \<noteq> marker_path root" "marker_path root \<noteq> revision_path root r"
  "(root, marker_temporary r' pid seq) \<noteq> revision_path root r"
  "(root, marker_temporary r' pid seq) \<noteq> marker_path root"
  "revision_path root r \<noteq> (root, marker_temporary r' pid seq)"
  "marker_path root \<noteq> (root, marker_temporary r' pid seq)"
  using last_names(1) [of r] last_names(2) last_names(3) [of r' pid seq]
  by (auto simp: revision_path_def marker_path_def)

lemma revision_path_simps [simp]:
  "fst (revision_path root r) = root" "fst (marker_path root) = root"
  "revision_path root r = revision_path root r' \<longleftrightarrow> r = r'"
  by (simp_all add: revision_path_def marker_path_def)

section \<open>Abstract views\<close>

definition revision_view :: "nat \<Rightarrow> node option \<Rightarrow> string option" where
  "revision_view uid entry =
     (case entry of
        None \<Rightarrow> None
      | Some n \<Rightarrow>
          (if private_regular_file uid n \<and> file_size n \<le> int maximum_revision_size
           then Some (content n) else None))"

text \<open>The text under a revision number, when it is there and passes the safety checks.\<close>

definition revision_text :: "string \<Rightarrow> world \<Rightarrow> u64 \<Rightarrow> string option" where
  "revision_text root w revision =
     revision_view (effective_uid w) (entries w (revision_path root revision))"

definition marker_view :: "nat \<Rightarrow> node option \<Rightarrow> u64 option" where
  "marker_view uid entry =
     (case entry of
        None \<Rightarrow> None
      | Some n \<Rightarrow> (if marker_intact uid n then parse_marker (content n) else None))"

text \<open>The revision the marker file names.\<close>

definition marker :: "string \<Rightarrow> world \<Rightarrow> u64 option" where
  "marker root w = marker_view (effective_uid w) (entries w (marker_path root))"

lemma revision_text_simps [simp]:
  "revision_text root (w\<lparr>script := rs\<rparr>) = revision_text root w"
  "revision_text root (w\<lparr>last_errno := e\<rparr>) = revision_text root w"
  "revision_text root (w\<lparr>actions := a\<rparr>) = revision_text root w"
  "revision_text root (w\<lparr>clock_reads := c\<rparr>) = revision_text root w"
  "revision_text root (w\<lparr>processes_run := c\<rparr>) = revision_text root w"
  "revision_text root (w\<lparr>next_inode := i\<rparr>) = revision_text root w"
  "revision_text root (w\<lparr>transaction_sequence := q\<rparr>) = revision_text root w"
  "revision_text root (w\<lparr>revision_sequence := q\<rparr>) = revision_text root w"
  "p \<noteq> revision_path root r \<Longrightarrow> revision_text root (put_entry p n w) r = revision_text root w r"
  "p \<noteq> revision_path root r \<Longrightarrow> revision_text root (created p m w) r = revision_text root w r"
  by (simp_all add: revision_text_def fun_eq_iff)

lemma marker_simps [simp]:
  "marker root (w\<lparr>script := rs\<rparr>) = marker root w"
  "marker root (w\<lparr>last_errno := e\<rparr>) = marker root w"
  "marker root (w\<lparr>actions := a\<rparr>) = marker root w"
  "marker root (w\<lparr>clock_reads := c\<rparr>) = marker root w"
  "marker root (w\<lparr>processes_run := c\<rparr>) = marker root w"
  "marker root (w\<lparr>next_inode := i\<rparr>) = marker root w"
  "marker root (w\<lparr>transaction_sequence := q\<rparr>) = marker root w"
  "marker root (w\<lparr>revision_sequence := q\<rparr>) = marker root w"
  "p \<noteq> marker_path root \<Longrightarrow> marker root (put_entry p n w) = marker root w"
  "p \<noteq> marker_path root \<Longrightarrow> marker root (created p m w) = marker root w"
  by (simp_all add: marker_def)

lemma parse_marker_decimal [simp]: "r > 0 \<Longrightarrow> parse_marker (decimal (unat r) @ [newline]) = Some r"
  by (simp add: parse_marker_def from_chars_unat word_gt_0 unat_eq_0)

lemma marker_written [simp]:
  "r > 0 \<Longrightarrow> effective_uid w' = effective_uid w \<Longrightarrow>
     marker root (put_entry (marker_path root)
       (Some ((fresh_file 384 w)\<lparr>content := decimal (unat r) @ [newline]\<rparr>)) w') = Some r"
  using length_revision_digits [of r]
  by (simp add: marker_def marker_view_def marker_intact_def private_regular_file_def file_size_def
      Suc_le_eq)

lemma revision_written [simp]:
  "length s \<le> maximum_revision_size \<Longrightarrow> effective_uid w' = effective_uid w \<Longrightarrow>
     revision_text root (put_entry (revision_path root r)
       (Some ((fresh_file 256 w)\<lparr>content := s\<rparr>)) w') r = Some s"
  by (simp add: revision_text_def revision_view_def private_regular_file_def file_size_def)

section \<open>What the operations do\<close>

definition load_revision_reply :: "string \<Rightarrow> u64 \<Rightarrow> revision_read_result \<Rightarrow> world \<Rightarrow> bool" where
  "load_revision_reply root revision r w \<longleftrightarrow>
     (revision_read_ok r \<longrightarrow> revision > 0 \<and> revision_text root w revision = Some (rr_content r)) \<and>
     (rr_status r = Rev_not_found \<longrightarrow> revision_text root w revision = None) \<and>
     rr_status r \<noteq> Rev_marked_last_known_good \<and> rr_status r \<noteq> Rev_last_known_good_found"

definition store_revision_effect ::
  "string \<Rightarrow> u64 \<Rightarrow> path \<Rightarrow> revision_write_result \<Rightarrow> world \<Rightarrow> world \<Rightarrow> bool" where
  "store_revision_effect root revision source r w w' \<longleftrightarrow>
     store_frame root w w' \<and> only_touches {revision_path root revision} w w' \<and>
     (entries w (revision_path root revision) \<noteq> None \<longrightarrow>
        entries w' (revision_path root revision) = entries w (revision_path root revision)) \<and>
     (revision_write_ok r \<longrightarrow> revision > 0 \<and> entries w (revision_path root revision) = None \<and>
        (\<exists>n. entries w source = Some n \<and> private_regular_file (effective_uid w) n \<and>
             revision_text root w' revision = Some (content n)))"

definition mark_effect ::
  "string \<Rightarrow> u64 \<Rightarrow> last_known_good_result \<Rightarrow> world \<Rightarrow> world \<Rightarrow> bool" where
  "mark_effect root revision r w w' \<longleftrightarrow>
     store_frame root w w' \<and> revision_text root w' = revision_text root w \<and>
     (marker root w' = marker root w \<or>
      marker root w' = Some revision \<and> revision_text root w revision \<noteq> None) \<and>
     (if last_known_good_ok r
      then lkg_status r = Rev_marked_last_known_good \<and> lkg_revision r = Some revision \<and>
           marker root w' = Some revision \<and> revision_text root w revision \<noteq> None
      else lkg_revision r = None)"

definition last_known_good_reply :: "string \<Rightarrow> last_known_good_result \<Rightarrow> world \<Rightarrow> bool" where
  "last_known_good_reply root r w \<longleftrightarrow>
     (if last_known_good_ok r
      then (\<exists>revision. lkg_revision r = Some revision \<and> revision > 0 \<and>
              marker root w = Some revision \<and> revision_text root w revision \<noteq> None)
      else lkg_revision r = None) \<and>
     (lkg_status r = Rev_not_found \<longrightarrow> marker root w = None)"

section \<open>The operations keep their contracts\<close>

lemma revision_ok_simps [simp]:
  "revision_write_ok (write_failure s a b) \<longleftrightarrow> s = Rev_stored"
  "revision_write_ok \<lparr>rw_status = Rev_stored, rw_event_id = a, rw_message = b, rw_revision_path = p\<rparr>"
  "revision_read_ok (read_failure s a b) \<longleftrightarrow> s = Rev_loaded"
  "revision_read_ok \<lparr>rr_status = Rev_loaded, rr_event_id = a, rr_message = b, rr_content = c\<rparr>"
  "rr_status (read_failure s a b) = s"
  "lkg_status (pointer_failure s a b) = s"
  "lkg_revision (pointer_failure s a b) = None"
  "last_known_good_ok (pointer_failure s a b) \<longleftrightarrow>
     s = Rev_marked_last_known_good \<or> s = Rev_last_known_good_found"
  by (simp_all add: revision_write_ok_def write_failure_def revision_read_ok_def read_failure_def
      pointer_failure_def last_known_good_ok_def)

lemma wp_safe_root [wp_rule]:
  assumes "\<And>ok rs e. Q ok (settle rs e w)"
  shows "wp (safe_root root) Q w"
proof -
  have "Q ok w" for ok using assms [where ok = ok and rs = "script w" and e = "last_errno w"] by simp
  then show ?thesis unfolding safe_root_def by (auto simp: assms intro!: wp_rule)
qed

lemma wp_next_revision_sequence [simp, wp_simp]:
  "wp next_revision_sequence Q w =
     Q (revision_sequence w) (w\<lparr>revision_sequence := revision_sequence w + 1\<rparr>)"
  by (simp add: wp_def next_revision_sequence_def)

lemma revision_sequence_outwards [simp]:
  "put_entry p n (w\<lparr>revision_sequence := q\<rparr>) = (put_entry p n w)\<lparr>revision_sequence := q\<rparr>"
  "created p m (w\<lparr>revision_sequence := q\<rparr>) = (created p m w)\<lparr>revision_sequence := q\<rparr>"
  "fresh_file m (w\<lparr>revision_sequence := q\<rparr>) = fresh_file m w"
  by (simp_all add: put_entry_def created_def fresh_file_def)

lemma load_revision_reply_failure [simp]:
  "s \<in> {Rev_invalid_revision, Rev_unsafe_root, Rev_unsafe_source, Rev_too_large, Rev_io_error} \<Longrightarrow>
     load_revision_reply root r (read_failure s a b) w"
  by (auto simp: load_revision_reply_def)

lemma load_revision_reply_start [simp]:
  "load_revision_reply root r x (w\<lparr>script := rs\<rparr>) = load_revision_reply root r x w"
  "load_revision_reply root r x (w\<lparr>last_errno := e\<rparr>) = load_revision_reply root r x w"
  by (simp_all add: load_revision_reply_def)

lemma load_revision_reply_not_found [simp]:
  "entries w (revision_path root r) = None \<Longrightarrow>
     load_revision_reply root r (read_failure Rev_not_found a b) w"
  by (simp add: load_revision_reply_def revision_text_def revision_view_def)

lemma load_revision_reply_loaded [simp]:
  "entries w (revision_path root r) = Some n \<Longrightarrow> private_regular_file (effective_uid w) n \<Longrightarrow>
     length (content n) \<le> maximum_revision_size \<Longrightarrow> r \<noteq> 0 \<Longrightarrow> s = content n \<Longrightarrow>
     load_revision_reply root r \<lparr>rr_status = Rev_loaded, rr_event_id = a, rr_message = b,
       rr_content = s\<rparr> w"
  by (simp add: load_revision_reply_def revision_text_def revision_view_def file_size_def word_gt_0)

lemma wp_load_revision [wp_rule]:
  assumes "\<And>r rs e. load_revision_reply root revision r w \<Longrightarrow> Q r (settle rs e w)"
  shows "wp (load_revision root revision) Q w"
proof -
  have "Q r w" if "load_revision_reply root revision r w" for r
    using assms [where r = r and rs = "script w" and e = "last_errno w"] that by simp
  then show ?thesis
    unfolding load_revision_def
    by (auto simp: file_size_def not_less split: option.splits if_splits intro!: wp_rule assms)
qed

lemma store_revision_effect_start [simp]:
  "store_revision_effect root r src x (w\<lparr>script := rs\<rparr>) w' = store_revision_effect root r src x w w'"
  "store_revision_effect root r src x (w\<lparr>last_errno := e\<rparr>) w' = store_revision_effect root r src x w w'"
  by (simp_all add: store_revision_effect_def)

lemma store_revision_effect_failure [simp]:
  "s \<noteq> Rev_stored \<Longrightarrow> store_revision_effect root r src (write_failure s a b) w w"
  "s \<noteq> Rev_stored \<Longrightarrow> store_revision_effect root r src (write_failure s a b) w (settle rs e w)"
  by (simp_all add: store_revision_effect_def)

lemma store_revision_effect_new:
  assumes "entries w (revision_path root r) = None" "s \<noteq> Rev_stored"
  shows "store_revision_effect root r src (write_failure s a b) w
      (settle rs e (put_entry (revision_path root r) n (w\<lparr>next_inode := i\<rparr>)))"
    "store_revision_effect root r src (write_failure s a b) w
      (settle rs e (created (revision_path root r) m w))"
  using assms by (simp_all add: store_revision_effect_def)

lemma store_revision_effect_stored:
  assumes "entries w (revision_path root r) = None" "r > 0" "entries w src = Some n"
    "private_regular_file (effective_uid w) n" "length (content n) \<le> maximum_revision_size"
  shows "store_revision_effect root r src \<lparr>rw_status = Rev_stored, rw_event_id = a, rw_message = b,
      rw_revision_path = p\<rparr> w
      (settle rs e (put_entry (revision_path root r)
        (Some ((fresh_file 256 w)\<lparr>content := content n\<rparr>)) (w\<lparr>next_inode := i\<rparr>)))"
  using assms by (auto simp: store_revision_effect_def)

lemma wp_persist_revision:
  assumes "r > 0" "\<exists>n. entries w src = Some n \<and> private_regular_file (effective_uid w) n \<and>
      length (content n) \<le> maximum_revision_size \<and> s = content n"
    and "\<And>x w'. store_revision_effect root r src x w w' \<Longrightarrow> Q x w'"
  shows "wp (persist_revision root r s) Q w"
proof -
  from assms(2) obtain n where n: "entries w src = Some n" "private_regular_file (effective_uid w) n"
    "length (content n) \<le> maximum_revision_size" "s = content n" by blast
  show ?thesis
    using assms(1) n(1-3) unfolding persist_revision_def n(4)
    by (auto simp: store_revision_effect_new store_revision_effect_stored intro!: wp_rule assms(3))
qed

lemma wp_store_revision [wp_rule]:
  assumes "\<And>r w'. store_revision_effect root revision source r w w' \<Longrightarrow> Q r w'"
  shows "wp (store_revision root revision source) Q w"
  unfolding store_revision_def
  by (auto simp: file_size_def not_less word_gt_0 split: option.splits if_splits
      intro!: wp_rule wp_persist_revision [where src = source] assms)

text \<open>The marker.\<close>

lemma mark_effect_start [simp]:
  "mark_effect root r x (w\<lparr>script := rs\<rparr>) w' = mark_effect root r x w w'"
  "mark_effect root r x (w\<lparr>last_errno := e\<rparr>) w' = mark_effect root r x w w'"
  by (simp_all add: mark_effect_def)

lemma mark_effect_failure [simp]:
  "store_frame root w w' \<Longrightarrow> revision_text root w' = revision_text root w \<Longrightarrow>
     marker root w' = marker root w \<Longrightarrow>
     s \<noteq> Rev_marked_last_known_good \<Longrightarrow> s \<noteq> Rev_last_known_good_found \<Longrightarrow>
     mark_effect root r (pointer_failure s a b) w w'"
  by (simp add: mark_effect_def)

lemma mark_effect_marked:
  assumes "revision_text root w r \<noteq> None" "store_frame root w w'"
    "revision_text root w' = revision_text root w" "marker root w' = Some r"
  shows "mark_effect root r (pointer_failure Rev_io_error a b) w w'"
    "mark_effect root r \<lparr>lkg_status = Rev_marked_last_known_good, lkg_event_id = a,
       lkg_message = b, lkg_revision = Some r\<rparr> w w'"
  using assms by (simp_all add: mark_effect_def last_known_good_ok_def)

lemma wp_replace_marker:
  assumes "r > 0" "revision_text root w r \<noteq> None"
    and "\<And>x w'. mark_effect root r x w w' \<Longrightarrow> Q x w'"
  shows "wp (replace_marker root r) Q w"
  using assms(1,2) unfolding replace_marker_def
  by (auto simp: Let_def mark_effect_marked fun_eq_iff intro!: wp_rule assms(3))

lemma wp_mark_last_known_good [wp_rule]:
  assumes "\<And>r w'. mark_effect root revision r w w' \<Longrightarrow> Q r w'"
  shows "wp (mark_last_known_good root revision) Q w"
  unfolding mark_last_known_good_def
  by (auto simp: load_revision_reply_def revision_read_ok_def intro!: wp_rule wp_replace_marker assms)

lemma last_known_good_reply_failure [simp]:
  "s \<noteq> Rev_marked_last_known_good \<Longrightarrow> s \<noteq> Rev_last_known_good_found \<Longrightarrow> s \<noteq> Rev_not_found \<Longrightarrow>
     last_known_good_reply root (pointer_failure s a b) w"
  by (simp add: last_known_good_reply_def)

lemma last_known_good_reply_not_found [simp]:
  "entries w (marker_path root) = None \<Longrightarrow>
     last_known_good_reply root (pointer_failure Rev_not_found a b) w"
  by (simp add: last_known_good_reply_def marker_def marker_view_def)

lemma last_known_good_reply_found:
  "load_revision_reply root r x w \<Longrightarrow> revision_read_ok x \<Longrightarrow> entries w (marker_path root) = Some n \<Longrightarrow>
     marker_intact (effective_uid w) n \<Longrightarrow> parse_marker (content n) = Some r \<Longrightarrow>
     last_known_good_reply root \<lparr>lkg_status = Rev_last_known_good_found, lkg_event_id = a,
       lkg_message = b, lkg_revision = Some r\<rparr> w"
  by (simp add: last_known_good_reply_def marker_def marker_view_def load_revision_reply_def
      last_known_good_ok_def)

lemma wp_last_known_good [wp_rule]:
  assumes "\<And>r rs e. last_known_good_reply root r w \<Longrightarrow> Q r (settle rs e w)"
  shows "wp (last_known_good root) Q w"
  unfolding last_known_good_def
  by (auto simp: file_size_def corrupt_pointer_def last_known_good_reply_found split: option.splits if_splits intro!: wp_rule assms)

section \<open>The archive as an interface\<close>

datatype archive_request = Store u64 path | Fetch u64 | Mark u64 | Recall

text \<open>
  Any sequence of archive operations by any mixture of clients; the results are dropped, since the
  laws below concern the state.
\<close>

definition run_archive :: "string \<Rightarrow> archive_request \<Rightarrow> unit io" where
  "run_archive root q = (case q of
       Store r source \<Rightarrow> do { store_revision root r source; return () }
     | Fetch r \<Rightarrow> do { load_revision root r; return () }
     | Mark r \<Rightarrow> do { mark_last_known_good root r; return () }
     | Recall \<Rightarrow> do { last_known_good root; return () })"

fun run_all :: "('q \<Rightarrow> ('w, unit) state) \<Rightarrow> 'q list \<Rightarrow> ('w, unit) state" where
  "run_all serve [] = State_Monad.return ()"
| "run_all serve (q # qs) = do { serve q; run_all serve qs }"

locale revision_archive =
  fixes text_of :: "'w \<Rightarrow> u64 \<Rightarrow> string option"
    and pointer :: "'w \<Rightarrow> u64 option"
    and serve :: "'q \<Rightarrow> ('w, unit) state"
    and target :: "'q \<Rightarrow> u64 option"
  assumes immutable: "text_of w r = Some s \<Longrightarrow> run_state (serve q) w = (u, w') \<Longrightarrow> text_of w' r = Some s"
    and pointer_moves: "run_state (serve q) w = (u, w') \<Longrightarrow> pointer w' \<noteq> pointer w \<Longrightarrow>
      pointer w' = target q \<and> (\<exists>r s. target q = Some r \<and> text_of w r = Some s)"
begin

lemma text_survives:
  "text_of w r = Some s \<Longrightarrow> run_state (run_all serve qs) w = (u, w') \<Longrightarrow> text_of w' r = Some s"
proof (induction qs arbitrary: w)
  case (Cons q qs)
  obtain u1 w1 where step: "run_state (serve q) w = (u1, w1)" by (metis surj_pair)
  with Cons.prems(2) have "run_state (run_all serve qs) w1 = (u, w')" by simp
  with Cons.IH immutable [OF Cons.prems(1) step] show ?case by blast
qed simp

definition pointer_sound :: "'w \<Rightarrow> bool" where
  "pointer_sound w \<longleftrightarrow> (case pointer w of None \<Rightarrow> True | Some r \<Rightarrow> text_of w r \<noteq> None)"

lemma pointer_sound_step:
  assumes "pointer_sound w" "run_state (serve q) w = (u, w')"
  shows "pointer_sound w'"
proof (cases "pointer w' = pointer w")
  case True
  with assms show ?thesis
    by (auto simp: pointer_sound_def split: option.splits dest: immutable)
next
  case False
  from pointer_moves [OF assms(2) this] obtain r s where "pointer w' = Some r" "text_of w r = Some s"
    by auto
  with immutable [OF this(2) assms(2)] show ?thesis by (simp add: pointer_sound_def)
qed

lemma pointer_stays_sound:
  "pointer_sound w \<Longrightarrow> run_state (run_all serve qs) w = (u, w') \<Longrightarrow> pointer_sound w'"
proof (induction qs arbitrary: w)
  case (Cons q qs)
  obtain u1 w1 where step: "run_state (serve q) w = (u1, w1)" by (metis surj_pair)
  with Cons.prems(2) have "run_state (run_all serve qs) w1 = (u, w')" by simp
  with Cons.IH pointer_sound_step [OF Cons.prems(1) step] show ?case by blast
qed simp

lemma pointer_origin:
  "run_state (run_all serve qs) w = (u, w') \<Longrightarrow>
     pointer w' = pointer w \<or> pointer w' \<in> target ` set qs"
proof (induction qs arbitrary: w)
  case (Cons q qs)
  obtain u1 w1 where step: "run_state (serve q) w = (u1, w1)" by (metis surj_pair)
  with Cons.prems have "run_state (run_all serve qs) w1 = (u, w')" by simp
  from Cons.IH [OF this] pointer_moves [OF step] show ?case by auto
qed simp

end

text \<open>Only \<open>Mark\<close> moves the marker.\<close>

fun marks :: "archive_request \<Rightarrow> u64 option" where
  "marks (Mark r) = Some r"
| "marks _ = None"

definition archive_effect :: "string \<Rightarrow> archive_request \<Rightarrow> world \<Rightarrow> world \<Rightarrow> bool" where
  "archive_effect root q w w' \<longleftrightarrow>
     store_frame root w w' \<and>
     (\<forall>r s. revision_text root w r = Some s \<longrightarrow> revision_text root w' r = Some s) \<and>
     (marker root w' \<noteq> marker root w \<longrightarrow>
        marker root w' = marks q \<and> (\<exists>r. marks q = Some r \<and> revision_text root w r \<noteq> None))"

lemma archive_effect_store:
  "store_revision_effect root r src x w w' \<Longrightarrow> archive_effect root q w w'"
proof -
  assume e: "store_revision_effect root r src x w w'"
  then have frame: "store_frame root w w'" "same_setting w w'" "only_touches {revision_path root r} w w'"
    by (simp_all add: store_revision_effect_def store_frame_def)
  then have same: "entries w' p = entries w p" if "p \<noteq> revision_path root r" for p
    using that only_touches_entry by blast
  have "marker root w' = marker root w"
    using same [of "marker_path root"] frame(2) by (simp add: marker_def same_setting_def)
  moreover have "revision_text root w' r' = Some s" if "revision_text root w r' = Some s" for r' s
  proof -
    from that have "entries w (revision_path root r') \<noteq> None"
      by (auto simp: revision_text_def revision_view_def split: option.splits)
    then have "entries w' (revision_path root r') = entries w (revision_path root r')"
      using e same by (cases "r' = r") (auto simp: store_revision_effect_def)
    with that frame(2) show ?thesis by (simp add: revision_text_def same_setting_def)
  qed
  ultimately show ?thesis using frame(1) by (simp add: archive_effect_def)
qed

lemma wp_run_archive:
  assumes "\<And>w'. archive_effect root q w w' \<Longrightarrow> Q () w'"
  shows "wp (run_archive root q) Q w"
proof (cases q)
  case (Store r src)
  then show ?thesis
    by (auto simp: run_archive_def intro!: wp_rule assms archive_effect_store)
next
  case (Mark r)
  then show ?thesis
    by (auto simp: run_archive_def archive_effect_def mark_effect_def intro!: wp_rule assms)
qed (auto simp: run_archive_def archive_effect_def intro!: wp_rule assms)

lemma run_archive_effect: "run_state (run_archive root q) w = (u, w') \<Longrightarrow> archive_effect root q w w'"
  using wpD [OF wp_run_archive, of root q w "\<lambda>_ w'. archive_effect root q w w'"] by blast

interpretation archive: revision_archive "revision_text root" "marker root" "run_archive root" marks
  for root
proof
  fix w r s q u w'
  assume "revision_text root w r = Some s" "run_state (run_archive root q) w = (u, w')"
  then show "revision_text root w' r = Some s"
    using run_archive_effect by (auto simp: archive_effect_def)
next
  fix q w u w'
  assume "run_state (run_archive root q) w = (u, w')" "marker root w' \<noteq> marker root w"
  then show "marker root w' = marks q \<and> (\<exists>r s. marks q = Some r \<and> revision_text root w r = Some s)"
    using run_archive_effect by (fastforce simp: archive_effect_def)
qed

text \<open>
  C13. Stored revisions are immutable and the last-known-good marker stays meaningful: whatever
  archive operations run, in any order and under any faults, every revision text that could be
  read before reads the same afterwards, the marker only ever takes values some client asked to
  mark, and if it named a readable revision before, it names a readable one afterwards.
\<close>

theorem revisions_immutable:
  "case run_state (run_all (run_archive root) qs) w of (_, w') \<Rightarrow>
     list_all (\<lambda>r. if revision_text root w r = None then True
                   else revision_text root w' r = revision_text root w r) rs \<and>
     (marker root w' = marker root w \<or> marker root w' \<in> marks ` set qs) \<and>
     (if (case marker root w of None \<Rightarrow> True | Some r \<Rightarrow> revision_text root w r \<noteq> None)
      then (case marker root w' of None \<Rightarrow> True | Some r \<Rightarrow> revision_text root w' r \<noteq> None)
      else True)"
proof -
  obtain u w' where run: "run_state (run_all (run_archive root) qs) w = (u, w')" by (metis surj_pair)
  show ?thesis
    using archive.text_survives [OF _ run] archive.pointer_origin [OF run]
      archive.pointer_stays_sound [OF _ run]
    by (auto simp: run list_all_iff archive.pointer_sound_def)
qed

section \<open>Storing, marking and reading back\<close>

definition marker_temporary_name :: "string \<Rightarrow> bool" where
  "marker_temporary_name n \<longleftrightarrow> prefix ''.last-known-good.'' n"

text \<open>No fault ahead, a safe root, no stale temporary marker.\<close>

definition archive_ready :: "string \<Rightarrow> world \<Rightarrow> bool" where
  "archive_ready root w \<longleftrightarrow>
     script w = [] \<and> is_absolute root \<and>
     (\<exists>d. dirs w root = Some d \<and> safe_directory (effective_uid w) d) \<and>
     (\<forall>n. marker_temporary_name n \<longrightarrow> entries w (root, n) = None)"

lemma marker_temporary_names [simp]:
  "marker_temporary_name (marker_temporary r pid seq)"
  "\<not> marker_temporary_name last_known_good_filename"
  "\<not> marker_temporary_name (revision_filename r)"
proof -
  show "marker_temporary_name (marker_temporary r pid seq)"
    by (simp add: marker_temporary_name_def marker_temporary_def)
  show "\<not> marker_temporary_name last_known_good_filename"
    by (simp add: marker_temporary_name_def last_known_good_filename_def)
  obtain c s where "decimal (unat r) = c # s" by (cases "decimal (unat r)") auto
  then show "\<not> marker_temporary_name (revision_filename r)"
    using decimal_digits [of "unat r"]
    by (cases "20 - length (decimal (unat r))")
      (auto simp: marker_temporary_name_def revision_filename_def Let_def is_ascii_digit_def)
qed

lemma archive_ready_script: "archive_ready root w \<Longrightarrow> script w = []"
  by (simp add: archive_ready_def)

lemma archive_ready_free [simp]:
  "archive_ready root w \<Longrightarrow> entries w (root, marker_temporary r pid seq) = None"
  by (simp add: archive_ready_def)

lemma archive_ready_update [simp]:
  "archive_ready root (w\<lparr>next_inode := i\<rparr>) = archive_ready root w"
  "archive_ready root (w\<lparr>revision_sequence := q\<rparr>) = archive_ready root w"
  "archive_ready root w \<Longrightarrow> archive_ready root (put_entry (root, m) None w)"
  "archive_ready root w \<Longrightarrow> archive_ready root (put_entry (marker_path root) n w)"
  "archive_ready root w \<Longrightarrow> archive_ready root (put_entry (revision_path root r) n w)"
  by (auto simp: archive_ready_def marker_path_def revision_path_def)

lemma run_safe_root_ready [simp]:
  "archive_ready root w \<Longrightarrow> run_state (safe_root root) w = (True, w)"
  by (auto simp: archive_ready_def safe_root_def)

lemma run_open_root_ready [simp]:
  "archive_ready root w \<Longrightarrow> run_state (open_directory root) w = (True, w)"
  by (auto simp: archive_ready_def safe_directory_def)

lemma load_revision_ready:
  assumes "archive_ready root w" "revision_text root w r = Some s" "r > 0"
  shows "\<exists>x. run_state (load_revision root r) w = (x, w) \<and> revision_read_ok x \<and> rr_content x = s"
  using assms archive_ready_script [OF assms(1)]
  by (auto simp: load_revision_def revision_text_def revision_view_def file_size_def saved_errno_def
      private_regular_file_def word_gt_0 split: option.splits if_splits)

lemma store_revision_ready:
  assumes "archive_ready root w" "revision > 0" "entries w (revision_path root revision) = None"
    "entries w source = Some n" "private_regular_file (effective_uid w) n"
    "length (content n) \<le> maximum_revision_size"
  shows "\<exists>x w'. run_state (store_revision root revision source) w = (x, w') \<and>
    revision_write_ok x \<and> archive_ready root w'"
  using assms archive_ready_script [OF assms(1)]
  by (auto simp: store_revision_def persist_revision_def file_size_def private_regular_file_def
      word_gt_0)

lemma mark_ready:
  assumes "archive_ready root w" "revision_text root w r = Some s" "r > 0"
  shows "\<exists>x w'. run_state (mark_last_known_good root r) w = (x, w') \<and>
    x = \<lparr>lkg_status = Rev_marked_last_known_good, lkg_event_id = ''GH-REV-0003'',
      lkg_message = ''Revision marked as last known good.'', lkg_revision = Some r\<rparr> \<and>
    archive_ready root w'"
proof -
  from load_revision_ready [OF assms] obtain x where
    "run_state (load_revision root r) w = (x, w)" "revision_read_ok x" by blast
  with assms archive_ready_script [OF assms(1)] show ?thesis
    by (simp add: mark_last_known_good_def replace_marker_def next_revision_sequence_def Let_def
        last_known_good_ok_def put_entry_swap [of "(root, n)" "marker_path root" for n])
qed

lemma last_known_good_ready:
  assumes "archive_ready root w" "marker root w = Some r" "revision_text root w r = Some s" "r > 0"
  shows "\<exists>x. run_state (last_known_good root) w = (x, w) \<and> lkg_revision x = Some r \<and>
    last_known_good_ok x"
proof -
  from load_revision_ready [OF assms(1,3,4)] obtain x where
    load: "run_state (load_revision root r) w = (x, w)" "revision_read_ok x" by blast
  from assms(2) obtain n where n: "entries w (marker_path root) = Some n" "marker_intact (effective_uid w) n"
    "parse_marker (content n) = Some r"
    by (auto simp: marker_def marker_view_def split: option.splits if_splits)
  then have "kind n \<noteq> Symbolic_link" "0 < length (content n)"
    and line: "content n \<noteq> []" "last (content n) = newline"
    by (auto simp: marker_intact_def private_regular_file_def file_size_def parse_marker_def
        split: if_splits)
  with load n assms(1) archive_ready_script [OF assms(1)] show ?thesis
    by (simp add: last_known_good_def file_size_def last_known_good_ok_def)
qed

text \<open>
  What is stored comes back: in a fault-free archive, storing a private candidate under a fresh
  revision number, marking it and asking for the last known good revision yields that number, and
  loading it yields the candidate's bytes.
\<close>

theorem store_mark_recall_load:
  assumes "archive_ready root w" and "revision > 0"
    and "entries w (revision_path root revision) = None"
    and "entries w source = Some n" and "private_regular_file (effective_uid w) n"
    and "length (content n) \<le> maximum_revision_size"
  shows "case run_state (do {
            stored_result \<leftarrow> store_revision root revision source;
            marked \<leftarrow> mark_last_known_good root revision;
            recalled \<leftarrow> last_known_good root;
            loaded \<leftarrow> load_revision root revision;
            return (stored_result, marked, recalled, loaded) }) w of
      ((stored_result, marked, recalled, loaded), w') \<Rightarrow>
        revision_write_ok stored_result \<and> last_known_good_ok marked \<and>
        lkg_revision recalled = Some revision \<and>
        revision_read_ok loaded \<and> rr_content loaded = content n"
proof -
  from store_revision_ready [OF assms] obtain x1 w1 where s1:
    "run_state (store_revision root revision source) w = (x1, w1)" "revision_write_ok x1"
    "archive_ready root w1" by blast
  have "store_revision_effect root revision source x1 w w1"
    by (rule wpD [OF wp_store_revision s1(1)])
  with s1(2) assms(4) have text1: "revision_text root w1 revision = Some (content n)"
    by (auto simp: store_revision_effect_def)
  from mark_ready [OF s1(3) text1 assms(2)] obtain x2 w2 where s2:
    "run_state (mark_last_known_good root revision) w1 = (x2, w2)" "last_known_good_ok x2"
    "archive_ready root w2" by (auto simp: last_known_good_ok_def)
  have "mark_effect root revision x2 w1 w2"
    by (rule wpD [OF wp_mark_last_known_good s2(1)])
  with s2(2) text1 have two: "marker root w2 = Some revision"
    "revision_text root w2 revision = Some (content n)" by (auto simp: mark_effect_def)
  from last_known_good_ready [OF s2(3) two assms(2)] load_revision_ready [OF s2(3) two(2) assms(2)]
    s1 s2 show ?thesis by auto
qed

definition sample_candidate :: node where
  "sample_candidate = \<lparr>kind = Regular_file, owner = 0, group = 0, mode = 384, links = 1, inode = 7,
     content = ''pass all''\<rparr>"

lemma store_mark_recall_load_witness:
  "case run_state (do {
            stored_result \<leftarrow> store_revision ''/r'' 5 (''/c'', ''x'');
            marked \<leftarrow> mark_last_known_good ''/r'' 5;
            recalled \<leftarrow> last_known_good ''/r'';
            loaded \<leftarrow> load_revision ''/r'' 5;
            return (stored_result, marked, recalled, loaded) })
       (put_entry (''/c'', ''x'') (Some sample_candidate) idle_world) of
      ((stored_result, marked, recalled, loaded), w') \<Rightarrow>
        revision_write_ok stored_result \<and> last_known_good_ok marked \<and>
        lkg_revision recalled = Some 5 \<and>
        revision_read_ok loaded \<and> rr_content loaded = content sample_candidate"
proof (rule store_mark_recall_load)
  let ?w = "put_entry (''/c'', ''x'') (Some sample_candidate) idle_world"
  show "archive_ready ''/r'' ?w"
    by (simp add: archive_ready_def idle_world_def is_absolute_def safe_directory_def private_directory_def)
  show "entries ?w (revision_path ''/r'' 5) = None"
    by (simp add: revision_path_def idle_world_def)
  show "entries ?w (''/c'', ''x'') = Some sample_candidate" by simp
  show "private_regular_file (effective_uid ?w) sample_candidate"
    by (simp add: private_regular_file_def sample_candidate_def idle_world_def)
  show "length (content sample_candidate) \<le> maximum_revision_size"
    by (simp add: sample_candidate_def maximum_revision_size_def)
qed simp

end
