(* ===== verification/Candidate_Store.thy ===== *)
theory Candidate_Store
  imports Revision_Store
begin

text \<open>
  Staging of rendered candidates (\<open>candidate_store.cpp\<close>): one new private file per operation
  id, never a replacement, no NUL byte, at most 1 MiB, removed again when it cannot be completed.
\<close>

section \<open>The stage operation\<close>

datatype stage_status =
    Staged | Stage_invalid_operation_id | Stage_invalid_content | Stage_unsafe_root
  | Stage_already_exists | Stage_io_error

record stage_result =
  stage_status :: stage_status
  stage_candidate_path :: "path option"
  stage_event_id :: string
  stage_message :: string

definition stage_ok :: "stage_result \<Rightarrow> bool" where
  "stage_ok r \<longleftrightarrow> stage_status r = Staged"

definition is_valid_operation_id :: "string \<Rightarrow> bool" where
  "is_valid_operation_id v \<longleftrightarrow>
     (if v = [] \<or> length v > 64 \<or> \<not> is_ascii_alphanumeric (hd v) then False
      else list_all (\<lambda>c. is_ascii_alphanumeric c \<or> c = CHR ''-'' \<or> c = CHR ''_'' \<or> c = CHR ''.'') v)"

definition stage_failure :: "stage_status \<Rightarrow> string \<Rightarrow> string \<Rightarrow> stage_result" where
  "stage_failure s e m =
     \<lparr>stage_status = s, stage_candidate_path = None, stage_event_id = e, stage_message = m\<rparr>"

definition maximum_candidate_size :: nat where "maximum_candidate_size = 1024 * 1024"

definition candidate_path :: "string \<Rightarrow> string \<Rightarrow> path" where
  "candidate_path root operation_id = (root, operation_id @ ''.pf.conf'')"

text \<open>From the opened staging root on.\<close>

definition write_candidate :: "path \<Rightarrow> string \<Rightarrow> stage_result io" where
  "write_candidate p candidate = do {
     created_file \<leftarrow> create_exclusive p 384;
     if \<not> created_file then do {
       open_error \<leftarrow> saved_errno;
       close_descriptor;
       if open_error = EEXIST
       then return (stage_failure Stage_already_exists ''GH-STAGE-1004''
         ''A candidate already exists for this operation ID.'')
       else do {
         text \<leftarrow> strerror_of open_error;
         return (stage_failure Stage_io_error ''GH-STAGE-2001'' (''Could not create candidate: '' @ text))
       }
     }
     else do {
       complete \<leftarrow> write_temporary p candidate;
       successful \<leftarrow> (if complete then fsync else return False);
       if \<not> successful then do {
         write_error \<leftarrow> saved_errno;
         unlink p;
         close_descriptor;
         text \<leftarrow> strerror_of write_error;
         return (stage_failure Stage_io_error ''GH-STAGE-2002'' (''Could not persist candidate: '' @ text))
       }
       else do {
         close_descriptor;
         return \<lparr>stage_status = Staged, stage_candidate_path = Some p,
           stage_event_id = ''GH-STAGE-0001'', stage_message = ''PF candidate staged successfully.''\<rparr>
       }
     }
   }"

definition stage :: "string \<Rightarrow> string \<Rightarrow> string \<Rightarrow> stage_result io" where
  "stage root operation_id candidate =
     (if \<not> is_valid_operation_id operation_id
      then return (stage_failure Stage_invalid_operation_id ''GH-STAGE-1001''
        ''Operation ID contains unsupported characters or has an invalid length.'')
      else if length candidate > maximum_candidate_size \<or> CHR 0x00 \<in> set candidate
      then return (stage_failure Stage_invalid_content ''GH-STAGE-1002''
        ''Candidate is too large or contains a NUL byte.'')
      else if \<not> is_absolute root
      then return (stage_failure Stage_unsafe_root ''GH-STAGE-1003''
        ''Staging root must be an absolute path.'')
      else do {
        st \<leftarrow> stat_directory root;
        uid \<leftarrow> gets effective_uid;
        if (case st of None \<Rightarrow> True | Some d \<Rightarrow> \<not> safe_directory uid d)
        then return (stage_failure Stage_unsafe_root ''GH-STAGE-1003''
          ''Staging root must be a non-symlink directory owned by the current user and not group/world writable.'')
        else do {
          opened \<leftarrow> open_directory root;
          if \<not> opened then return (stage_failure Stage_unsafe_root ''GH-STAGE-1003''
            ''Staging root could not be opened safely.'')
          else write_candidate (candidate_path root operation_id) candidate
        }
      })"

section \<open>What staging does\<close>

definition stage_effect ::
  "string \<Rightarrow> string \<Rightarrow> string \<Rightarrow> stage_result \<Rightarrow> world \<Rightarrow> world \<Rightarrow> bool" where
  "stage_effect root operation_id candidate r w w' \<longleftrightarrow>
     store_frame root w w' \<and> only_touches {candidate_path root operation_id} w w' \<and>
     (entries w (candidate_path root operation_id) \<noteq> None \<longrightarrow>
        entries w' (candidate_path root operation_id) = entries w (candidate_path root operation_id)) \<and>
     (stage_ok r \<longrightarrow>
        is_valid_operation_id operation_id \<and> is_absolute root \<and>
        stage_candidate_path r = Some (candidate_path root operation_id) \<and>
        entries w (candidate_path root operation_id) = None \<and>
        CHR 0x00 \<notin> set candidate \<and> length candidate \<le> maximum_candidate_size \<and>
        (\<exists>n. entries w' (candidate_path root operation_id) = Some n \<and> content n = candidate \<and>
             private_regular_file (effective_uid w) n))"

lemma candidate_path_fst [simp]: "fst (candidate_path root op) = root"
  by (simp add: candidate_path_def)

lemma stage_ok_simps [simp]:
  "s \<noteq> Staged \<Longrightarrow> \<not> stage_ok (stage_failure s a b)"
  "stage_ok \<lparr>stage_status = Staged, stage_candidate_path = p, stage_event_id = a, stage_message = b\<rparr>"
  by (simp_all add: stage_ok_def stage_failure_def)

lemma stage_effect_start [simp]:
  "stage_effect root op c r (w\<lparr>script := rs\<rparr>) w' = stage_effect root op c r w w'"
  "stage_effect root op c r (w\<lparr>last_errno := e\<rparr>) w' = stage_effect root op c r w w'"
  by (simp_all add: stage_effect_def)

lemma stage_effect_quiet [simp]:
  "s \<noteq> Staged \<Longrightarrow> stage_effect root op c (stage_failure s a b) w w"
  "s \<noteq> Staged \<Longrightarrow> stage_effect root op c (stage_failure s a b) w (settle rs e w)"
  by (simp_all add: stage_effect_def)

lemma stage_effect_new:
  assumes "entries w (candidate_path root op) = None" "s \<noteq> Staged"
  shows "stage_effect root op c (stage_failure s a b) w
      (settle rs e (put_entry (candidate_path root op) n (w\<lparr>next_inode := i\<rparr>)))"
    "stage_effect root op c (stage_failure s a b) w (settle rs e (created (candidate_path root op) m w))"
  using assms by (simp_all add: stage_effect_def)

lemma stage_effect_staged:
  assumes "entries w (candidate_path root op) = None" "is_valid_operation_id op" "is_absolute root"
    "CHR 0x00 \<notin> set c" "length c \<le> maximum_candidate_size"
  shows "stage_effect root op c \<lparr>stage_status = Staged, stage_candidate_path = Some (candidate_path root op),
      stage_event_id = a, stage_message = b\<rparr> w
      (settle rs e (put_entry (candidate_path root op)
        (Some ((fresh_file 384 w)\<lparr>content := c\<rparr>)) (w\<lparr>next_inode := i\<rparr>)))"
  using assms by (auto simp: stage_effect_def private_regular_file_def)

lemma wp_write_candidate:
  assumes "is_valid_operation_id op" "is_absolute root" "CHR 0x00 \<notin> set c"
    "length c \<le> maximum_candidate_size"
    and "\<And>r w'. stage_effect root op c r w w' \<Longrightarrow> Q r w'"
  shows "wp (write_candidate (candidate_path root op) c) Q w"
  using assms(1-4) unfolding write_candidate_def
  by (auto simp: stage_effect_new stage_effect_staged intro!: wp_rule assms(5))

lemma wp_stage [wp_rule]:
  assumes "\<And>r w'. stage_effect root op c r w w' \<Longrightarrow> Q r w'"
  shows "wp (stage root op c) Q w"
  unfolding stage_def
  by (auto split: option.splits intro!: wp_rule wp_write_candidate assms)

text \<open>A staged candidate and every older file survive any later staging, under any faults.\<close>

lemma staged_files_survive:
  "case run_state (stage root op c) w of (r, w') \<Rightarrow>
     (case entries w p of None \<Rightarrow> True | Some n \<Rightarrow> entries w' p = Some n)"
proof -
  have "wp (stage root op c) (\<lambda>r w'. stage_effect root op c r w w') w" by (rule wp_stage)
  then show ?thesis
    by (cases "p = candidate_path root op")
      (auto simp: wp_def stage_effect_def dest: only_touches_entry [where p = p]
        split: option.splits prod.splits)
qed

end
