(* ===== verification/Pfctl.thy ===== *)
theory Pfctl
  imports Candidate_Store
begin

text \<open>
  The two uses of \<open>/sbin/pfctl\<close>: checking a candidate with \<open>-nf\<close>
  (\<open>native_validator.cpp\<close>) and loading a revision with \<open>-f\<close>
  (\<open>pfctl_loader.cpp\<close>). The program itself is outside the model: \<open>processes\<close> of the
  world answers for it. Both record the run among the visible actions, with the files it saw.
\<close>

section \<open>Running a process\<close>

text \<open>
  The argument check of \<open>PosixProcessRunner::run\<close>; the rest of the runner is the theory
  \<open>Process_Runner\<close>.
\<close>

definition run_process :: "string \<Rightarrow> string list \<Rightarrow> int \<Rightarrow> process_result io" where
  "run_process exe arguments timeout =
     (if \<not> is_absolute exe \<or> timeout \<le> 0
      then return \<lparr>launched = False, timed_out = False, output_truncated = False, exit_code = - 1,
        standard_output = [], standard_error = [],
        error_message = ''Executable path must be absolute and timeout must be positive.''\<rparr>
      else execute exe arguments)"

text \<open>The common classification: not executed, timed out, refused, accepted.\<close>

definition execution_failed :: "process_result \<Rightarrow> bool" where
  "execution_failed p \<longleftrightarrow>
     \<not> launched p \<or> exit_code p = 126 \<or> exit_code p = 127 \<or> error_message p \<noteq> []"

definition process_accepted :: "process_result \<Rightarrow> bool" where
  "process_accepted p \<longleftrightarrow>
     launched p \<and> exit_code p = 0 \<and> \<not> timed_out p \<and> error_message p = []"

section \<open>Native validation\<close>

datatype native_status =
  Native_valid | Native_rejected | Native_timed_out | Native_execution_error | Native_unsafe_candidate

record native_result =
  nv_status :: native_status
  nv_event_id :: string
  nv_exit_code :: int
  nv_output_truncated :: bool
  nv_standard_output :: string
  nv_standard_error :: string
  nv_message :: string

definition native_ok :: "native_result \<Rightarrow> bool" where
  "native_ok r \<longleftrightarrow> nv_status r = Native_valid"

definition unsafe_candidate :: "string \<Rightarrow> native_result" where
  "unsafe_candidate m =
     \<lparr>nv_status = Native_unsafe_candidate, nv_event_id = ''GH-PF-1001'', nv_exit_code = - 1,
      nv_output_truncated = False, nv_standard_output = [], nv_standard_error = [], nv_message = m\<rparr>"

definition native_outcome :: "native_status \<Rightarrow> string" where
  "native_outcome s = (case s of
       Native_valid \<Rightarrow> ''succeeded''
     | Native_rejected \<Rightarrow> ''rejected''
     | Native_unsafe_candidate \<Rightarrow> ''rejected''
     | Native_timed_out \<Rightarrow> ''timed_out''
     | Native_execution_error \<Rightarrow> ''failed'')"

definition bool_string :: "bool \<Rightarrow> string" where
  "bool_string b = (if b then ''true'' else ''false'')"

definition make_validation_event :: "native_result \<Rightarrow> string \<Rightarrow> string \<Rightarrow> u64 \<Rightarrow> event" where
  "make_validation_event r timestamp op revision =
     \<lparr>ev_timestamp = timestamp, ev_severity = (if native_ok r then Info else Warning),
      ev_event_id = nv_event_id r, ev_component = ''native-pf-validator'', ev_operation_id = op,
      ev_action = ''pf.ruleset.validate'', ev_outcome = native_outcome (nv_status r),
      ev_message = nv_message r,
      ev_attributes = attribute_map [(''exit_code'', int_string (nv_exit_code r)),
        (''output_truncated'', bool_string (nv_output_truncated r)),
        (''revision'', decimal (unat revision))]\<rparr>"

definition native_result_of :: "native_status \<Rightarrow> string \<Rightarrow> string \<Rightarrow> process_result \<Rightarrow> native_result" where
  "native_result_of s e m p =
     \<lparr>nv_status = s, nv_event_id = e, nv_exit_code = exit_code p,
      nv_output_truncated = output_truncated p, nv_standard_output = standard_output p,
      nv_standard_error = standard_error p, nv_message = m\<rparr>"

definition classify_validation :: "process_result \<Rightarrow> native_result" where
  "classify_validation p =
     (if execution_failed p
      then native_result_of Native_execution_error ''GH-PF-2001''
        (if error_message p = [] then ''Could not execute native PF validation.'' else error_message p) p
      else if timed_out p
      then native_result_of Native_timed_out ''GH-PF-2002'' ''Native PF validation exceeded its time limit.'' p
      else if exit_code p \<noteq> 0
      then native_result_of Native_rejected ''GH-PF-1002'' ''Native PF validation rejected the candidate.'' p
      else native_result_of Native_valid ''GH-PF-0001'' ''Native PF validation accepted the candidate.'' p)"

record pfctl =
  pfctl_executable :: string
  pfctl_timeout :: int

definition validate_candidate :: "pfctl \<Rightarrow> path \<Rightarrow> native_result io" where
  "validate_candidate v p =
     (if \<not> is_absolute (fst p) then return (unsafe_candidate ''Candidate path must be absolute.'')
      else do {
        st \<leftarrow> stat_entry p;
        uid \<leftarrow> gets effective_uid;
        if (case st of None \<Rightarrow> True | Some n \<Rightarrow> \<not> private_regular_file uid n)
        then return (unsafe_candidate
          ''Candidate must be a private regular, non-symlink file owned by the current user.'')
        else do {
          process \<leftarrow> run_process (pfctl_executable v) [''-nf'', path_string p] (pfctl_timeout v);
          return (classify_validation process)
        }
      })"

section \<open>Loading\<close>

datatype load_status =
  Load_loaded | Load_rejected | Load_timed_out | Load_execution_error | Load_unsafe_revision

record load_result =
  pl_status :: load_status
  pl_event_id :: string
  pl_exit_code :: int
  pl_output_truncated :: bool
  pl_standard_output :: string
  pl_standard_error :: string
  pl_message :: string

definition load_ok :: "load_result \<Rightarrow> bool" where
  "load_ok r \<longleftrightarrow> pl_status r = Load_loaded"

definition unsafe_revision :: "string \<Rightarrow> load_result" where
  "unsafe_revision m =
     \<lparr>pl_status = Load_unsafe_revision, pl_event_id = ''GH-PF-1003'', pl_exit_code = - 1,
      pl_output_truncated = False, pl_standard_output = [], pl_standard_error = [], pl_message = m\<rparr>"

definition load_result_of :: "load_status \<Rightarrow> string \<Rightarrow> string \<Rightarrow> process_result \<Rightarrow> load_result" where
  "load_result_of s e m p =
     \<lparr>pl_status = s, pl_event_id = e, pl_exit_code = exit_code p,
      pl_output_truncated = output_truncated p, pl_standard_output = standard_output p,
      pl_standard_error = standard_error p, pl_message = m\<rparr>"

definition classify_load :: "process_result \<Rightarrow> load_result" where
  "classify_load p =
     (if execution_failed p
      then load_result_of Load_execution_error ''GH-PF-2003''
        (if error_message p = [] then ''Could not execute native PF activation.'' else error_message p) p
      else if timed_out p
      then load_result_of Load_timed_out ''GH-PF-2004'' ''Native PF activation exceeded its time limit.'' p
      else if exit_code p \<noteq> 0
      then load_result_of Load_rejected ''GH-PF-1004'' ''Native PF activation rejected the revision.'' p
      else load_result_of Load_loaded ''GH-PF-0002'' ''Native PF activation loaded the revision.'' p)"

definition load_ruleset :: "pfctl \<Rightarrow> path \<Rightarrow> load_result io" where
  "load_ruleset v p =
     (if \<not> is_absolute (fst p) then return (unsafe_revision ''Revision path must be absolute.'')
      else do {
        st \<leftarrow> stat_entry p;
        uid \<leftarrow> gets effective_uid;
        if (case st of None \<Rightarrow> True | Some n \<Rightarrow> \<not> private_regular_file uid n)
        then return (unsafe_revision
          ''Revision must be a private regular, non-symlink file owned by the current user.'')
        else do {
          process \<leftarrow> run_process (pfctl_executable v) [''-f'', path_string p] (pfctl_timeout v);
          return (classify_load process)
        }
      })"

section \<open>Rules\<close>

lemma native_ok_simps [simp]:
  "\<not> native_ok (unsafe_candidate m)"
  "native_ok (classify_validation p) \<longleftrightarrow> process_accepted p"
  by (auto simp: native_ok_def unsafe_candidate_def classify_validation_def native_result_of_def
      process_accepted_def execution_failed_def)

lemma load_ok_simps [simp]:
  "\<not> load_ok (unsafe_revision m)"
  "load_ok (classify_load p) \<longleftrightarrow> process_accepted p"
  by (auto simp: load_ok_def unsafe_revision_def classify_load_def load_result_of_def
      process_accepted_def execution_failed_def)

definition pfctl_effect :: "pfctl \<Rightarrow> string \<Rightarrow> path \<Rightarrow> bool \<Rightarrow> world \<Rightarrow> world \<Rightarrow> bool" where
  "pfctl_effect v flag p ok w w' \<longleftrightarrow>
     same_setting w w' \<and> entries w' = entries w \<and>
     (actions w' = actions w \<and> \<not> ok \<or>
      (\<exists>n process. entries w p = Some n \<and> private_regular_file (effective_uid w) n \<and>
         actions w' = actions w @
           [Executed (pfctl_executable v) [flag, path_string p] (entries w) process] \<and>
         (ok \<longleftrightarrow> process_accepted process)))"

lemma wp_run_process:
  assumes "\<And>r. \<not> process_accepted r \<Longrightarrow> Q r w"
    and "\<And>r. Q r (w\<lparr>processes_run := Suc (processes_run w),
           actions := actions w @ [Executed exe argv (entries w) r]\<rparr>)"
  shows "wp (run_process exe argv t) Q w"
  unfolding run_process_def
  by (auto simp: process_accepted_def intro!: wp_rule assms)

lemma pfctl_effect_quiet [simp]:
  "pfctl_effect v flag p False w w" "pfctl_effect v flag p False w (settle rs e w)"
  by (simp_all add: pfctl_effect_def)

lemma wp_validate_candidate [wp_rule]:
  assumes "\<And>r w'. pfctl_effect v ''-nf'' p (native_ok r) w w' \<Longrightarrow> Q r w'"
  shows "wp (validate_candidate v p) Q w"
  unfolding validate_candidate_def
  by (auto simp: pfctl_effect_def intro!: wp_rule wp_run_process assms)

lemma wp_load_ruleset [wp_rule]:
  assumes "\<And>r w'. pfctl_effect v ''-f'' p (load_ok r) w w' \<Longrightarrow> Q r w'"
  shows "wp (load_ruleset v p) Q w"
  unfolding load_ruleset_def
  by (auto simp: pfctl_effect_def intro!: wp_rule wp_run_process assms)

section \<open>Reading the visible actions\<close>

text \<open>The runs of \<open>pfctl\<close> with a flag, in order: the path argument, the files, the result.\<close>

fun runs_with :: "string \<Rightarrow> visible_action list \<Rightarrow> (string \<times> files \<times> process_result) list" where
  "runs_with flag [] = []"
| "runs_with flag (a # as) =
     (case a of
        Executed exe [f, p] fs r \<Rightarrow> (if f = flag then [(p, fs, r)] else [])
      | _ \<Rightarrow> []) @ runs_with flag as"

abbreviation loads :: "world \<Rightarrow> (string \<times> files \<times> process_result) list" where
  "loads w \<equiv> runs_with ''-f'' (actions w)"

abbreviation checks :: "world \<Rightarrow> (string \<times> files \<times> process_result) list" where
  "checks w \<equiv> runs_with ''-nf'' (actions w)"

lemma runs_with_append [simp]: "runs_with flag (a @ b) = runs_with flag a @ runs_with flag b"
  by (induction a) auto

lemma runs_with_audited [simp]: "runs_with flag (map Audited es) = []"
  by (induction es) auto

fun audits :: "visible_action list \<Rightarrow> event list" where
  "audits [] = []"
| "audits (a # as) = (case a of Audited e \<Rightarrow> [e] | _ \<Rightarrow> []) @ audits as"

lemma audits_append [simp]: "audits (a @ b) = audits a @ audits b"
  by (induction a) auto

lemma pfctl_effect_actions:
  assumes "pfctl_effect v flag p ok w w'"
  shows "audits (actions w') = audits (actions w)"
    and "flag \<noteq> flag' \<Longrightarrow> runs_with flag' (actions w') = runs_with flag' (actions w)"
    and "\<exists>new. runs_with flag (actions w') = runs_with flag (actions w) @ new"
  using assms by (auto simp: pfctl_effect_def)

lemma pfctl_effect_ok:
  assumes "pfctl_effect v flag p True w w'"
  obtains n process where "entries w p = Some n" "private_regular_file (effective_uid w) n"
    "process_accepted process"
    "runs_with flag (actions w') = runs_with flag (actions w) @ [(path_string p, entries w, process)]"
  using assms by (auto simp: pfctl_effect_def)

end
