(* ===== verification/Rule_Model.thy ===== *)
theory Rule_Model
  imports Prelude "HOL-Library.Sublist"
begin

text \<open>
  The portable firewall model and its validation (\<open>model.cpp\<close>, \<open>model.hpp\<close>).
  \<open>inet_pton\<close> is C library code: a parameter \<open>pton\<close> of the definitions, told apart by
  address family, applied to the text as C sees it, up to the first NUL. The main lemma is that a
  rule set passes exactly when it is well formed.
\<close>

section \<open>Data\<close>

datatype rule_action = Block | Pass
datatype direction = Any_direction | Inbound | Outbound
datatype address_family = Any_family | Inet | Inet6
datatype transport = Any_protocol | Tcp | Udp | Icmp | Icmp6

record endpoint =
  network :: string
  port :: "16 word option"

record rule =
  rule_id :: string
  description :: string
  rule_action :: rule_action
  rule_direction :: direction
  rule_family :: address_family
  rule_interface :: string
  rule_protocol :: transport
  source :: endpoint
  destination :: endpoint
  rule_log :: bool
  rule_quick :: bool
  rule_enabled :: bool

record rule_set =
  rs_revision :: u64
  rs_rules :: "rule list"

record validation_issue =
  issue_code :: string
  issue_field :: string
  issue_message :: string

type_synonym validation_report = "validation_issue list"

text \<open>\<open>inet_pton(family, text) == 1\<close>\<close>

type_synonym address_parser = "address_family \<Rightarrow> string \<Rightarrow> bool"

definition report_ok :: "validation_report \<Rightarrow> bool" where
  "report_ok r \<longleftrightarrow> r = []"

definition issue :: "string \<Rightarrow> string \<Rightarrow> string \<Rightarrow> validation_issue" where
  "issue code field m = \<lparr>issue_code = code, issue_field = field, issue_message = m\<rparr>"

definition add_if :: "bool \<Rightarrow> validation_issue \<Rightarrow> validation_report \<Rightarrow> validation_report" where
  "add_if b i r = (if b then r @ [i] else r)"

section \<open>Field checks\<close>

definition is_identifier_character :: "char \<Rightarrow> bool" where
  "is_identifier_character c \<longleftrightarrow>
     is_ascii_alphanumeric c \<or> c = CHR ''.'' \<or> c = CHR ''_'' \<or> c = CHR ''-''"

definition is_valid_rule_id :: "string \<Rightarrow> bool" where
  "is_valid_rule_id v \<longleftrightarrow>
     (if v = [] \<or> length v > 64 then False
      else is_ascii_alphanumeric (hd v) \<and> list_all is_identifier_character v)"

definition is_valid_interface :: "string \<Rightarrow> bool" where
  "is_valid_interface v \<longleftrightarrow>
     (if v = [] then True
      else if length v > 15 then False
      else is_ascii_letter (hd v) \<and> list_all is_identifier_character v)"

definition is_control_character :: "char \<Rightarrow> bool" where
  "is_control_character c \<longleftrightarrow> (of_char c :: nat) < 32 \<or> (of_char c :: nat) = 127"

definition contains_control_character :: "string \<Rightarrow> bool" where
  "contains_control_character v \<longleftrightarrow> list_ex is_control_character v"

text \<open>What a C function sees of a \<open>std::string\<close>.\<close>

definition c_string :: "string \<Rightarrow> string" where
  "c_string s = takeWhile (\<lambda>c. c \<noteq> CHR 0x00) s"

record parsed_network =
  network_valid :: bool
  network_family :: address_family

definition no_network :: parsed_network where
  "no_network = \<lparr>network_valid = False, network_family = Any_family\<rparr>"

definition parse_address :: "address_parser \<Rightarrow> string \<Rightarrow> (address_family \<times> nat) option" where
  "parse_address pton address =
     (if pton Inet (c_string address) then Some (Inet, 32)
      else if pton Inet6 (c_string address) then Some (Inet6, 128)
      else None)"

definition parse_network :: "address_parser \<Rightarrow> string \<Rightarrow> parsed_network" where
  "parse_network pton net =
     (if net = ''any'' then \<lparr>network_valid = True, network_family = Any_family\<rparr>
      else
        let address = takeWhile (\<lambda>c. c \<noteq> CHR ''/'') net;
            rest = dropWhile (\<lambda>c. c \<noteq> CHR ''/'') net
        in if rest \<noteq> [] \<and> CHR ''/'' \<in> set (tl rest) then no_network
           else if address = [] then no_network
           else (case parse_address pton address of
                   None \<Rightarrow> no_network
                 | Some (family, maximum_prefix) \<Rightarrow>
                     (if rest = [] then \<lparr>network_valid = True, network_family = family\<rparr>
                      else if tl rest = [] then no_network
                      else (case from_chars 4294967295 (tl rest) of
                              (err, prefix_length, unread) \<Rightarrow>
                                (if err \<noteq> Conversion_ok \<or> unread \<noteq> [] \<or> prefix_length > maximum_prefix
                                 then no_network
                                 else \<lparr>network_valid = True, network_family = family\<rparr>)))))"

definition validate_endpoint ::
  "address_parser \<Rightarrow> endpoint \<Rightarrow> string \<Rightarrow> address_family \<Rightarrow> validation_report \<Rightarrow> validation_report" where
  "validate_endpoint pton e field expected r =
     (let parsed = parse_network pton (network e)
      in if \<not> network_valid parsed then r @ [issue ''GH-CFG-1004'' (field @ ''.network'')
           ''Network must be 'any' or a numeric IPv4/IPv6 address with an optional prefix.'']
         else if expected \<noteq> Any_family \<and> network_family parsed \<noteq> Any_family \<and>
                 network_family parsed \<noteq> expected
         then r @ [issue ''GH-CFG-1005'' (field @ ''.network'')
           ''Network does not match the rule address family.'']
         else r)"

section \<open>Rules and rule sets\<close>

definition validate_rule :: "address_parser \<Rightarrow> rule \<Rightarrow> validation_report" where
  "validate_rule pton r =
     (let report = add_if (\<not> is_valid_rule_id (rule_id r)) (issue ''GH-CFG-1001'' ''id''
            ''Rule ID must be 1-64 ASCII letters, digits, dots, underscores, or hyphens and start with a letter or digit.'') [];
          report = add_if (length (description r) > 160 \<or> contains_control_character (description r))
            (issue ''GH-CFG-1002'' ''description''
              ''Description must be at most 160 characters and contain no control characters.'') report;
          report = add_if (\<not> is_valid_interface (rule_interface r)) (issue ''GH-CFG-1003'' ''interface''
            ''Interface must be empty or a safe OpenBSD interface name of at most 15 characters.'') report;
          report = validate_endpoint pton (source r) ''source'' (rule_family r) report;
          report = validate_endpoint pton (destination r) ''destination'' (rule_family r) report;
          source_family = network_family (parse_network pton (network (source r)));
          destination_family = network_family (parse_network pton (network (destination r)));
          report = add_if (rule_family r = Any_family \<and> source_family \<noteq> Any_family \<and>
              destination_family \<noteq> Any_family \<and> source_family \<noteq> destination_family)
            (issue ''GH-CFG-1006'' ''address_family''
              ''Source and destination must use the same address family.'') report;
          report = add_if ((port (source r) \<noteq> None \<or> port (destination r) \<noteq> None) \<and>
              rule_protocol r \<noteq> Tcp \<and> rule_protocol r \<noteq> Udp)
            (issue ''GH-CFG-1007'' ''protocol'' ''Ports are allowed only for TCP or UDP rules.'') report;
          report = add_if (rule_protocol r = Icmp \<and> rule_family r = Inet6)
            (issue ''GH-CFG-1008'' ''protocol''
              ''ICMP cannot be used with the inet6 address family; use ICMPv6.'') report
      in add_if (rule_protocol r = Icmp6 \<and> rule_family r = Inet)
           (issue ''GH-CFG-1009'' ''protocol''
             ''ICMPv6 cannot be used with the inet address family.'') report)"

definition indexed :: "nat \<Rightarrow> string \<Rightarrow> string" where
  "indexed index field = ''rules['' @ decimal index @ ''].'' @ field"

text \<open>The loop over the rules; \<open>identifiers\<close> is the \<open>std::set\<close> of ids seen.\<close>

fun validate_rules ::
  "address_parser \<Rightarrow> nat \<Rightarrow> string set \<Rightarrow> rule list \<Rightarrow> validation_report \<Rightarrow> validation_report" where
  "validate_rules pton index identifiers [] report = report"
| "validate_rules pton index identifiers (r # rs) report =
     (let report1 = report @ map (\<lambda>i. issue (issue_code i) (indexed index (issue_field i)) (issue_message i))
            (validate_rule pton r);
          report2 = add_if (rule_id r \<noteq> [] \<and> rule_id r \<in> identifiers)
            (issue ''GH-CFG-1010'' (indexed index ''id'')
              ''Rule IDs must be unique within a ruleset.'') report1
      in validate_rules pton (Suc index)
           (if rule_id r \<noteq> [] then insert (rule_id r) identifiers else identifiers) rs report2)"

definition validate_rule_set :: "address_parser \<Rightarrow> rule_set \<Rightarrow> validation_report" where
  "validate_rule_set pton s =
     validate_rules pton 0 {} (rs_rules s)
       (add_if (rs_revision s = 0) (issue ''GH-CFG-1011'' ''revision''
         ''Revision number must be greater than zero.'') [])"

definition action_string :: "rule_action \<Rightarrow> string" where
  "action_string a = (case a of Block \<Rightarrow> ''block'' | Pass \<Rightarrow> ''pass'')"

definition direction_string :: "direction \<Rightarrow> string" where
  "direction_string d = (case d of Any_direction \<Rightarrow> [] | Inbound \<Rightarrow> ''in'' | Outbound \<Rightarrow> ''out'')"

definition family_string :: "address_family \<Rightarrow> string" where
  "family_string f = (case f of Any_family \<Rightarrow> [] | Inet \<Rightarrow> ''inet'' | Inet6 \<Rightarrow> ''inet6'')"

definition protocol_string :: "transport \<Rightarrow> string" where
  "protocol_string p = (case p of Any_protocol \<Rightarrow> [] | Tcp \<Rightarrow> ''tcp'' | Udp \<Rightarrow> ''udp''
     | Icmp \<Rightarrow> ''icmp'' | Icmp6 \<Rightarrow> ''icmp6'')"

section \<open>Passing validation is being well formed\<close>

definition families :: "address_parser \<Rightarrow> rule \<Rightarrow> address_family list" where
  "families pton r =
     filter (\<lambda>f. f \<noteq> Any_family)
       [rule_family r, network_family (parse_network pton (network (source r))),
        network_family (parse_network pton (network (destination r)))]"

text \<open>
  The rule model's own terms: safe texts, numeric networks, one address family throughout, ports
  for TCP and UDP only, the ICMP variant not against the rule's family.
\<close>

definition well_formed_rule :: "address_parser \<Rightarrow> rule \<Rightarrow> bool" where
  "well_formed_rule pton r \<longleftrightarrow>
     is_valid_rule_id (rule_id r) \<and>
     length (description r) \<le> 160 \<and> \<not> contains_control_character (description r) \<and>
     is_valid_interface (rule_interface r) \<and>
     network_valid (parse_network pton (network (source r))) \<and>
     network_valid (parse_network pton (network (destination r))) \<and>
     length (remdups (families pton r)) \<le> 1 \<and>
     (port (source r) = None \<and> port (destination r) = None \<or> rule_protocol r \<in> {Tcp, Udp}) \<and>
     (rule_protocol r, rule_family r) \<notin> {(Icmp, Inet6), (Icmp6, Inet)}"

lemma add_if_Nil [simp]: "add_if b i r = [] \<longleftrightarrow> \<not> b \<and> r = []"
  by (simp add: add_if_def)

lemma validate_endpoint_Nil [simp]:
  "validate_endpoint pton e field expected r = [] \<longleftrightarrow>
     r = [] \<and> network_valid (parse_network pton (network e)) \<and>
     (expected = Any_family \<or> network_family (parse_network pton (network e)) \<in> {Any_family, expected})"
  by (auto simp: validate_endpoint_def Let_def)

lemma validate_rule_Nil: "validate_rule pton r = [] \<longleftrightarrow> well_formed_rule pton r"
  unfolding validate_rule_def well_formed_rule_def families_def Let_def
  by (cases "rule_protocol r") auto

lemma validate_rules_Nil:
  "validate_rules pton index seen rs report = [] \<longleftrightarrow>
     report = [] \<and> list_all (well_formed_rule pton) rs \<and> distinct (map rule_id rs) \<and>
     rule_id ` set rs \<inter> seen = {}"
proof (induction pton index seen rs report rule: validate_rules.induct)
  case (2 pton index seen r rs report)
  then show ?case
    by (cases "well_formed_rule pton r")
      (auto simp: Let_def validate_rule_Nil well_formed_rule_def is_valid_rule_id_def)
qed simp


end
