(* ===== verification/Renderer.thy ===== *)
theory Renderer
  imports Rule_Model
begin

text \<open>
  Rendering of a validated rule set as PF configuration text (\<open>pf_renderer.cpp\<close>), and what
  PF reads in that text. The reader is a specification: it follows the documented lexical rules of
  \<open>pf.conf\<close> (a backslash at the end of a line continues it, \<open>#\<close> starts a comment,
  words are separated by blanks). The theorems show that the statements PF sees are the ones the
  rules stand for, and two conditions without which they are not.
\<close>

section \<open>The renderer\<close>

abbreviation blank :: char where "blank \<equiv> CHR '' ''"
abbreviation backslash :: char where "backslash \<equiv> CHR 0x5C"

definition append_token :: "string \<Rightarrow> string" where
  "append_token v = (if v = [] then [] else blank # v)"

definition append_endpoint :: "string \<Rightarrow> endpoint \<Rightarrow> string" where
  "append_endpoint keyword e =
     blank # keyword @ blank # network e @
     (case port e of None \<Rightarrow> [] | Some p \<Rightarrow> '' port '' @ decimal (unat p))"

definition append_rule :: "rule \<Rightarrow> string" where
  "append_rule r =
     newline # ''# rule '' @ rule_id r @
     (if description r \<noteq> [] then '': '' @ description r else []) @
     newline # action_string (rule_action r) @
     append_token (direction_string (rule_direction r)) @
     (if rule_log r then '' log'' else []) @
     (if rule_quick r then '' quick'' else []) @
     (if rule_interface r \<noteq> [] then '' on '' @ rule_interface r else []) @
     append_token (family_string (rule_family r)) @
     (if rule_protocol r \<noteq> Any_protocol then '' proto '' @ protocol_string (rule_protocol r) else []) @
     append_endpoint ''from'' (source r) @
     append_endpoint ''to'' (destination r) @
     (if rule_action r = Pass then '' keep state'' else []) @ [newline]"

record render_result =
  render_validation :: validation_report
  render_ruleset :: string

definition render_ok :: "render_result \<Rightarrow> bool" where
  "render_ok r \<longleftrightarrow> report_ok (render_validation r)"

definition render_header :: "u64 \<Rightarrow> string" where
  "render_header revision =
     ''# Generated by SASD Gatehold. DO NOT EDIT.'' @ newline #
     ''# Configuration revision: '' @ decimal (unat revision) @ newline # newline #
     ''set block-policy drop'' @ newline #
     ''set skip on lo'' @ newline # newline #
     ''block log all'' @ [newline]"

definition render_rule :: "rule \<Rightarrow> string" where
  "render_rule r =
     (if rule_enabled r then append_rule r
      else newline # ''# disabled rule '' @ rule_id r @ [newline])"

definition render :: "address_parser \<Rightarrow> rule_set \<Rightarrow> render_result" where
  "render pton s =
     (let report = validate_rule_set pton s
      in if \<not> report_ok report then \<lparr>render_validation = report, render_ruleset = []\<rparr>
         else \<lparr>render_validation = report,
               render_ruleset = render_header (rs_revision s) @ concat (map render_rule (rs_rules s))\<rparr>)"

section \<open>What PF reads\<close>

fun join_continued :: "string \<Rightarrow> string" where
  "join_continued [] = []"
| "join_continued (c # s) =
     (if c = backslash \<and> s \<noteq> [] \<and> hd s = newline then join_continued (tl s)
      else c # join_continued s)"

fun pieces :: "char \<Rightarrow> string \<Rightarrow> string list" where
  "pieces d [] = [[]]"
| "pieces d (c # s) =
     (if c = d then [] # pieces d s
      else (case pieces d s of [] \<Rightarrow> [[c]] | p # ps \<Rightarrow> (c # p) # ps))"

definition statement :: "string \<Rightarrow> string list" where
  "statement line = filter (\<lambda>v. v \<noteq> []) (pieces blank (takeWhile (\<lambda>c. c \<noteq> CHR ''#'') line))"

definition statements :: "string \<Rightarrow> string list list" where
  "statements config =
     filter (\<lambda>s. s \<noteq> []) (map statement (pieces newline (join_continued config)))"

text \<open>The words a rule stands for.\<close>

definition endpoint_words :: "string \<Rightarrow> endpoint \<Rightarrow> string list" where
  "endpoint_words keyword e =
     [keyword, network e] @ (case port e of None \<Rightarrow> [] | Some p \<Rightarrow> [''port'', decimal (unat p)])"

definition option_words :: "rule \<Rightarrow> string list" where
  "option_words r =
     (case rule_direction r of Any_direction \<Rightarrow> [] | Inbound \<Rightarrow> [''in''] | Outbound \<Rightarrow> [''out'']) @
     (if rule_log r then [''log''] else []) @
     (if rule_quick r then [''quick''] else []) @
     (if rule_interface r \<noteq> [] then [''on'', rule_interface r] else []) @
     (case rule_family r of Any_family \<Rightarrow> [] | Inet \<Rightarrow> [''inet''] | Inet6 \<Rightarrow> [''inet6'']) @
     (if rule_protocol r \<noteq> Any_protocol then [''proto'', protocol_string (rule_protocol r)] else []) @
     endpoint_words ''from'' (source r) @ endpoint_words ''to'' (destination r) @
     (if rule_action r = Pass then [''keep'', ''state''] else [])"

definition rule_words :: "rule \<Rightarrow> string list" where
  "rule_words r = action_string (rule_action r) # option_words r"

definition default_statements :: "string list list" where
  "default_statements =
     [[''set'', ''block-policy'', ''drop''], [''set'', ''skip'', ''on'', ''lo''], [''block'', ''log'', ''all'']]"

section \<open>Lines and words\<close>

definition plain_character :: "char \<Rightarrow> bool" where
  "plain_character c \<longleftrightarrow>
     c \<noteq> blank \<and> c \<noteq> newline \<and> c \<noteq> CHR ''#'' \<and> c \<noteq> backslash"

definition plain_word :: "string \<Rightarrow> bool" where
  "plain_word v \<longleftrightarrow> v \<noteq> [] \<and> list_all plain_character v"

definition spaced :: "string list \<Rightarrow> string" where
  "spaced ws = concat (map (\<lambda>v. blank # v) ws)"

lemma pieces_nonempty [simp]: "pieces d s \<noteq> []"
  by (cases s) (auto split: list.split)

lemma pieces_clean: "d \<notin> set l \<Longrightarrow> pieces d l = [l]"
  by (induction l) auto

lemma pieces_line: "d \<notin> set l \<Longrightarrow> pieces d (l @ d # s) = l # pieces d s"
  by (induction l) auto

lemma join_continued_line:
  "newline \<notin> set l \<Longrightarrow> (if l = [] then True else last l \<noteq> backslash) \<Longrightarrow>
     join_continued (l @ newline # s) = l @ newline # join_continued s"
proof (induction l)
  case (Cons c l)
  then show ?case by (cases l) (auto split: if_splits)
qed simp

lemma plain_word_facts:
  "plain_word v \<Longrightarrow> v \<noteq> [] \<and> blank \<notin> set v \<and> newline \<notin> set v \<and> CHR ''#'' \<notin> set v \<and> backslash \<notin> set v"
  by (auto simp: plain_word_def plain_character_def list_all_iff)

lemma words_spaced:
  "list_all plain_word ws \<Longrightarrow> plain_word v \<Longrightarrow> pieces blank (v @ spaced ws) = v # ws"
proof (induction ws arbitrary: v)
  case (Cons u ws)
  have "v @ spaced (u # ws) = v @ blank # (u @ spaced ws)" by (simp add: spaced_def)
  with Cons show ?case by (simp add: pieces_line plain_word_facts)
qed (simp add: spaced_def pieces_clean plain_word_facts)

lemma set_spaced: "set (spaced ws) = (if ws = [] then {} else insert blank (\<Union> (set ` set ws)))"
  by (auto simp: spaced_def)

lemma statement_spaced:
  "list_all plain_word ws \<Longrightarrow> plain_word v \<Longrightarrow> statement (v @ spaced ws) = v # ws"
proof -
  assume a: "list_all plain_word ws" "plain_word v"
  then have "CHR ''#'' \<notin> set (v @ spaced ws)"
    by (auto simp: set_spaced list_all_iff dest: plain_word_facts)
  then have "takeWhile (\<lambda>c. c \<noteq> CHR ''#'') (v @ spaced ws) = v @ spaced ws"
    by (auto simp: takeWhile_eq_all_conv)
  moreover have "filter (\<lambda>v. v \<noteq> []) (v # ws) = v # ws"
    using a by (auto simp: list_all_iff filter_id_conv dest: plain_word_facts)
  ultimately show ?thesis using words_spaced [OF a] by (simp only: statement_def)
qed

lemma statement_comment [simp]: "statement (CHR ''#'' # s) = []"
  by (simp add: statement_def)

lemma statement_empty [simp]: "statement [] = []"
  by (simp add: statement_def)

text \<open>One line at a time.\<close>

lemma statements_line:
  assumes "newline \<notin> set l" "if l = [] then True else last l \<noteq> backslash"
  shows "statements (l @ newline # s) = (if statement l = [] then [] else [statement l]) @ statements s"
  using assms by (simp add: statements_def join_continued_line pieces_line)

lemma statements_blank_line: "statements (newline # s) = statements s"
  using statements_line [of "[]" s] by simp

lemma statements_Nil [simp]: "statements [] = []"
  by (simp add: statements_def)

section \<open>Rendered rules are read as meant\<close>

text \<open>
  What the code relies on of \<open>inet_pton\<close>: it accepts only numeric address texts, made of
  hexadecimal digits, colons and dots.
\<close>

definition address_character :: "char \<Rightarrow> bool" where
  "address_character c \<longleftrightarrow> is_ascii_alphanumeric c \<or> c = CHR '':'' \<or> c = CHR ''.''"

definition numeric_addresses :: "address_parser \<Rightarrow> bool" where
  "numeric_addresses pton \<longleftrightarrow>
     (\<forall>f t. pton f t \<longrightarrow> t \<noteq> [] \<and> list_all address_character t)"

lemma plain_alphanumeric: "is_ascii_alphanumeric c \<Longrightarrow> plain_character c"
  by (auto simp: is_ascii_alphanumeric_def is_ascii_letter_def is_ascii_digit_def plain_character_def)

lemma plain_identifier_character: "is_identifier_character c \<Longrightarrow> plain_character c"
  by (auto simp: is_identifier_character_def dest: plain_alphanumeric) (auto simp: plain_character_def)

lemma plain_address_character: "address_character c \<Longrightarrow> plain_character c"
  by (auto simp: address_character_def dest: plain_alphanumeric) (auto simp: plain_character_def)

lemma plain_digits: "list_all is_ascii_digit v \<Longrightarrow> list_all plain_character v"
  by (auto simp: list_all_iff is_ascii_alphanumeric_def intro: plain_alphanumeric)

lemma plain_decimal [simp]: "plain_word (decimal n)"
  using plain_digits [OF decimal_digits] by (simp add: plain_word_def)

lemma plain_rule_id: "is_valid_rule_id v \<Longrightarrow> plain_word v"
  by (auto simp: is_valid_rule_id_def plain_word_def list_all_iff plain_identifier_character
      split: if_splits)

lemma plain_interface: "is_valid_interface v \<Longrightarrow> v \<noteq> [] \<Longrightarrow> plain_word v"
  by (auto simp: is_valid_interface_def plain_word_def list_all_iff plain_identifier_character
      split: if_splits)

lemma c_string_id: "CHR 0x00 \<notin> set v \<Longrightarrow> c_string v = v"
  by (auto simp: c_string_def takeWhile_eq_all_conv)

lemma plain_network:
  assumes "numeric_addresses pton" "network_valid (parse_network pton net)" "CHR 0x00 \<notin> set net"
  shows "plain_word net"
proof (cases "net = ''any''")
  case True
  then show ?thesis by (simp add: plain_word_def plain_character_def)
next
  case False
  let ?address = "takeWhile (\<lambda>c. c \<noteq> CHR ''/'') net"
  let ?rest = "dropWhile (\<lambda>c. c \<noteq> CHR ''/'') net"
  have "CHR 0x00 \<notin> set ?address" using assms(3) by (auto dest: set_takeWhileD)
  then have c: "c_string ?address = ?address" by (rule c_string_id)
  from False assms(2) obtain f m where address: "parse_address pton ?address = Some (f, m)"
    and rest: "?rest = [] \<or> (\<exists>n. tl ?rest \<noteq> [] \<and> from_chars 4294967295 (tl ?rest) = (Conversion_ok, n, []))"
    by (auto simp: parse_network_def no_network_def Let_def split: if_splits option.splits prod.splits)
  from address c assms(1) have a: "?address \<noteq> []" "list_all plain_character ?address"
    by (auto simp: parse_address_def numeric_addresses_def list_all_iff plain_address_character
        split: if_splits)
  have r: "list_all plain_character ?rest"
  proof (cases ?rest)
    case (Cons x xs)
    then have "x = CHR ''/''" using hd_dropWhile [of "\<lambda>c. c \<noteq> CHR ''/''" net] by force
    moreover from rest Cons have "list_all is_ascii_digit xs" by (auto dest: from_chars_whole)
    ultimately show ?thesis using Cons by (simp add: plain_digits plain_character_def)
  next
    case Nil
    then show ?thesis by (simp only: list.pred_inject)
  qed
  have "net = ?address @ ?rest" by simp
  then have "list_all plain_character net" using a(2) r by (metis list_all_append)
  moreover have "net \<noteq> []" using a(1) by auto
  ultimately show ?thesis unfolding plain_word_def by blast
qed

lemma plain_keywords [simp]:
  "plain_word ''log''" "plain_word ''quick''" "plain_word ''on''" "plain_word ''proto''"
  "plain_word ''from''" "plain_word ''to''" "plain_word ''port''" "plain_word ''keep''"
  "plain_word ''state''" "plain_word ''in''" "plain_word ''out''" "plain_word ''inet''"
  "plain_word ''inet6''" "plain_word (action_string a)"
  "p \<noteq> Any_protocol \<Longrightarrow> plain_word (protocol_string p)"
  by (cases a; cases p;
      simp add: plain_word_def plain_character_def action_string_def protocol_string_def)+

lemma plain_endpoint_words:
  "plain_word keyword \<Longrightarrow> plain_word (network e) \<Longrightarrow> list_all plain_word (endpoint_words keyword e)"
  by (simp add: endpoint_words_def split: option.split)

lemma plain_option_words:
  assumes "well_formed_rule pton r" "plain_word (network (source r))" "plain_word (network (destination r))"
  shows "list_all plain_word (option_words r)"
  using assms plain_interface [of "rule_interface r"]
  by (simp add: option_words_def well_formed_rule_def plain_endpoint_words
      split: direction.split address_family.split)

lemma spaced_append [simp]: "spaced (a @ b) = spaced a @ spaced b"
  by (simp add: spaced_def)

lemma spaced_simps [simp]: "spaced [] = []" "spaced (v # ws) = blank # v @ spaced ws"
  by (simp_all add: spaced_def)

lemma spaced_endpoint: "append_endpoint keyword e = spaced (endpoint_words keyword e)"
  by (simp add: append_endpoint_def endpoint_words_def split: option.split)

definition rule_comment :: "rule \<Rightarrow> string" where
  "rule_comment r = ''# rule '' @ rule_id r @
     (if description r \<noteq> [] then '': '' @ description r else [])"

lemma append_rule_lines:
  "append_rule r = newline # rule_comment r @ newline #
     (action_string (rule_action r) @ spaced (option_words r)) @ [newline]"
  by (simp add: append_rule_def rule_comment_def option_words_def spaced_endpoint append_token_def
      direction_string_def family_string_def split: direction.split address_family.split)

lemma no_control_no_newline: "\<not> contains_control_character v \<Longrightarrow> newline \<notin> set v"
  by (auto simp: contains_control_character_def list_ex_iff is_control_character_def)

definition continues :: "rule \<Rightarrow> bool" where
  "continues r \<longleftrightarrow> description r \<noteq> [] \<and> last (description r) = backslash"

lemma statements_render_rule:
  assumes wf: "well_formed_rule pton r" and nets: "plain_word (network (source r))"
    "plain_word (network (destination r))" and "\<not> (rule_enabled r \<and> continues r)"
  shows "statements (render_rule r @ s) = (if rule_enabled r then [rule_words r] else []) @ statements s"
proof -
  have id: "plain_word (rule_id r)" using wf by (simp add: well_formed_rule_def plain_rule_id)
  then have id': "newline \<notin> set (rule_id r)" "rule_id r \<noteq> []" "last (rule_id r) \<noteq> backslash"
    by (auto dest!: plain_word_facts) (metis last_in_set)
  show ?thesis
  proof (cases "rule_enabled r")
    case True
    have words: "list_all plain_word (option_words r)" by (rule plain_option_words [OF wf nets])
    have newl: "newline \<notin> set (rule_comment r)" "last (rule_comment r) \<noteq> backslash"
      "rule_comment r = CHR ''#'' # tl (rule_comment r)"
      using id' wf assms(4) True
      by (auto simp: rule_comment_def well_formed_rule_def continues_def no_control_no_newline)
    let ?l = "action_string (rule_action r) @ spaced (option_words r)"
    have line: "newline \<notin> set ?l" "?l \<noteq> []" "last ?l \<noteq> backslash"
    proof -
      have plain: "list_all (\<lambda>c. c \<noteq> newline \<and> c \<noteq> backslash) ?l"
        using words plain_keywords(14) [of "rule_action r"]
        by (cases "rule_action r")
          (auto simp: list_all_iff set_spaced action_string_def dest: plain_word_facts)
      then show "newline \<notin> set ?l" by (auto simp: list_all_iff)
      show "?l \<noteq> []" by (cases "rule_action r") (simp_all add: action_string_def)
      then have "last ?l \<in> set ?l" by (rule last_in_set)
      with plain show "last ?l \<noteq> backslash" unfolding list_all_iff by blast
    qed
    have "statement (rule_comment r) = []" by (subst newl(3)) simp
    moreover have "statement ?l = rule_words r"
      using statement_spaced [OF words plain_keywords(14) [of "rule_action r"]] by (simp add: rule_words_def)
    ultimately show ?thesis
      using True newl(1,2) line statements_line [of "rule_comment r"] statements_line [of ?l s]
      by (simp add: render_rule_def append_rule_lines statements_blank_line rule_words_def)
  next
    case False
    let ?c = "''# disabled rule '' @ rule_id r"
    have "statements (?c @ newline # s) = statements s"
      using id' statements_line [of ?c s] by simp
    with False show ?thesis by (simp add: render_rule_def statements_blank_line)
  qed
qed

lemma statements_header: "statements (render_header revision @ s) = default_statements @ statements s"
proof -
  have digits: "newline \<notin> set (decimal n)" "last (decimal n) \<noteq> backslash" for n
    using plain_word_facts [OF plain_decimal [of n]] by auto (metis decimal_nonempty last_in_set)
  let ?revision = "''# Configuration revision: '' @ decimal (unat revision)"
  have r: "statements (?revision @ newline # s') = statements s'" for s'
    using digits statements_line [of ?revision s'] by simp
  let ?lines = "[''# Generated by SASD Gatehold. DO NOT EDIT.'', ''set block-policy drop'',
      ''set skip on lo'', ''block log all'']"
  have clean: "list_all (\<lambda>l. newline \<notin> set l \<and> l \<noteq> [] \<and> last l \<noteq> backslash) ?lines" by simp
  have read: "map statement ?lines = [] # default_statements"
    by (simp add: statement_def default_statements_def)
  have line: "statements (l @ newline # s') = (if statement l = [] then [] else [statement l]) @ statements s'"
    if "l \<in> set ?lines" for l s'
  proof -
    have "newline \<notin> set l \<and> l \<noteq> [] \<and> last l \<noteq> backslash"
      using clean that unfolding list_all_iff by (rule bspec)
    then show ?thesis by (intro statements_line) auto
  qed
  have lines: "statements (''# Generated by SASD Gatehold. DO NOT EDIT.'' @ newline # s') = statements s'"
    "statements (''set block-policy drop'' @ newline # s') = [''set'', ''block-policy'', ''drop''] # statements s'"
    "statements (''set skip on lo'' @ newline # s') = [''set'', ''skip'', ''on'', ''lo''] # statements s'"
    "statements (''block log all'' @ newline # s') = [''block'', ''log'', ''all''] # statements s'" for s'
    using read by (subst line, simp, simp add: default_statements_def)+
  let ?text = "''# Generated by SASD Gatehold. DO NOT EDIT.'' @ newline #
     (?revision @ newline # newline #
     (''set block-policy drop'' @ newline #
     (''set skip on lo'' @ newline # newline #
     (''block log all'' @ newline # s))))"
  have "statements ?text = [''set'', ''block-policy'', ''drop''] # [''set'', ''skip'', ''on'', ''lo''] #
      [''block'', ''log'', ''all''] # statements s"
    by (simp only: lines r statements_blank_line)
  moreover have "render_header revision @ s = ?text"
    by (simp add: render_header_def)
  ultimately show ?thesis by (simp only: default_statements_def) simp
qed

lemma nul_in_rule:
  assumes "rule_enabled r" "CHR 0x00 \<notin> set (render_rule r)"
  shows "CHR 0x00 \<notin> set (network (source r))" "CHR 0x00 \<notin> set (network (destination r))"
  using assms by (auto simp: render_rule_def append_rule_def append_endpoint_def)

text \<open>A disabled rule contributes a comment only, whatever its networks are.\<close>

lemma statements_disabled:
  assumes "well_formed_rule pton r" "\<not> rule_enabled r"
  shows "statements (render_rule r @ s) = statements s"
proof -
  let ?c = "''# disabled rule '' @ rule_id r"
  have "plain_word (rule_id r)" using assms(1) by (simp add: well_formed_rule_def plain_rule_id)
  then have "newline \<notin> set (rule_id r)" "rule_id r \<noteq> []" "last (rule_id r) \<noteq> backslash"
    by (auto dest!: plain_word_facts) (metis last_in_set)
  then have "statements (?c @ newline # s) = statements s"
    using statements_line [of ?c s] by simp
  with assms(2) show ?thesis by (simp add: render_rule_def statements_blank_line)
qed

lemma statements_of_render:
  assumes "numeric_addresses pton" and "report_ok (validate_rule_set pton s)"
    and "CHR 0x00 \<notin> set (render_ruleset (render pton s))"
    and "list_all (\<lambda>r. \<not> (rule_enabled r \<and> continues r)) (rs_rules s)"
  shows "statements (render_ruleset (render pton s)) =
    default_statements @ map rule_words (filter rule_enabled (rs_rules s))"
proof -
  have wf: "list_all (well_formed_rule pton) (rs_rules s)"
    using assms(2) by (simp add: report_ok_def validate_rule_set_def validate_rules_Nil)
  have nul: "list_all (\<lambda>r. CHR 0x00 \<notin> set (render_rule r)) (rs_rules s)"
    using assms(2,3) by (auto simp: render_def Let_def list_all_iff)
  have "statements (concat (map render_rule rs)) = map rule_words (filter rule_enabled rs)"
    if "list_all (well_formed_rule pton) rs" "list_all (\<lambda>r. CHR 0x00 \<notin> set (render_rule r)) rs"
      "list_all (\<lambda>r. \<not> (rule_enabled r \<and> continues r)) rs" for rs
    using that
  proof (induction rs)
    case (Cons r rs)
    then have wf_r: "well_formed_rule pton r" by simp
    show ?case
    proof (cases "rule_enabled r")
      case True
      from Cons.prems(2) True have "CHR 0x00 \<notin> set (network (source r))"
        "CHR 0x00 \<notin> set (network (destination r))" by (simp_all add: nul_in_rule)
      with wf_r assms(1) have "plain_word (network (source r))" "plain_word (network (destination r))"
        by (auto simp: well_formed_rule_def intro: plain_network)
      from statements_render_rule [OF wf_r this] Cons True show ?thesis by simp
    next
      case False
      with Cons statements_disabled [OF wf_r] show ?thesis by simp
    qed
  qed simp
  from this [OF wf nul assms(4)] assms(2) show ?thesis
    by (simp add: render_def Let_def statements_header)
qed


definition decimal_parser :: address_parser where
  "decimal_parser f t \<longleftrightarrow>
     f = Inet \<and> t \<noteq> [] \<and> list_all (\<lambda>c. is_ascii_digit c \<or> c = CHR ''.'') t"

lemma numeric_decimal_parser: "numeric_addresses decimal_parser"
  by (auto simp: numeric_addresses_def decimal_parser_def list_all_iff address_character_def
      is_ascii_alphanumeric_def)

definition sample_rule :: rule where
  "sample_rule = \<lparr>rule_id = ''web'', description = ''public web server'', rule_action = Pass,
     rule_direction = Inbound, rule_family = Inet, rule_interface = ''em0'', rule_protocol = Tcp,
     source = \<lparr>network = ''any'', port = None\<rparr>,
     destination = \<lparr>network = ''192.0.2.1/32'', port = Some 443\<rparr>,
     rule_log = True, rule_quick = True, rule_enabled = True\<rparr>"

definition sample_rules :: rule_set where
  "sample_rules = \<lparr>rs_revision = 7, rs_rules = [sample_rule, sample_rule\<lparr>rule_id := ''old'', rule_enabled := False\<rparr>]\<rparr>"


section \<open>What a statement says\<close>

text \<open>
  A reader of the statement syntax that the renderer uses, written from the grammar of
  \<open>pf.conf\<close>: action, optional direction, flags, interface, family, protocol, endpoints, state.
\<close>

record pf_statement =
  st_action :: rule_action
  st_direction :: direction
  st_log :: bool
  st_quick :: bool
  st_interface :: string
  st_family :: address_family
  st_protocol :: transport
  st_source :: endpoint
  st_destination :: endpoint
  st_keep_state :: bool

definition meaning :: "rule \<Rightarrow> pf_statement" where
  "meaning r = \<lparr>st_action = rule_action r, st_direction = rule_direction r, st_log = rule_log r,
     st_quick = rule_quick r, st_interface = rule_interface r, st_family = rule_family r,
     st_protocol = rule_protocol r, st_source = source r, st_destination = destination r,
     st_keep_state = (rule_action r = Pass)\<rparr>"

fun read_option :: "(string \<times> 'a) list \<Rightarrow> 'a \<Rightarrow> string list \<Rightarrow> 'a \<times> string list" where
  "read_option table otherwise [] = (otherwise, [])"
| "read_option table otherwise (v # ws) =
     (case map_of table v of None \<Rightarrow> (otherwise, v # ws) | Some x \<Rightarrow> (x, ws))"

fun read_interface :: "string list \<Rightarrow> string \<times> string list" where
  "read_interface (v # u # ws) = (if v = ''on'' then (u, ws) else ([], v # u # ws))"
| "read_interface ws = ([], ws)"

fun read_protocol :: "string list \<Rightarrow> (transport \<times> string list) option" where
  "read_protocol (v # u # ws) =
     (if v = ''proto''
      then map_option (\<lambda>p. (p, ws))
        (map_of [(''tcp'', Tcp), (''udp'', Udp), (''icmp'', Icmp), (''icmp6'', Icmp6)] u)
      else Some (Any_protocol, v # u # ws))"
| "read_protocol ws = Some (Any_protocol, ws)"

definition read_port :: "string \<Rightarrow> 16 word option" where
  "read_port v = (case from_chars 65535 v of
     (err, n, rest) \<Rightarrow> if err = Conversion_ok \<and> rest = [] then Some (word_of_nat n) else None)"

fun read_endpoint :: "string \<Rightarrow> string list \<Rightarrow> (endpoint \<times> string list) option" where
  "read_endpoint keyword (k # n # p # v # ws) =
     (if k \<noteq> keyword then None
      else if p = ''port''
      then map_option (\<lambda>x. (\<lparr>network = n, port = Some x\<rparr>, ws)) (read_port v)
      else Some (\<lparr>network = n, port = None\<rparr>, p # v # ws))"
| "read_endpoint keyword (k # n # ws) =
     (if k \<noteq> keyword then None else Some (\<lparr>network = n, port = None\<rparr>, ws))"
| "read_endpoint keyword _ = None"

definition read_statement :: "string list \<Rightarrow> pf_statement option" where
  "read_statement ws =
     (case ws of [] \<Rightarrow> None
      | v # ws1 \<Rightarrow>
          (case map_of [(''block'', Block), (''pass'', Pass)] v of None \<Rightarrow> None
           | Some a \<Rightarrow>
              (let (d, ws2) = read_option [(''in'', Inbound), (''out'', Outbound)] Any_direction ws1;
                   (l, ws3) = read_option [(''log'', True)] False ws2;
                   (q, ws4) = read_option [(''quick'', True)] False ws3;
                   (i, ws5) = read_interface ws4;
                   (f, ws6) = read_option [(''inet'', Inet), (''inet6'', Inet6)] Any_family ws5
               in (case read_protocol ws6 of None \<Rightarrow> None
                   | Some (p, ws7) \<Rightarrow>
                      (case read_endpoint ''from'' ws7 of None \<Rightarrow> None
                       | Some (s, ws8) \<Rightarrow>
                          (case read_endpoint ''to'' ws8 of None \<Rightarrow> None
                           | Some (t, ws9) \<Rightarrow>
                              (if ws9 \<notin> {[], [''keep'', ''state'']} then None
                               else Some \<lparr>st_action = a, st_direction = d, st_log = l, st_quick = q,
                                 st_interface = i, st_family = f, st_protocol = p, st_source = s,
                                 st_destination = t, st_keep_state = (ws9 \<noteq> [])\<rparr>)))))))"

lemma read_port_decimal [simp]: "read_port (decimal (unat p)) = Some p"
proof -
  have "unat p < 2 ^ LENGTH(16)" by (rule unsigned_less)
  then have "unat p \<le> 65535" by simp
  then show ?thesis by (simp add: read_port_def from_chars_decimal)
qed

lemma endpoint_eta [simp]: "\<lparr>network = network e, port = port e\<rparr> = e"
  by simp

lemma read_endpoint_words:
  "read_endpoint ''from'' (endpoint_words ''from'' e @ endpoint_words ''to'' e' @ ws) =
     Some (e, endpoint_words ''to'' e' @ ws)"
  "read_endpoint ''to'' (endpoint_words ''to'' e @ (if b then [''keep'', ''state''] else [])) =
     Some (e, if b then [''keep'', ''state''] else [])"
  by (cases e; cases e'; auto simp: endpoint_words_def split: option.split)+

text \<open>One optional part at a time; \<open>heads\<close> lists the words that may follow.\<close>

definition heads :: "string list \<Rightarrow> string list \<Rightarrow> bool" where
  "heads ks ws \<longleftrightarrow> (case ws of [] \<Rightarrow> False | v # _ \<Rightarrow> v \<in> set ks)"

lemma read_protocol_words:
  assumes "heads [''from''] ws"
  shows "read_protocol ((if p \<noteq> Any_protocol then [''proto'', protocol_string p] else []) @ ws) = Some (p, ws)"
    and "heads [''proto'', ''from''] ((if p \<noteq> Any_protocol then [''proto'', protocol_string p] else []) @ ws)"
  using assms by (cases p; cases ws rule: read_protocol.cases; simp add: heads_def protocol_string_def)+

lemma read_family_words:
  assumes "heads [''proto'', ''from''] ws"
  shows "read_option [(''inet'', Inet), (''inet6'', Inet6)] Any_family
      ((case f of Any_family \<Rightarrow> [] | Inet \<Rightarrow> [''inet''] | Inet6 \<Rightarrow> [''inet6'']) @ ws) = (f, ws)"
    and "heads [''inet'', ''inet6'', ''proto'', ''from'']
      ((case f of Any_family \<Rightarrow> [] | Inet \<Rightarrow> [''inet''] | Inet6 \<Rightarrow> [''inet6'']) @ ws)"
  using assms by (cases f; cases ws; auto simp: heads_def)+

lemma read_interface_words:
  assumes "heads [''inet'', ''inet6'', ''proto'', ''from''] ws"
  shows "read_interface ((if i \<noteq> [] then [''on'', i] else []) @ ws) = (i, ws)"
    and "heads [''on'', ''inet'', ''inet6'', ''proto'', ''from''] ((if i \<noteq> [] then [''on'', i] else []) @ ws)"
  using assms by (cases ws rule: read_interface.cases; auto simp: heads_def)+

lemma read_quick_words:
  assumes "heads [''on'', ''inet'', ''inet6'', ''proto'', ''from''] ws"
  shows "read_option [(''quick'', True)] False ((if b then [''quick''] else []) @ ws) = (b, ws)"
    and "heads [''quick'', ''on'', ''inet'', ''inet6'', ''proto'', ''from''] ((if b then [''quick''] else []) @ ws)"
  using assms by (cases ws; auto simp: heads_def)+

lemma read_log_words:
  assumes "heads [''quick'', ''on'', ''inet'', ''inet6'', ''proto'', ''from''] ws"
  shows "read_option [(''log'', True)] False ((if b then [''log''] else []) @ ws) = (b, ws)"
    and "heads [''log'', ''quick'', ''on'', ''inet'', ''inet6'', ''proto'', ''from''] ((if b then [''log''] else []) @ ws)"
  using assms by (cases ws; auto simp: heads_def)+

lemma read_direction_words:
  assumes "heads [''log'', ''quick'', ''on'', ''inet'', ''inet6'', ''proto'', ''from''] ws"
  shows "read_option [(''in'', Inbound), (''out'', Outbound)] Any_direction
      ((case d of Any_direction \<Rightarrow> [] | Inbound \<Rightarrow> [''in''] | Outbound \<Rightarrow> [''out'']) @ ws) = (d, ws)"
  using assms by (cases d; cases ws; auto simp: heads_def)

lemmas reading = read_protocol_words read_family_words read_interface_words read_quick_words
  read_log_words read_direction_words


section \<open>Two conditions the validation does not check\<close>

definition plain_block :: rule where
  "plain_block = \<lparr>rule_id = ''a'', description = [], rule_action = Block,
     rule_direction = Any_direction, rule_family = Any_family, rule_interface = [],
     rule_protocol = Any_protocol, source = \<lparr>network = ''any'', port = None\<rparr>,
     destination = \<lparr>network = ''any'', port = None\<rparr>,
     rule_log = False, rule_quick = True, rule_enabled = True\<rparr>"

definition single_rule :: "rule \<Rightarrow> rule_set" where
  "single_rule r = \<lparr>rs_revision = 1, rs_rules = [r]\<rparr>"

text \<open>
  A description that ends in a backslash passes validation, and its comment line continues over the
  rule line: PF never sees the rule.
\<close>

theorem backslash_description_loses_rule:
  "report_ok (validate_rule_set pton (single_rule (plain_block\<lparr>description := [CHR ''x'', backslash]\<rparr>))) \<and>
   statements (render_ruleset (render pton (single_rule (plain_block\<lparr>description := [CHR ''x'', backslash]\<rparr>)))) =
     default_statements"
proof -
  let ?r = "plain_block\<lparr>description := [CHR ''x'', backslash]\<rparr>"
  have ok: "report_ok (validate_rule_set pton (single_rule ?r))"
    by (simp add: report_ok_def validate_rule_set_def validate_rule_Nil single_rule_def plain_block_def
        well_formed_rule_def is_valid_rule_id_def is_valid_interface_def contains_control_character_def
        is_control_character_def parse_network_def families_def is_ascii_alphanumeric_def
        is_ascii_letter_def is_ascii_digit_def is_identifier_character_def)
  have "statements (render_rule ?r) = []"
    by (simp add: render_rule_def append_rule_def plain_block_def action_string_def append_endpoint_def
        append_token_def direction_string_def family_string_def statements_def statement_def)
  with ok show ?thesis by (simp add: render_def statements_header single_rule_def)
qed

definition smuggling_network :: string where
  "smuggling_network = ''10.0.0.1'' @ CHR 0x00 # newline # ''pass quick from any''"

text \<open>
  A network text with an embedded NUL is checked up to the NUL only, but rendered in full: behind it
  any statement can follow. The NUL check of candidate staging is what keeps such a text from PF.
\<close>

theorem nul_network_smuggles_statement:
  "report_ok (validate_rule_set decimal_parser
     (single_rule (plain_block\<lparr>source := \<lparr>network = smuggling_network, port = None\<rparr>\<rparr>))) \<and>
   [''pass'', ''quick'', ''from'', ''any'', ''to'', ''any''] \<in> set (statements (render_ruleset (render decimal_parser
     (single_rule (plain_block\<lparr>source := \<lparr>network = smuggling_network, port = None\<rparr>\<rparr>)))))"
proof -
  let ?r = "plain_block\<lparr>source := \<lparr>network = smuggling_network, port = None\<rparr>\<rparr>"
  have ok: "report_ok (validate_rule_set decimal_parser (single_rule ?r))"
    by (simp add: report_ok_def validate_rule_set_def validate_rule_Nil single_rule_def plain_block_def
        well_formed_rule_def is_valid_rule_id_def is_valid_interface_def contains_control_character_def
        parse_network_def families_def is_ascii_alphanumeric_def smuggling_network_def Let_def
        parse_address_def c_string_def decimal_parser_def
        is_ascii_letter_def is_ascii_digit_def is_identifier_character_def)
  have "[''pass'', ''quick'', ''from'', ''any'', ''to'', ''any''] \<in> set (statements (render_rule ?r))"
    by (simp add: render_rule_def append_rule_def plain_block_def action_string_def append_endpoint_def
        append_token_def direction_string_def family_string_def statements_def statement_def
        smuggling_network_def)
  with ok show ?thesis by (simp add: render_def statements_header single_rule_def)
qed

end
