(* ===== verification/Preparation.thy ===== *)
theory Preparation
  imports Pfctl Renderer
begin

text \<open>
  The preparation workflow (\<open>preparation_service.cpp\<close>): render, stage, check natively,
  store as an immutable revision, with an audit event before and after each step. The properties:
  a prepared revision is the checked text of a valid rule set, and preparation never loads a rule
  set, whatever fails.
\<close>

section \<open>The service\<close>

datatype preparation_status =
    Prep_prepared | Prep_invalid_model | Prep_staging_failed | Prep_native_rejected
  | Prep_native_timed_out | Prep_native_execution_error | Prep_unsafe_candidate
  | Prep_revision_store_failed | Prep_audit_failed

record preparation_request =
  prep_operation_id :: string
  prep_rule_set :: rule_set

record preparation_result =
  prep_status :: preparation_status
  prep_event_id :: string
  prep_message :: string
  prep_candidate_path :: "path option"
  prep_validation_issues :: "validation_issue list"
  prep_stage_result :: "stage_result option"
  prep_native_validation :: "native_result option"
  prep_revision_write :: "revision_write_result option"
  prep_revision_path :: "path option"
  prep_journaled_events :: "event list"

text \<open>The collaborators: the roots of journal, staging area and archive, the validator, and the
  address parser of the C library.\<close>

record preparation_service =
  ps_journal :: string
  ps_staging :: string
  ps_revisions :: string
  ps_validator :: pfctl
  ps_addresses :: address_parser

definition prep_ok :: "preparation_result \<Rightarrow> bool" where
  "prep_ok r \<longleftrightarrow> prep_status r = Prep_prepared"

definition initial_preparation :: preparation_result where
  "initial_preparation =
     \<lparr>prep_status = Prep_audit_failed, prep_event_id = [], prep_message = [],
      prep_candidate_path = None, prep_validation_issues = [], prep_stage_result = None,
      prep_native_validation = None, prep_revision_write = None, prep_revision_path = None,
      prep_journaled_events = []\<rparr>"

definition operation_event ::
  "string \<Rightarrow> severity \<Rightarrow> string \<Rightarrow> string \<Rightarrow> string \<Rightarrow> string \<Rightarrow> string \<Rightarrow> u64 \<Rightarrow> event" where
  "operation_event timestamp severity event_id op act outcome m revision =
     \<lparr>ev_timestamp = timestamp, ev_severity = severity, ev_event_id = event_id,
      ev_component = ''pf-preparation-service'', ev_operation_id = op, ev_action = act,
      ev_outcome = outcome, ev_message = m,
      ev_attributes = attribute_map [(''revision'', decimal (unat revision))]\<rparr>"

definition map_native_status :: "native_status \<Rightarrow> preparation_status" where
  "map_native_status s = (case s of
       Native_valid \<Rightarrow> Prep_prepared
     | Native_rejected \<Rightarrow> Prep_native_rejected
     | Native_timed_out \<Rightarrow> Prep_native_timed_out
     | Native_execution_error \<Rightarrow> Prep_native_execution_error
     | Native_unsafe_candidate \<Rightarrow> Prep_unsafe_candidate)"

text \<open>
  The local function \<open>append\<close>, with the early return at every call site as a continuation:
  \<open>if (!append(event)) return result;\<close>
\<close>

definition prep_append ::
  "preparation_service \<Rightarrow> event \<Rightarrow> preparation_result \<Rightarrow>
     (preparation_result \<Rightarrow> preparation_result io) \<Rightarrow> preparation_result io" where
  "prep_append svc e r k = do {
     j \<leftarrow> journal_append (ps_journal svc) e;
     if \<not> journal_ok j
     then return (r\<lparr>prep_status := Prep_audit_failed, prep_event_id := journal_event_id j,
                    prep_message := journal_message j\<rparr>)
     else k (r\<lparr>prep_journaled_events := prep_journaled_events r @ [e]\<rparr>)
   }"

text \<open>An append of an operation event of this request, with further attributes.\<close>

definition prep_log ::
  "preparation_service \<Rightarrow> preparation_request \<Rightarrow> severity \<Rightarrow> string \<Rightarrow> string \<Rightarrow> string \<Rightarrow> string \<Rightarrow>
     (string \<times> string) list \<Rightarrow> preparation_result \<Rightarrow>
     (preparation_result \<Rightarrow> preparation_result io) \<Rightarrow> preparation_result io" where
  "prep_log svc q severity event_id act outcome m extra r k = do {
     timestamp \<leftarrow> read_clock;
     prep_append svc
       (foldl (\<lambda>e (a, v). add_attribute a v e)
         (operation_event timestamp severity event_id (prep_operation_id q) act outcome m
            (rs_revision (prep_rule_set q))) extra) r k
   }"

text \<open>After the archive has answered: \<open>revision_event\<close> and the closing event.\<close>

definition conclude_store ::
  "preparation_service \<Rightarrow> preparation_request \<Rightarrow> revision_write_result \<Rightarrow> preparation_result \<Rightarrow>
     preparation_result io" where
  "conclude_store svc q written r =
     prep_log svc q (if revision_write_ok written then Info else Warning) (rw_event_id written)
       ''pf.revision.store'' (if revision_write_ok written then ''succeeded'' else ''failed'')
       (rw_message written)
       (if revision_write_ok written
        then [(''revision_name'', case rw_revision_path written of None \<Rightarrow> [] | Some p \<Rightarrow> snd p)] else [])
       (r\<lparr>prep_revision_write := Some written, prep_revision_path := rw_revision_path written\<rparr>) (\<lambda>r.
     if \<not> revision_write_ok written
     then return (r\<lparr>prep_status := Prep_revision_store_failed, prep_event_id := rw_event_id written,
                    prep_message := rw_message written\<rparr>)
     else
       prep_log svc q Info ''GH-OP-0006'' ''pf.prepare'' ''prepared''
         ''PF candidate is rendered, staged, natively validated, and stored as an immutable revision.''
         [] r (\<lambda>r.
       return (r\<lparr>prep_status := Prep_prepared, prep_event_id := ''GH-OP-0006'',
         prep_message := ''PF candidate prepared successfully; no activation was performed.''\<rparr>)))"

definition store_prepared ::
  "preparation_service \<Rightarrow> preparation_request \<Rightarrow> path \<Rightarrow> preparation_result \<Rightarrow> preparation_result io" where
  "store_prepared svc q candidate r =
     prep_log svc q Info ''GH-OP-0005'' ''pf.revision.store'' ''started''
       ''Immutable PF revision storage started.'' [] r (\<lambda>r. do {
     written \<leftarrow> store_revision (ps_revisions svc) (rs_revision (prep_rule_set q)) candidate;
     conclude_store svc q written r
   })"

text \<open>After \<open>pfctl -nf\<close> has answered.\<close>

definition conclude_check ::
  "preparation_service \<Rightarrow> preparation_request \<Rightarrow> path \<Rightarrow> native_result \<Rightarrow> preparation_result \<Rightarrow>
     preparation_result io" where
  "conclude_check svc q candidate native r = do {
     timestamp \<leftarrow> read_clock;
     prep_append svc (make_validation_event native timestamp (prep_operation_id q)
         (rs_revision (prep_rule_set q))) (r\<lparr>prep_native_validation := Some native\<rparr>) (\<lambda>r.
       let r = r\<lparr>prep_status := map_native_status (nv_status native),
                 prep_event_id := nv_event_id native, prep_message := nv_message native\<rparr>
       in if \<not> native_ok native then return r else store_prepared svc q candidate r)
   }"

definition check_staged ::
  "preparation_service \<Rightarrow> preparation_request \<Rightarrow> path \<Rightarrow> preparation_result \<Rightarrow> preparation_result io" where
  "check_staged svc q candidate r =
     prep_log svc q Info ''GH-OP-0004'' ''pf.ruleset.validate'' ''started''
       ''Native PF validation started.'' [] r (\<lambda>r. do {
     native \<leftarrow> validate_candidate (ps_validator svc) candidate;
     conclude_check svc q candidate native r
   })"

text \<open>
  After staging. A staged result carries its path, so the \<open>None\<close> branch is not taken.
\<close>

definition conclude_stage ::
  "preparation_service \<Rightarrow> preparation_request \<Rightarrow> stage_result \<Rightarrow> preparation_result \<Rightarrow>
     preparation_result io" where
  "conclude_stage svc q staged r =
     prep_log svc q (if stage_ok staged then Info else Warning) (stage_event_id staged)
       ''pf.candidate.stage'' (if stage_ok staged then ''succeeded'' else ''failed'')
       (stage_message staged)
       (if stage_ok staged
        then [(''candidate_name'', case stage_candidate_path staged of None \<Rightarrow> [] | Some p \<Rightarrow> snd p)] else [])
       (r\<lparr>prep_stage_result := Some staged, prep_candidate_path := stage_candidate_path staged\<rparr>) (\<lambda>r.
     if \<not> stage_ok staged
     then return (r\<lparr>prep_status := Prep_staging_failed, prep_event_id := stage_event_id staged,
                    prep_message := stage_message staged\<rparr>)
     else (case stage_candidate_path staged of None \<Rightarrow> return r | Some p \<Rightarrow> check_staged svc q p r))"

definition stage_rendered ::
  "preparation_service \<Rightarrow> preparation_request \<Rightarrow> string \<Rightarrow> preparation_result \<Rightarrow> preparation_result io" where
  "stage_rendered svc q ruleset r =
     prep_log svc q Info ''GH-OP-0002'' ''pf.ruleset.render'' ''succeeded''
       ''PF candidate rendered successfully.''
       [(''candidate_bytes'', decimal (length ruleset)),
        (''rule_count'', decimal (length (rs_rules (prep_rule_set q))))] r (\<lambda>r.
     prep_log svc q Info ''GH-OP-0003'' ''pf.candidate.stage'' ''started''
       ''PF candidate staging started.'' [] r (\<lambda>r. do {
     staged \<leftarrow> stage (ps_staging svc) (prep_operation_id q) ruleset;
     conclude_stage svc q staged r
   }))"

definition prepare ::
  "preparation_service \<Rightarrow> preparation_request \<Rightarrow> preparation_result io" where
  "prepare svc q =
     prep_log svc q Info ''GH-OP-0001'' ''pf.prepare'' ''started''
       ''PF preparation operation started.'' [] initial_preparation (\<lambda>r.
     let rendered = render (ps_addresses svc) (prep_rule_set q);
         issues = render_validation rendered
     in if \<not> render_ok rendered then
          (let r = r\<lparr>prep_status := Prep_invalid_model,
                     prep_event_id := (if issues = [] then ''GH-CFG-1000'' else issue_code (hd issues)),
                     prep_message := ''Portable firewall-model validation rejected the request.'',
                     prep_validation_issues := issues\<rparr>
           in prep_log svc q Warning (prep_event_id r) ''pf.ruleset.render'' ''rejected''
                (prep_message r)
                ((''issue_count'', decimal (length issues)) #
                 (if issues = [] then [] else [(''first_issue_code'', issue_code (hd issues))])) r return)
        else stage_rendered svc q (render_ruleset rendered) r)"

section \<open>What preparation leaves alone\<close>

text \<open>
  From the world and the intermediate result at some point of the workflow to those at a later one:
  no rule set is loaded, only the journal, the staging area and the archive are written, and the
  events in the result are the ones that entered the journal.
\<close>

definition prep_frame ::
  "preparation_service \<Rightarrow> preparation_result \<Rightarrow> world \<Rightarrow> preparation_result \<Rightarrow> world \<Rightarrow> bool" where
  "prep_frame svc r w x w' \<longleftrightarrow>
     same_setting w w' \<and> loads w' = loads w \<and> set (checks w) \<subseteq> set (checks w') \<and>
     only_touches ({journal_path (ps_journal svc)} \<union> in_directory (ps_staging svc) \<union>
       in_directory (ps_revisions svc)) w w' \<and>
     (\<exists>es. audits (actions w') = audits (actions w) @ es \<and>
       prep_journaled_events x = prep_journaled_events r @ es)"

lemma prep_frame_refl [simp]:
  "prep_journaled_events x = prep_journaled_events r \<Longrightarrow> prep_frame svc r w x w"
  by (simp add: prep_frame_def)

lemma prep_frame_trans [trans]:
  "prep_frame svc r w r1 w1 \<Longrightarrow> prep_frame svc r1 w1 x w' \<Longrightarrow> prep_frame svc r w x w'"
  by (auto simp: prep_frame_def intro: same_setting_trans only_touches_trans)

lemma prep_frame_result:
  "prep_frame svc r w r1 w1 \<Longrightarrow> prep_journaled_events x = prep_journaled_events r1 \<Longrightarrow>
     prep_frame svc r w x w1"
  by (simp add: prep_frame_def)

lemma prep_frame_clock [simp]:
  "prep_frame svc r (w\<lparr>clock_reads := c\<rparr>) x w' = prep_frame svc r w x w'"
  by (simp add: prep_frame_def)

lemma audits_audited [simp]: "audits (map Audited es) = es"
  by (induction es) auto

lemma audited_frame:
  "audited (ps_journal svc) es w w' \<Longrightarrow> prep_journaled_events x = prep_journaled_events r @ es \<Longrightarrow>
     prep_frame svc r w x w'"
  by (auto simp: audited_def prep_frame_def intro: only_touches_mono)

lemma audited_entry: "audited root es w w' \<Longrightarrow> p \<noteq> journal_path root \<Longrightarrow> entries w' p = entries w p"
  by (auto simp: audited_def dest: only_touches_entry)

lemma audited_uid: "audited root es w w' \<Longrightarrow> effective_uid w' = effective_uid w"
  by (simp add: audited_def same_setting_def)

text \<open>The rule of one audited step: it fails with the audit status, or the rest runs.\<close>

lemma wp_prep_append:
  assumes "\<And>x w'. prep_frame svc r w x w' \<Longrightarrow> \<not> prep_ok x \<Longrightarrow> Q x w'"
    and "\<And>r' w'. prep_frame svc r w r' w' \<Longrightarrow> audited (ps_journal svc) [e] w w' \<Longrightarrow>
      prep_status r' = prep_status r \<Longrightarrow> wp (k r') Q w'"
  shows "wp (prep_append svc e r k) Q w"
proof -
  have "wp (journal_append (ps_journal svc) e) (\<lambda>j w'. wp (if \<not> journal_ok j
      then return (r\<lparr>prep_status := Prep_audit_failed, prep_event_id := journal_event_id j,
                     prep_message := journal_message j\<rparr>)
      else k (r\<lparr>prep_journaled_events := prep_journaled_events r @ [e]\<rparr>)) Q w') w"
  proof (rule wp_journal_append_audited)
    fix j w' assume j: "audited (ps_journal svc) (if journal_ok j then [e] else []) w w'"
    show "wp (if \<not> journal_ok j
      then return (r\<lparr>prep_status := Prep_audit_failed, prep_event_id := journal_event_id j,
                     prep_message := journal_message j\<rparr>)
      else k (r\<lparr>prep_journaled_events := prep_journaled_events r @ [e]\<rparr>)) Q w'"
      using j by (cases "journal_ok j") (auto intro!: assms audited_frame simp: prep_ok_def)
  qed
  then show ?thesis by (simp add: prep_append_def)
qed

lemma wp_prep_log:
  assumes "\<And>x w'. prep_frame svc r w x w' \<Longrightarrow> \<not> prep_ok x \<Longrightarrow> Q x w'"
    and "\<And>r' e w'. prep_frame svc r w r' w' \<Longrightarrow> audited (ps_journal svc) [e] w w' \<Longrightarrow>
      prep_status r' = prep_status r \<Longrightarrow> wp (k r') Q w'"
  shows "wp (prep_log svc q severity eid act outcome m extra r k) Q w"
  unfolding prep_log_def
  by (auto intro!: wp_prep_append assms)

section \<open>What a prepared revision is\<close>

text \<open>Frames of the operations in between.\<close>

lemma prep_frame_store:
  "store_frame (ps_revisions svc) w w' \<Longrightarrow> prep_frame svc r w r w'"
  by (auto simp: store_frame_def prep_frame_def intro: only_touches_mono)

lemma prep_frame_stage: "store_frame (ps_staging svc) w w' \<Longrightarrow> prep_frame svc r w r w'"
  by (auto simp: store_frame_def prep_frame_def intro: only_touches_mono)

lemma prep_frame_check:
  "pfctl_effect v ''-nf'' p ok w w' \<Longrightarrow> prep_frame svc r w r w'"
  by (auto simp: pfctl_effect_def prep_frame_def only_touches_def)

lemma prep_frame_drop [simp]:
  "prep_frame svc (r\<lparr>prep_revision_write := a, prep_revision_path := b\<rparr>) w x w' = prep_frame svc r w x w'"
  "prep_frame svc (r\<lparr>prep_native_validation := c\<rparr>) w x w' = prep_frame svc r w x w'"
  "prep_frame svc (r\<lparr>prep_stage_result := d, prep_candidate_path := e\<rparr>) w x w' = prep_frame svc r w x w'"
  "prep_frame svc r w (x\<lparr>prep_status := s, prep_event_id := i, prep_message := m\<rparr>) w' =
     prep_frame svc r w x w'"
  "prep_frame svc (r\<lparr>prep_status := s, prep_event_id := i, prep_message := m\<rparr>) w x w' =
     prep_frame svc r w x w'"
  "prep_frame svc r w (x\<lparr>prep_status := s, prep_event_id := i, prep_message := m,
     prep_validation_issues := v\<rparr>) w' = prep_frame svc r w x w'"
  "prep_frame svc (r\<lparr>prep_status := s, prep_event_id := i, prep_message := m,
     prep_validation_issues := v\<rparr>) w x w' = prep_frame svc r w x w'"
  by (simp_all add: prep_frame_def)

lemma audited_trans:
  "audited root es w w1 \<Longrightarrow> audited root fs w1 w' \<Longrightarrow> audited root (es @ fs) w w'"
  by (auto simp: audited_def intro: same_setting_trans only_touches_trans)

lemma audited_text:
  "audited root es w w' \<Longrightarrow> R \<noteq> root \<Longrightarrow> revision_text R w' v = revision_text R w v"
  by (simp add: revision_text_def audited_uid audited_entry revision_path_def journal_path_def)

lemma wp_conclude_store:
  assumes "ps_revisions svc \<noteq> ps_journal svc"
    and "\<And>x w'. prep_frame svc r w x w' \<Longrightarrow>
      (prep_ok x \<Longrightarrow> revision_write_ok written \<and>
         revision_text (ps_revisions svc) w' = revision_text (ps_revisions svc) w) \<Longrightarrow> Q x w'"
  shows "wp (conclude_store svc q written r) Q w"
  unfolding conclude_store_def
  using assms(1)
  by (auto intro!: wp_prep_log assms(2) simp: prep_ok_def audited_text fun_eq_iff)
    (blast intro: prep_frame_trans)+

text \<open>The collaborators' rules, as the workflow uses them.\<close>

lemma wp_archive_step:
  assumes "entries w p = Some n"
    and "\<And>x w'. prep_frame svc r w r w' \<Longrightarrow>
      (revision_write_ok x \<Longrightarrow> revision_text (ps_revisions svc) w' v = Some (content n)) \<Longrightarrow> Q x w'"
  shows "wp (store_revision (ps_revisions svc) v p) Q w"
proof (rule wp_store_revision)
  fix x w' assume e: "store_revision_effect (ps_revisions svc) v p x w w'"
  show "Q x w'"
    by (rule assms(2)) (use e assms(1) in \<open>auto simp: store_revision_effect_def intro: prep_frame_store\<close>)
qed

lemma wp_stage_step:
  assumes "\<And>x w'. prep_frame svc r w r w' \<Longrightarrow>
      (stage_ok x \<Longrightarrow> stage_candidate_path x = Some (candidate_path (ps_staging svc) op) \<and>
         CHR 0x00 \<notin> set c \<and>
         (\<exists>n. entries w' (candidate_path (ps_staging svc) op) = Some n \<and> content n = c)) \<Longrightarrow> Q x w'"
  shows "wp (stage (ps_staging svc) op c) Q w"
proof (rule wp_stage)
  fix x w' assume e: "stage_effect (ps_staging svc) op c x w w'"
  show "Q x w'"
    by (rule assms) (use e in \<open>auto simp: stage_effect_def intro: prep_frame_stage\<close>)
qed

lemma wp_check_step:
  assumes "\<And>x w'. prep_frame svc r w r w' \<Longrightarrow> entries w' = entries w \<Longrightarrow>
      (native_ok x \<Longrightarrow> \<exists>process. (path_string p, entries w, process) \<in> set (checks w') \<and>
         process_accepted process) \<Longrightarrow> Q x w'"
  shows "wp (validate_candidate (ps_validator svc) p) Q w"
proof (rule wp_validate_candidate)
  fix x w' assume e: "pfctl_effect (ps_validator svc) ''-nf'' p (native_ok x) w w'"
  show "Q x w'"
  proof (rule assms)
    show "prep_frame svc r w r w'" using e by (rule prep_frame_check)
    show "entries w' = entries w" using e by (simp add: pfctl_effect_def)
    assume "native_ok x"
    with e show "\<exists>process. (path_string p, entries w, process) \<in> set (checks w') \<and> process_accepted process"
      by (auto elim!: pfctl_effect_ok)
  qed
qed

lemma wp_store_prepared:
  assumes candidate: "entries w p = Some n" and outside: "fst p \<noteq> ps_journal svc"
    and roots: "ps_revisions svc \<noteq> ps_journal svc"
    and post: "\<And>x w'. prep_frame svc r w x w' \<Longrightarrow>
      (prep_ok x \<Longrightarrow> revision_text (ps_revisions svc) w' (rs_revision (prep_rule_set q)) = Some (content n)) \<Longrightarrow>
      Q x w'"
  shows "wp (store_prepared svc q p r) Q w"
proof -
  have "entries w1 p = Some n" if "audited (ps_journal svc) es w w1" for es w1
    using audited_entry [OF that, of p] candidate outside by (cases p) (auto simp: journal_path_def)
  then show ?thesis
    unfolding store_prepared_def using roots
    by (auto intro!: wp_prep_log wp_archive_step wp_conclude_store post)
      (blast intro: prep_frame_trans)+
qed

text \<open>What holds of a workflow that reports \<open>prepared\<close>, for the staged text \<open>c\<close>.\<close>

definition prepared_from ::
  "preparation_service \<Rightarrow> preparation_request \<Rightarrow> path \<Rightarrow> string \<Rightarrow> world \<Rightarrow> bool" where
  "prepared_from svc q p c w \<longleftrightarrow>
     revision_text (ps_revisions svc) w (rs_revision (prep_rule_set q)) = Some c \<and>
     (\<exists>fs process n. (path_string p, fs, process) \<in> set (checks w) \<and> process_accepted process \<and>
        fs p = Some n \<and> content n = c)"

lemma wp_conclude_check:
  assumes candidate: "entries w p = Some n" and outside: "fst p \<noteq> ps_journal svc"
    and roots: "ps_revisions svc \<noteq> ps_journal svc"
    and checked: "native_ok native \<Longrightarrow> \<exists>process fs n'. (path_string p, fs, process) \<in> set (checks w) \<and>
         process_accepted process \<and> fs p = Some n' \<and> content n' = content n"
    and post: "\<And>x w'. prep_frame svc r w x w' \<Longrightarrow>
      (prep_ok x \<Longrightarrow> prepared_from svc q p (content n) w') \<Longrightarrow> Q x w'"
  shows "wp (conclude_check svc q p native r) Q w"
proof -
  have here: "entries w1 p = Some n" if "audited (ps_journal svc) es w w1" for es w1
    using audited_entry [OF that, of p] candidate outside by (cases p) (auto simp: journal_path_def)
  have grow: "prepared_from svc q p (content n) w'"
    if "native_ok native" "prep_frame svc r w x w'"
      "revision_text (ps_revisions svc) w' (rs_revision (prep_rule_set q)) = Some (content n)" for x w'
    using that checked unfolding prepared_from_def prep_frame_def by blast
  have bad: "\<not> prep_ok (r'\<lparr>prep_status := map_native_status (nv_status native), prep_event_id := a,
      prep_message := b\<rparr>)" if "\<not> native_ok native" for r' a b
    using that by (auto simp: prep_ok_def native_ok_def map_native_status_def split: native_status.splits)
  show ?thesis
    unfolding conclude_check_def Let_def
    using outside roots
    by (auto simp: bad here intro!: wp_prep_append wp_store_prepared post intro: grow)
      (blast intro: prep_frame_trans grow)+
qed

lemma wp_check_staged:
  assumes candidate: "entries w p = Some n" and outside: "fst p \<noteq> ps_journal svc"
    and roots: "ps_revisions svc \<noteq> ps_journal svc"
    and post: "\<And>x w'. prep_frame svc r w x w' \<Longrightarrow>
      (prep_ok x \<Longrightarrow> prepared_from svc q p (content n) w') \<Longrightarrow> Q x w'"
  shows "wp (check_staged svc q p r) Q w"
proof -
  have here: "entries w1 p = Some n" if "audited (ps_journal svc) es w w1" for es w1
    using audited_entry [OF that, of p] candidate outside by (cases p) (auto simp: journal_path_def)
  show ?thesis
    unfolding check_staged_def
  proof (rule wp_prep_log)
    fix r1 e w1 assume f1: "prep_frame svc r w r1 w1" and a1: "audited (ps_journal svc) [e] w w1"
    have "wp (validate_candidate (ps_validator svc) p) (\<lambda>x. wp (conclude_check svc q p x r1) Q) w1"
    proof (rule wp_check_step)
      fix x w2 assume f2: "prep_frame svc r1 w1 r1 w2" and same: "entries w2 = entries w1"
        and ok: "native_ok x \<Longrightarrow> \<exists>process. (path_string p, entries w1, process) \<in> set (checks w2) \<and>
          process_accepted process"
      show "wp (conclude_check svc q p x r1) Q w2"
      proof (rule wp_conclude_check [OF _ outside roots])
        show "entries w2 p = Some n" using same here [OF a1] by simp
        show "\<exists>process fs n'. (path_string p, fs, process) \<in> set (checks w2) \<and>
            process_accepted process \<and> fs p = Some n' \<and> content n' = content n" if "native_ok x"
          using ok [OF that] here [OF a1] by blast
        fix y w3 assume "prep_frame svc r1 w2 y w3" "prep_ok y \<Longrightarrow> prepared_from svc q p (content n) w3"
        with f1 f2 show "Q y w3" by (intro post) (blast intro: prep_frame_trans)+
      qed
    qed
    then show "wp (do { native \<leftarrow> validate_candidate (ps_validator svc) p;
        conclude_check svc q p native r1 }) Q w1" by simp
  qed (use post in blast)
qed

lemma wp_conclude_stage:
  assumes staged: "stage_ok x \<Longrightarrow> stage_candidate_path x = Some (candidate_path (ps_staging svc) op) \<and>
       CHR 0x00 \<notin> set c \<and>
       (\<exists>n. entries w (candidate_path (ps_staging svc) op) = Some n \<and> content n = c)"
    and roots: "ps_staging svc \<noteq> ps_journal svc" "ps_revisions svc \<noteq> ps_journal svc"
    and post: "\<And>y w'. prep_frame svc r w y w' \<Longrightarrow>
      (prep_ok y \<Longrightarrow> CHR 0x00 \<notin> set c \<and> prepared_from svc q (candidate_path (ps_staging svc) op) c w') \<Longrightarrow>
      Q y w'"
  shows "wp (conclude_stage svc q x r) Q w"
proof (cases "stage_ok x")
  case False
  then show ?thesis
    unfolding conclude_stage_def by (auto intro!: wp_prep_log post simp: prep_ok_def)
next
  case True
  let ?p = "candidate_path (ps_staging svc) op"
  from staged [OF True] obtain n where n: "entries w ?p = Some n" "content n = c" "CHR 0x00 \<notin> set c"
    "stage_candidate_path x = Some ?p" by blast
  have here: "entries w1 ?p = Some n" if "audited (ps_journal svc) es w w1" for es w1
    using audited_entry [OF that, of ?p] n(1) roots(1)
    by (auto simp: journal_path_def candidate_path_def)
  show ?thesis
    unfolding conclude_stage_def
    using True n(2-4) roots
    by (auto intro!: wp_prep_log wp_check_staged [where n = n] post here)
      (blast intro: prep_frame_trans)+
qed

lemma wp_stage_rendered:
  assumes roots: "ps_staging svc \<noteq> ps_journal svc" "ps_revisions svc \<noteq> ps_journal svc"
    and post: "\<And>y w'. prep_frame svc r w y w' \<Longrightarrow>
      (prep_ok y \<Longrightarrow> CHR 0x00 \<notin> set c \<and>
         prepared_from svc q (candidate_path (ps_staging svc) (prep_operation_id q)) c w') \<Longrightarrow> Q y w'"
  shows "wp (stage_rendered svc q c r) Q w"
  unfolding stage_rendered_def using roots
  by (auto intro!: wp_prep_log wp_stage_step wp_conclude_stage [where c = c] post)
    (blast intro: prep_frame_trans)+

lemma wp_prepare:
  assumes roots: "ps_staging svc \<noteq> ps_journal svc" "ps_revisions svc \<noteq> ps_journal svc"
    and post: "\<And>y w'. prep_frame svc initial_preparation w y w' \<Longrightarrow>
      (prep_ok y \<Longrightarrow> render_ok (render (ps_addresses svc) (prep_rule_set q)) \<and>
         CHR 0x00 \<notin> set (render_ruleset (render (ps_addresses svc) (prep_rule_set q))) \<and>
         prepared_from svc q (candidate_path (ps_staging svc) (prep_operation_id q))
           (render_ruleset (render (ps_addresses svc) (prep_rule_set q))) w') \<Longrightarrow> Q y w'"
  shows "wp (prepare svc q) Q w"
proof (cases "render_ok (render (ps_addresses svc) (prep_rule_set q))")
  case True
  with roots show ?thesis
    unfolding prepare_def Let_def
    by (auto intro!: wp_prep_log wp_stage_rendered post) (blast intro: prep_frame_trans)+
next
  case False
  have log: "wp (prep_log svc q sev eid act outcome m extra r return) Q w1"
    if "prep_frame svc initial_preparation w r w1" "prep_status r \<noteq> Prep_prepared"
    for sev eid act outcome m extra r w1
    using that by (auto intro!: wp_prep_log post simp: prep_ok_def) (blast intro: prep_frame_trans)+
  from False show ?thesis
    unfolding prepare_def Let_def
    by (auto intro!: wp_prep_log log post simp: prep_ok_def)
qed

lemma prepare_outcome:
  assumes "ps_staging svc \<noteq> ps_journal svc" "ps_revisions svc \<noteq> ps_journal svc"
    "run_state (prepare svc q) w = (r, w')"
  shows "prep_frame svc initial_preparation w r w'"
    and "prep_ok r \<Longrightarrow> render_ok (render (ps_addresses svc) (prep_rule_set q)) \<and>
         CHR 0x00 \<notin> set (render_ruleset (render (ps_addresses svc) (prep_rule_set q))) \<and>
         prepared_from svc q (candidate_path (ps_staging svc) (prep_operation_id q))
           (render_ruleset (render (ps_addresses svc) (prep_rule_set q))) w'"
proof -
  have "wp (prepare svc q) (\<lambda>r w'. prep_frame svc initial_preparation w r w' \<and>
      (prep_ok r \<longrightarrow> render_ok (render (ps_addresses svc) (prep_rule_set q)) \<and>
         CHR 0x00 \<notin> set (render_ruleset (render (ps_addresses svc) (prep_rule_set q))) \<and>
         prepared_from svc q (candidate_path (ps_staging svc) (prep_operation_id q))
           (render_ruleset (render (ps_addresses svc) (prep_rule_set q))) w')) w"
    by (rule wp_prepare [OF assms(1,2)]) blast
  from wpD [OF this assms(3)]
  show "prep_frame svc initial_preparation w r w'"
    "prep_ok r \<Longrightarrow> render_ok (render (ps_addresses svc) (prep_rule_set q)) \<and>
         CHR 0x00 \<notin> set (render_ruleset (render (ps_addresses svc) (prep_rule_set q))) \<and>
         prepared_from svc q (candidate_path (ps_staging svc) (prep_operation_id q))
           (render_ruleset (render (ps_addresses svc) (prep_rule_set q))) w'"
    by blast+
qed

text \<open>
  C17. Preparation never touches the running firewall and audits what it reports: whatever fails,
  no rule set is loaded, no file outside the journal, the staging area and the archive changes, and
  the events the result lists are exactly those that entered the journal, in order.
\<close>

theorem preparation_never_activates:
  assumes "ps_staging svc \<noteq> ps_journal svc" and "ps_revisions svc \<noteq> ps_journal svc"
  shows "case run_state (prepare svc q) w of (r, w') \<Rightarrow>
     loads w' = loads w \<and>
     only_touches ({journal_path (ps_journal svc)} \<union> in_directory (ps_staging svc) \<union>
       in_directory (ps_revisions svc)) w w' \<and>
     audits (actions w') = audits (actions w) @ prep_journaled_events r"
proof -
  obtain r w' where run: "run_state (prepare svc q) w = (r, w')" by fastforce
  from prepare_outcome(1) [OF assms run] show ?thesis
    by (auto simp: run prep_frame_def initial_preparation_def)
qed


definition sample_service :: preparation_service where
  "sample_service = \<lparr>ps_journal = ''/j'', ps_staging = ''/s'', ps_revisions = ''/r'',
     ps_validator = \<lparr>pfctl_executable = ''/sbin/pfctl'', pfctl_timeout = 5000\<rparr>,
     ps_addresses = decimal_parser\<rparr>"

definition sample_request :: preparation_request where
  "sample_request = \<lparr>prep_operation_id = ''op-1'', prep_rule_set = sample_rules\<rparr>"

lemma preparation_never_activates_witness:
  "case run_state (prepare sample_service sample_request) idle_world of (r, w') \<Rightarrow>
     loads w' = loads idle_world \<and>
     only_touches ({journal_path (ps_journal sample_service)} \<union> in_directory (ps_staging sample_service) \<union>
       in_directory (ps_revisions sample_service)) idle_world w' \<and>
     audits (actions w') = audits (actions idle_world) @ prep_journaled_events r"
  by (rule preparation_never_activates) (simp_all add: sample_service_def)


end
