(* ===== verification/Process_Runner.thy ===== *)
theory Process_Runner
  imports Pfctl "HOL-Library.While_Combinator"
begin

text \<open>
  How a child process is run (\<open>posix_process_runner.cpp\<close>): its two output pipes are
  drained into bounded buffers while it is waited for, and it is killed at a deadline. What the
  operating system answers in each round of the loop is a \<open>round\<close>, and the whole run is
  given by an infinite sequence of rounds; between two rounds a pipe delivers finitely many chunks.
  The child's own branch after \<open>fork\<close> decides which program the child becomes, or with which
  code it gives up.
\<close>

section \<open>Bounded capture\<close>

definition maximum_captured_output :: nat where
  "maximum_captured_output = 65536"

definition append_bounded :: "string \<Rightarrow> string \<Rightarrow> bool \<Rightarrow> string \<times> bool" where
  "append_bounded destination chunk truncated =
     (if length destination \<ge> maximum_captured_output then (destination, True)
      else
        (let available = maximum_captured_output - length destination;
             count = min available (length chunk)
         in (destination @ take count chunk, truncated \<or> count < length chunk)))"

text \<open>The results of \<open>read\<close>: bytes (no bytes is the end of file), a signal, nothing for
  now, another error.\<close>

datatype read_result = Read_bytes string | Read_interrupted | Would_block_now | Read_failed

text \<open>\<open>drain_descriptor\<close>: the first component tells whether the descriptor is open. After
  the listed results the pipe has nothing for now.\<close>

fun drain :: "read_result list \<Rightarrow> bool \<times> string \<times> bool \<Rightarrow> bool \<times> string \<times> bool" where
  "drain rs (False, destination, truncated) = (False, destination, truncated)"
| "drain [] (True, destination, truncated) = (True, destination, truncated)"
| "drain (Read_bytes c # rs) (True, destination, truncated) =
     (if c = [] then (False, destination, truncated)
      else drain rs (True, append_bounded destination c truncated))"
| "drain (Read_interrupted # rs) (True, destination, truncated) = drain rs (True, destination, truncated)"
| "drain (Would_block_now # rs) (True, destination, truncated) = (True, destination, truncated)"
| "drain (Read_failed # rs) (True, destination, truncated) = (False, destination, truncated)"

section \<open>One run\<close>

datatype child_status = Exited nat | Signaled nat

datatype wait_result = Still_running | Child_reaped child_status | Wait_failed errno

record round =
  ro_output :: "read_result list"
  ro_error :: "read_result list"
  ro_wait :: wait_result
  ro_late :: bool
  ro_killed :: "child_status option"
  ro_poll_error :: "errno option"

record capture =
  cap_output_open :: bool
  cap_error_open :: bool
  cap_output :: string
  cap_error :: string
  cap_truncated :: bool
  cap_finished :: bool
  cap_status :: child_status
  cap_timed_out :: bool
  cap_message :: string

definition initial_capture :: capture where
  "initial_capture =
     \<lparr>cap_output_open = True, cap_error_open = True, cap_output = [], cap_error = [],
      cap_truncated = False, cap_finished = False, cap_status = Exited 0, cap_timed_out = False,
      cap_message = []\<rparr>"

definition drain_both :: "round \<Rightarrow> capture \<Rightarrow> capture" where
  "drain_both r c =
     (case drain (ro_output r) (cap_output_open c, cap_output c, cap_truncated c) of
        (output_open, output, truncated) \<Rightarrow>
          (case drain (ro_error r) (cap_error_open c, cap_error c, truncated) of
             (error_open, error_text, truncated) \<Rightarrow>
               c\<lparr>cap_output_open := output_open, cap_output := output, cap_error_open := error_open,
                 cap_error := error_text, cap_truncated := truncated\<rparr>))"

definition wait_child :: "(errno \<Rightarrow> string) \<Rightarrow> round \<Rightarrow> capture \<Rightarrow> capture" where
  "wait_child describe r c =
     (if cap_finished c then c
      else (case ro_wait r of
              Still_running \<Rightarrow> c
            | Child_reaped s \<Rightarrow> c\<lparr>cap_status := s, cap_finished := True\<rparr>
            | Wait_failed e \<Rightarrow>
                (if e = EINTR then c
                 else c\<lparr>cap_message := ''waitpid failed: '' @ describe e, cap_finished := True\<rparr>)))"

definition enforce_deadline :: "round \<Rightarrow> capture \<Rightarrow> capture" where
  "enforce_deadline r c =
     (if cap_finished c \<or> \<not> ro_late r then c
      else c\<lparr>cap_timed_out := True, cap_finished := True,
             cap_status := (case ro_killed r of None \<Rightarrow> cap_status c | Some s \<Rightarrow> s)\<rparr>)"

definition all_done :: "capture \<Rightarrow> bool" where
  "all_done c \<longleftrightarrow> cap_finished c \<and> \<not> cap_output_open c \<and> \<not> cap_error_open c"

text \<open>One iteration; the flag tells whether a failed \<open>poll\<close> left the loop.\<close>

definition capture_round :: "(errno \<Rightarrow> string) \<Rightarrow> round \<Rightarrow> capture \<Rightarrow> bool \<times> capture" where
  "capture_round describe r c =
     (let c = enforce_deadline r (wait_child describe r (drain_both r c))
      in if all_done c then (False, c)
         else (case ro_poll_error r of
                 None \<Rightarrow> (False, c)
               | Some e \<Rightarrow>
                   (if e = EINTR then (False, c)
                    else (True, c\<lparr>cap_message := ''poll failed: '' @ describe e\<rparr>))))"

definition capture_loop ::
  "(errno \<Rightarrow> string) \<Rightarrow> (nat \<Rightarrow> round) \<Rightarrow> (nat \<times> bool \<times> capture) option" where
  "capture_loop describe rounds =
     while_option (\<lambda>(n, halted, c). \<not> halted \<and> \<not> all_done c)
       (\<lambda>(n, halted, c). (Suc n, capture_round describe (rounds n) c)) (0, False, initial_capture)"

text \<open>What precedes the loop.\<close>

datatype launch = Pipe_failed errno | Fork_failed errno | Nonblocking_failed | Launched

definition not_run :: "string \<Rightarrow> process_result" where
  "not_run m = \<lparr>launched = False, timed_out = False, output_truncated = False, exit_code = - 1,
     standard_output = [], standard_error = [], error_message = m\<rparr>"

definition exit_code_of :: "child_status \<Rightarrow> int" where
  "exit_code_of s = (case s of Exited n \<Rightarrow> int n | Signaled n \<Rightarrow> 128 + int n)"

text \<open>
  \<open>run\<close>; no result at all is a run that never returns. After the loop both pipes are drained
  once more.
\<close>

definition run_child ::
  "(errno \<Rightarrow> string) \<Rightarrow> string \<Rightarrow> int \<Rightarrow> launch \<Rightarrow> (nat \<Rightarrow> round) \<Rightarrow> process_result option" where
  "run_child describe exe timeout start rounds =
     (if \<not> is_absolute exe \<or> timeout \<le> 0
      then Some (not_run ''Executable path must be absolute and timeout must be positive.'')
      else (case start of
              Pipe_failed e \<Rightarrow> Some (not_run (''Could not create output pipes: '' @ describe e))
            | Fork_failed e \<Rightarrow> Some (not_run (''Could not create validation process: '' @ describe e))
            | Nonblocking_failed \<Rightarrow>
                Some ((not_run ''Could not configure non-blocking output capture.'')
                  \<lparr>launched := True, exit_code := 128 + 9\<rparr>)
            | Launched \<Rightarrow>
                (case capture_loop describe rounds of
                   None \<Rightarrow> None
                 | Some (n, halted, c) \<Rightarrow>
                     (let c = drain_both (rounds n) c
                      in Some \<lparr>launched = True, timed_out = cap_timed_out c,
                           output_truncated = cap_truncated c, exit_code = exit_code_of (cap_status c),
                           standard_output = cap_output c, standard_error = cap_error c,
                           error_message = cap_message c\<rparr>))))"

text \<open>
  The child's branch: its output goes to the pipes, then it becomes the program, with the program's
  path as its zeroth argument. The flags tell which of \<open>dup2\<close>, \<open>dup2\<close> and
  \<open>execv\<close> succeed.
\<close>

definition c_argument :: "string \<Rightarrow> string" where
  "c_argument s = takeWhile (\<lambda>c. c \<noteq> CHR 0x00) s"

datatype child_image = Becomes string "string list" | Gives_up nat string

definition child_branch :: "bool \<Rightarrow> bool \<Rightarrow> bool \<Rightarrow> string \<Rightarrow> string list \<Rightarrow> child_image" where
  "child_branch output_duplicated error_duplicated executes exe arguments =
     (if \<not> output_duplicated \<or> \<not> error_duplicated then Gives_up 126 []
      else if executes then Becomes (c_argument exe) (map c_argument (exe # arguments))
      else Gives_up 127 (''execv failed'' @ [newline]))"

text \<open>A child that gave up is told apart from every answer of the program but these two codes.\<close>

lemma gives_up_recognised:
  "child_branch d1 d2 executes exe arguments = Gives_up n m \<Longrightarrow> exit_code r = exit_code_of (Exited n) \<Longrightarrow>
     execution_failed r"
  by (auto simp: child_branch_def exit_code_of_def execution_failed_def split: if_splits)

text \<open>Arguments without a NUL byte reach the program as they are.\<close>

lemma arguments_unchanged:
  assumes "child_branch d1 d2 executes exe arguments = Becomes program argv"
    and "list_all (\<lambda>s. CHR 0x00 \<notin> set s) (exe # arguments)"
  shows "program = exe \<and> argv = exe # arguments"
proof -
  have plain: "c_argument s = s" if "CHR 0x00 \<notin> set s" for s
    using that by (auto simp: c_argument_def takeWhile_eq_all_conv)
  from assms show ?thesis
    by (auto simp: child_branch_def plain list_all_iff intro!: map_idI split: if_splits)
qed

section \<open>What is captured\<close>

text \<open>The bytes a descriptor delivers in one drain, and whether it ends.\<close>

fun delivered :: "read_result list \<Rightarrow> string" where
  "delivered [] = []"
| "delivered (Read_bytes c # rs) = (if c = [] then [] else c @ delivered rs)"
| "delivered (Read_interrupted # rs) = delivered rs"
| "delivered (_ # rs) = []"

fun closes :: "read_result list \<Rightarrow> bool" where
  "closes [] \<longleftrightarrow> False"
| "closes (Read_bytes c # rs) \<longleftrightarrow> c = [] \<or> closes rs"
| "closes (Read_interrupted # rs) \<longleftrightarrow> closes rs"
| "closes (Would_block_now # rs) \<longleftrightarrow> False"
| "closes (_ # rs) \<longleftrightarrow> True"

text \<open>Whether a pipe is open before round \<open>n\<close>, and all it has delivered by then.\<close>

definition pipe_open :: "(nat \<Rightarrow> read_result list) \<Rightarrow> nat \<Rightarrow> bool" where
  "pipe_open reads n \<longleftrightarrow> (\<forall>k < n. \<not> closes (reads k))"

fun pipe_bytes :: "(nat \<Rightarrow> read_result list) \<Rightarrow> nat \<Rightarrow> string" where
  "pipe_bytes reads 0 = []"
| "pipe_bytes reads (Suc n) = pipe_bytes reads n @ (if pipe_open reads n then delivered (reads n) else [])"

definition kept :: "string \<Rightarrow> string" where
  "kept bytes = take maximum_captured_output bytes"

definition too_long :: "string \<Rightarrow> bool" where
  "too_long bytes \<longleftrightarrow> maximum_captured_output < length bytes"

lemma append_bounded_kept:
  "append_bounded (kept bytes) chunk (t \<or> too_long bytes) =
     (kept (bytes @ chunk), t \<or> too_long (bytes @ chunk))" if "chunk \<noteq> []"
  using that
  by (auto simp: append_bounded_def kept_def too_long_def Let_def min_def)

lemma drain_closed [simp]: "drain rs (False, destination, truncated) = (False, destination, truncated)"
  by (cases rs) simp_all

lemma drain_kept:
  "drain rs (True, kept bytes, t \<or> too_long bytes) =
     (\<not> closes rs, kept (bytes @ delivered rs), t \<or> too_long (bytes @ delivered rs))"
proof (induction rs arbitrary: bytes)
  case (Cons r rs)
  show ?case
  proof (cases r)
    case (Read_bytes c)
    with Cons [of "bytes @ c"] show ?thesis by (simp add: append_bounded_kept)
  qed (use Cons in simp_all)
qed simp

lemma pipe_open_Suc [simp]: "pipe_open reads (Suc n) \<longleftrightarrow> pipe_open reads n \<and> \<not> closes (reads n)"
  by (auto simp: pipe_open_def less_Suc_eq)

lemma pipe_open_0 [simp]: "pipe_open reads 0"
  by (simp add: pipe_open_def)

lemma drain_pipe:
  "drain (reads n) (pipe_open reads n, kept (pipe_bytes reads n), t \<or> too_long (pipe_bytes reads n)) =
     (pipe_open reads (Suc n), kept (pipe_bytes reads (Suc n)), t \<or> too_long (pipe_bytes reads (Suc n)))"
  by (cases "pipe_open reads n") (simp_all add: drain_kept)

text \<open>What the loop knows before round \<open>n\<close>.\<close>

definition captured :: "(nat \<Rightarrow> round) \<Rightarrow> nat \<Rightarrow> capture \<Rightarrow> bool" where
  "captured rounds n c \<longleftrightarrow>
     (let output = pipe_bytes (ro_output \<circ> rounds) n; error_text = pipe_bytes (ro_error \<circ> rounds) n
      in cap_output_open c = pipe_open (ro_output \<circ> rounds) n \<and>
         cap_error_open c = pipe_open (ro_error \<circ> rounds) n \<and>
         cap_output c = kept output \<and> cap_error c = kept error_text \<and>
         cap_truncated c = (too_long output \<or> too_long error_text))"

lemma captured_initial: "captured rounds 0 initial_capture"
  by (simp add: captured_def initial_capture_def kept_def too_long_def)

lemma captured_drain:
  assumes "captured rounds n c"
  shows "captured rounds (Suc n) (drain_both (rounds n) c)"
    "cap_finished (drain_both (rounds n) c) = cap_finished c"
    "cap_status (drain_both (rounds n) c) = cap_status c"
    "cap_message (drain_both (rounds n) c) = cap_message c"
    "cap_timed_out (drain_both (rounds n) c) = cap_timed_out c"
proof -
  let ?f = "ro_output \<circ> rounds" and ?g = "ro_error \<circ> rounds"
  have out: "drain (ro_output (rounds n)) (cap_output_open c, cap_output c, cap_truncated c) =
      (pipe_open ?f (Suc n), kept (pipe_bytes ?f (Suc n)),
       too_long (pipe_bytes ?g n) \<or> too_long (pipe_bytes ?f (Suc n)))"
    using assms drain_pipe [of ?f n "too_long (pipe_bytes ?g n)"]
    by (simp add: captured_def Let_def disj_commute)
  have err: "drain (ro_error (rounds n)) (cap_error_open c, cap_error c,
        too_long (pipe_bytes ?g n) \<or> too_long (pipe_bytes ?f (Suc n))) =
      (pipe_open ?g (Suc n), kept (pipe_bytes ?g (Suc n)),
       too_long (pipe_bytes ?f (Suc n)) \<or> too_long (pipe_bytes ?g (Suc n)))"
    using assms drain_pipe [of ?g n "too_long (pipe_bytes ?f (Suc n))"]
    by (simp add: captured_def Let_def disj_commute)
  show "captured rounds (Suc n) (drain_both (rounds n) c)"
    "cap_finished (drain_both (rounds n) c) = cap_finished c"
    "cap_status (drain_both (rounds n) c) = cap_status c"
    "cap_message (drain_both (rounds n) c) = cap_message c"
    "cap_timed_out (drain_both (rounds n) c) = cap_timed_out c"
    unfolding drain_both_def out prod.case err captured_def Let_def by simp_all
qed

section \<open>The rounds of a run\<close>

text \<open>A round after which the child is taken as finished, and one whose \<open>poll\<close> fails.\<close>

definition ends :: "round \<Rightarrow> bool" where
  "ends r \<longleftrightarrow>
     (case ro_wait r of Still_running \<Rightarrow> False | Child_reaped s \<Rightarrow> True | Wait_failed e \<Rightarrow> e \<noteq> EINTR) \<or>
     ro_late r"

definition poll_fails :: "round \<Rightarrow> bool" where
  "poll_fails r \<longleftrightarrow> (case ro_poll_error r of None \<Rightarrow> False | Some e \<Rightarrow> e \<noteq> EINTR)"

text \<open>Before round \<open>n\<close> the child has ended and both pipes are closed.\<close>

definition done_by :: "(nat \<Rightarrow> round) \<Rightarrow> nat \<Rightarrow> bool" where
  "done_by rounds n \<longleftrightarrow>
     (\<exists>k < n. ends (rounds k)) \<and> \<not> pipe_open (ro_output \<circ> rounds) n \<and> \<not> pipe_open (ro_error \<circ> rounds) n"

text \<open>
  What holds before round \<open>n\<close>: the captured bytes, whether the child is finished, and that a
  finish that looks like a success is one the child reported before the deadline.
\<close>

definition progress :: "(nat \<Rightarrow> round) \<Rightarrow> nat \<Rightarrow> capture \<Rightarrow> bool" where
  "progress rounds n c \<longleftrightarrow>
     captured rounds n c \<and> cap_finished c = (\<exists>k < n. ends (rounds k)) \<and>
     (\<not> cap_finished c \<longrightarrow> \<not> cap_timed_out c) \<and>
     (cap_finished c \<longrightarrow> \<not> cap_timed_out c \<longrightarrow> cap_message c = [] \<longrightarrow>
        (\<exists>k < n. ro_wait (rounds k) = Child_reaped (cap_status c) \<and> (\<forall>j < k. \<not> ro_late (rounds j))))"

lemma all_done_progress: "progress rounds n c \<Longrightarrow> all_done c \<longleftrightarrow> done_by rounds n"
  by (auto simp: progress_def all_done_def done_by_def captured_def Let_def)

lemma progress_initial: "progress rounds 0 initial_capture"
  by (simp add: progress_def captured_initial) (simp add: initial_capture_def)

lemma captured_other [simp]:
  "captured rounds n (c\<lparr>cap_finished := f\<rparr>) = captured rounds n c"
  "captured rounds n (c\<lparr>cap_status := st\<rparr>) = captured rounds n c"
  "captured rounds n (c\<lparr>cap_timed_out := b\<rparr>) = captured rounds n c"
  "captured rounds n (c\<lparr>cap_message := m\<rparr>) = captured rounds n c"
  by (simp_all add: captured_def)

lemma progress_step:
  assumes "progress rounds n c"
  shows "progress rounds (Suc n) (enforce_deadline (rounds n) (wait_child describe (rounds n) (drain_both (rounds n) c)))"
proof -
  let ?c = "drain_both (rounds n) c"
  have drained: "captured rounds (Suc n) ?c" "cap_finished ?c = cap_finished c" "cap_status ?c = cap_status c"
    "cap_message ?c = cap_message c" "cap_timed_out ?c = cap_timed_out c"
    using captured_drain [of rounds n c] assms by (simp_all add: progress_def)
  show ?thesis
  proof (cases "cap_finished c")
    case True
    with assms drained show ?thesis
      by (auto simp: progress_def wait_child_def enforce_deadline_def less_Suc_eq)
  next
    case False
    with assms have running: "\<forall>k < n. \<not> ends (rounds k)" "\<not> cap_timed_out c"
      by (auto simp: progress_def)
    then have early: "\<forall>k < n. \<not> ro_late (rounds k)" by (simp add: ends_def)
    show ?thesis
      using False drained running early
      by (auto simp: progress_def wait_child_def enforce_deadline_def ends_def less_Suc_eq
          split: wait_result.splits)
  qed
qed

lemma progress_round:
  assumes "progress rounds n c" "capture_round describe (rounds n) c = (halted, c')"
  shows "captured rounds (Suc n) c'"
    "halted \<longleftrightarrow> poll_fails (rounds n) \<and> \<not> done_by rounds (Suc n)"
    "halted \<Longrightarrow> cap_message c' \<noteq> []" "\<not> halted \<Longrightarrow> progress rounds (Suc n) c'"
proof -
  let ?c = "enforce_deadline (rounds n) (wait_child describe (rounds n) (drain_both (rounds n) c))"
  have step: "progress rounds (Suc n) ?c" by (rule progress_step [OF assms(1)])
  then have captured: "captured rounds (Suc n) ?c" by (simp add: progress_def)
  note complete = all_done_progress [OF step]
  show "captured rounds (Suc n) c'" "halted \<longleftrightarrow> poll_fails (rounds n) \<and> \<not> done_by rounds (Suc n)"
    "halted \<Longrightarrow> cap_message c' \<noteq> []" "\<not> halted \<Longrightarrow> progress rounds (Suc n) c'"
    using assms(2) step captured complete
    by (auto simp: capture_round_def Let_def poll_fails_def split: if_splits option.splits)
qed

abbreviation loop_continues :: "nat \<times> bool \<times> capture \<Rightarrow> bool" where
  "loop_continues \<equiv> (\<lambda>(n, halted, c). \<not> halted \<and> \<not> all_done c)"

abbreviation loop_body :: "(errno \<Rightarrow> string) \<Rightarrow> (nat \<Rightarrow> round) \<Rightarrow> nat \<times> bool \<times> capture \<Rightarrow> nat \<times> bool \<times> capture" where
  "loop_body describe rounds \<equiv> (\<lambda>(n, halted, c). (Suc n, capture_round describe (rounds n) c))"

definition loop_invariant :: "(nat \<Rightarrow> round) \<Rightarrow> nat \<times> bool \<times> capture \<Rightarrow> bool" where
  "loop_invariant rounds s \<longleftrightarrow>
     (case s of (n, halted, c) \<Rightarrow>
        captured rounds n c \<and>
        (if halted then cap_message c \<noteq> [] \<and> (\<exists>k. n = Suc k \<and> poll_fails (rounds k))
         else progress rounds n c))"

lemma loop_invariant_body:
  "loop_invariant rounds s \<Longrightarrow> loop_continues s \<Longrightarrow> loop_invariant rounds (loop_body describe rounds s)"
proof -
  assume inv: "loop_invariant rounds s" and go: "loop_continues s"
  obtain n c where s: "s = (n, False, c)" using go by (cases s) auto
  with inv have p: "progress rounds n c" by (simp add: loop_invariant_def)
  obtain h c' where r: "capture_round describe (rounds n) c = (h, c')" by fastforce
  from progress_round [OF p r] show "loop_invariant rounds (loop_body describe rounds s)"
    by (auto simp: loop_invariant_def s r)
qed

lemma loop_invariant_result:
  assumes "capture_loop describe rounds = Some s"
  shows "loop_invariant rounds s" "\<not> loop_continues s"
proof -
  show "loop_invariant rounds s"
    by (rule while_option_rule [OF _ assms [unfolded capture_loop_def]])
      (rule loop_invariant_body, assumption+, simp add: loop_invariant_def captured_initial progress_initial)
  show "\<not> loop_continues s"
    by (rule while_option_stop [OF assms [unfolded capture_loop_def]])
qed

text \<open>As long as the loop has not been left, it has come round by round.\<close>

lemma loop_reaches:
  assumes "\<And>k. k < n \<Longrightarrow> \<not> poll_fails (rounds k)" "\<And>k. k \<le> n \<Longrightarrow> \<not> done_by rounds k"
  shows "\<exists>c. (loop_body describe rounds ^^ n) (0, False, initial_capture) = (n, False, c) \<and>
     progress rounds n c"
  using assms
proof (induction n)
  case 0
  then show ?case by (simp add: progress_initial)
next
  case (Suc n)
  then obtain c where at: "(loop_body describe rounds ^^ n) (0, False, initial_capture) = (n, False, c)"
    and p: "progress rounds n c" by auto
  obtain h c' where r: "capture_round describe (rounds n) c = (h, c')" by fastforce
  from progress_round [OF p r] Suc.prems have "\<not> h" "progress rounds (Suc n) c'" by auto
  with at r show ?case by simp
qed

section \<open>What the runner guarantees\<close>

lemma loop_terminates:
  "capture_loop describe rounds \<noteq> None \<longleftrightarrow> (\<exists>n. done_by rounds n \<or> poll_fails (rounds n))"
proof
  assume "capture_loop describe rounds \<noteq> None"
  then obtain n h c where s: "capture_loop describe rounds = Some (n, h, c)" by auto
  note inv = loop_invariant_result [OF s]
  show "\<exists>n. done_by rounds n \<or> poll_fails (rounds n)"
  proof (cases h)
    case True
    with inv(1) show ?thesis by (auto simp: loop_invariant_def)
  next
    case False
    with inv have "progress rounds n c" "all_done c" by (simp_all add: loop_invariant_def)
    then show ?thesis using all_done_progress by blast
  qed
next
  assume "\<exists>n. done_by rounds n \<or> poll_fails (rounds n)"
  then obtain m where "done_by rounds m \<or> poll_fails (rounds m)" ..
  then have some: "\<exists>n. done_by rounds n \<or> (\<exists>k. n = Suc k \<and> poll_fails (rounds k))"
    by (elim disjE) (rule exI [of _ m], simp, rule exI [of _ "Suc m"], simp)
  define left where "left = (\<lambda>n. done_by rounds n \<or> (\<exists>k. n = Suc k \<and> poll_fails (rounds k)))"
  define n where "n = Least left"
  have here: "done_by rounds n \<or> (\<exists>k. n = Suc k \<and> poll_fails (rounds k))"
    using LeastI_ex [of left] some unfolding n_def left_def by blast
  have before: "\<not> done_by rounds k" "\<not> (\<exists>j. k = Suc j \<and> poll_fails (rounds j))" if "k < n" for k
    using not_less_Least [of k left] that unfolding n_def left_def by blast+
  have "\<exists>k. \<not> loop_continues ((loop_body describe rounds ^^ k) (0, False, initial_capture))"
  proof (cases n)
    case 0
    with here have "done_by rounds 0" by simp
    then show ?thesis by (simp add: done_by_def)
  next
    case (Suc m)
    have "\<not> poll_fails (rounds k)" if "k < m" for k
      using before(2) [of "Suc k"] that Suc by auto
    moreover have "\<not> done_by rounds k" if "k \<le> m" for k using before(1) [of k] that Suc by simp
    ultimately obtain c where at: "(loop_body describe rounds ^^ m) (0, False, initial_capture) = (m, False, c)"
      and p: "progress rounds m c" using loop_reaches [of m rounds describe] by blast
    obtain h c' where r: "capture_round describe (rounds m) c = (h, c')" by fastforce
    have "\<not> loop_continues (Suc m, h, c')"
      using progress_round [OF p r] here Suc all_done_progress by (cases h) auto
    with at r have "\<not> loop_continues ((loop_body describe rounds ^^ Suc m) (0, False, initial_capture))"
      by simp
    then show ?thesis ..
  qed
  then show "capture_loop describe rounds \<noteq> None"
    by (auto simp: capture_loop_def while_option_def)
qed


text \<open>
  Killing the child at its deadline does not bound the run: while some other process keeps the
  write end of a pipe open, the runner does not return, whatever the deadline.
\<close>

theorem deadline_does_not_bound:
  assumes "is_absolute exe" and "0 < timeout"
    and "\<And>n. \<not> closes (ro_output (rounds n))" and "\<And>n. \<not> poll_fails (rounds n)"
  shows "run_child describe exe timeout Launched rounds = None"
proof -
  have "capture_loop describe rounds = None"
  proof (rule ccontr)
    assume "capture_loop describe rounds \<noteq> None"
    from loop_terminates [THEN iffD1, OF this] assms(3,4) show False
      by (auto simp: done_by_def pipe_open_def)
  qed
  with assms(1,2) show ?thesis by (simp add: run_child_def)
qed

definition held_open :: round where
  "held_open = \<lparr>ro_output = [], ro_error = [Read_bytes []], ro_wait = Still_running, ro_late = True,
     ro_killed = Some (Signaled 9), ro_poll_error = None\<rparr>"

lemma deadline_does_not_bound_witness:
  "run_child (\<lambda>_. ''error'') ''/sbin/pfctl'' 5000 Launched (\<lambda>_. held_open) = None"
  by (rule deadline_does_not_bound) (simp_all add: is_absolute_def held_open_def poll_fails_def)

text \<open>
  What a run captures. Each of the two texts is the first 65536 bytes of everything that pipe
  delivered, and the truncation flag is set exactly when one of them delivered more.
\<close>

theorem capture_is_bounded_prefix:
  assumes "run_child describe exe timeout start rounds = Some r"
  shows "\<exists>n. let output = pipe_bytes (ro_output \<circ> rounds) n; error_text = pipe_bytes (ro_error \<circ> rounds) n
     in standard_output r = take maximum_captured_output output \<and>
        standard_error r = take maximum_captured_output error_text \<and>
        (output_truncated r \<longleftrightarrow>
           maximum_captured_output < length output \<or> maximum_captured_output < length error_text)"
proof (cases "is_absolute exe \<and> 0 < timeout \<and> start = Launched")
  case False
  with assms have "standard_output r = [] \<and> standard_error r = [] \<and> \<not> output_truncated r"
    by (auto simp: run_child_def not_run_def split: launch.splits if_splits)
  then show ?thesis by (intro exI [of _ 0]) simp
next
  case True
  with assms obtain n h c where s: "capture_loop describe rounds = Some (n, h, c)"
    and r: "standard_output r = cap_output (drain_both (rounds n) c)"
      "standard_error r = cap_error (drain_both (rounds n) c)"
      "output_truncated r = cap_truncated (drain_both (rounds n) c)"
    by (auto simp: run_child_def Let_def split: option.splits)
  from loop_invariant_result(1) [OF s] have "captured rounds n c" by (simp add: loop_invariant_def)
  from captured_drain(1) [OF this] r show ?thesis
    by (intro exI [of _ "Suc n"]) (simp add: captured_def Let_def kept_def too_long_def)
qed

text \<open>
  A run is accepted only if the child itself exited with status zero, was reaped, and no deadline
  check before that had found it late.
\<close>

theorem accepted_child_succeeded:
  assumes "run_child describe exe timeout start rounds = Some r" and "process_accepted r"
  shows "start = Launched \<and>
     (\<exists>n. ro_wait (rounds n) = Child_reaped (Exited 0) \<and> (\<forall>j < n. \<not> ro_late (rounds j)))"
proof -
  from assms obtain n h c where s: "capture_loop describe rounds = Some (n, h, c)" and start: "start = Launched"
    and r: "exit_code r = exit_code_of (cap_status (drain_both (rounds n) c))"
      "timed_out r = cap_timed_out (drain_both (rounds n) c)"
      "error_message r = cap_message (drain_both (rounds n) c)"
    by (auto simp: run_child_def Let_def process_accepted_def not_run_def split: launch.splits option.splits if_splits)
  from loop_invariant_result [OF s] have inv: "loop_invariant rounds (n, h, c)" and "\<not> loop_continues (n, h, c)" .
  then have captured: "captured rounds n c" by (simp add: loop_invariant_def)
  from captured_drain [OF captured] r assms(2) have c: "cap_message c = []" "\<not> cap_timed_out c"
    "exit_code_of (cap_status c) = 0" by (simp_all add: process_accepted_def)
  with inv \<open>\<not> loop_continues (n, h, c)\<close> have "progress rounds n c" "cap_finished c"
    by (auto simp: loop_invariant_def all_done_def split: if_splits)
  moreover have "cap_status c = Exited 0" using c(3) by (auto simp: exit_code_of_def split: child_status.splits)
  ultimately show ?thesis using start c(1,2) by (auto simp: progress_def)
qed

definition quiet_exit :: round where
  "quiet_exit = \<lparr>ro_output = [Read_bytes ''ok'', Read_bytes []], ro_error = [Read_bytes []],
     ro_wait = Child_reaped (Exited 0), ro_late = False, ro_killed = None, ro_poll_error = None\<rparr>"

lemma run_quiet_exit:
  "run_child (\<lambda>_. ''error'') ''/sbin/pfctl'' 5000 Launched (\<lambda>_. quiet_exit) =
     Some \<lparr>launched = True, timed_out = False, output_truncated = False, exit_code = 0,
       standard_output = ''ok'', standard_error = [], error_message = []\<rparr>"
  by (simp add: run_child_def is_absolute_def capture_loop_def while_option_unfold all_done_def
      initial_capture_def capture_round_def enforce_deadline_def wait_child_def drain_both_def
      quiet_exit_def append_bounded_def maximum_captured_output_def exit_code_of_def Let_def)

lemma capture_is_bounded_prefix_witness:
  "\<exists>n. ''ok'' = take maximum_captured_output (pipe_bytes (ro_output \<circ> (\<lambda>_. quiet_exit)) n)"
  using capture_is_bounded_prefix [OF run_quiet_exit] by (auto simp: Let_def)

lemma accepted_child_succeeded_witness:
  "\<exists>n. ro_wait ((\<lambda>_ :: nat. quiet_exit) n) = Child_reaped (Exited 0)"
  using accepted_child_succeeded [OF run_quiet_exit] by (simp add: process_accepted_def)

end
