(* ===== verification/Activation.thy ===== *)
theory Activation
  imports Pfctl
begin

text \<open>
  The activation workflow and its startup recovery (\<open>activation_service.cpp\<close>), split into
  stages that call each other in the order of the code. The three providers (authorizer, health
  probes, confirmation gate) are interfaces of the program with implementations elsewhere: they are
  parameters, functions of everything visible so far, and \<open>None\<close> stands for a thrown
  exception. The proofs are in the theory \<open>Activation_Safety\<close>.
\<close>

section \<open>Data\<close>

datatype authorization_status = Auth_authorized | Auth_denied | Auth_unavailable

record authorization_result =
  auth_status :: authorization_status
  auth_decision_id :: string
  auth_message :: string

datatype health_probe_status = Probe_healthy | Probe_unhealthy | Probe_timed_out | Probe_execution_error

record health_probe_result =
  probe_status :: health_probe_status
  probe_message :: string

datatype confirmation_status = Conf_confirmed | Conf_rejected | Conf_timed_out | Conf_unavailable

record confirmation_result =
  conf_status :: confirmation_status
  conf_confirmation_id :: string
  conf_message :: string

datatype activation_status =
    Act_committed | Act_invalid_request | Act_authorization_denied | Act_authorization_error
  | Act_last_known_good_unavailable | Act_target_unavailable | Act_native_revalidation_failed
  | Act_activation_failed | Act_verification_failed_rolled_back | Act_confirmation_failed_rolled_back
  | Act_commit_failed_rolled_back | Act_transaction_conflict | Act_transaction_store_failed
  | Act_committed_with_warning | Act_committed_cleanup_pending | Act_audit_failed
  | Act_audit_failed_rolled_back | Act_rollback_failed

record activation_request =
  aq_operation_id :: string
  aq_revision :: u64
  aq_authorization_reference :: string
  aq_probe_timeout :: int
  aq_confirmation_timeout :: int

text \<open>
  \<open>ActivationResult\<close>, with the two local strings \<open>audit_event_id\<close> and
  \<open>audit_message\<close> of the function, which travel with it.
\<close>

record activation_result =
  ar_status :: activation_status
  ar_event_id :: string
  ar_message :: string
  ar_rollback_revision :: "u64 option"
  ar_authorization :: "authorization_result option"
  ar_native_validation :: "native_result option"
  ar_activation :: "load_result option"
  ar_rollback :: "load_result option"
  ar_probe_results :: "health_probe_result list"
  ar_confirmation :: "confirmation_result option"
  ar_transaction :: "transaction_result option"
  ar_rollback_performed :: bool
  ar_journaled_events :: "event list"
  ar_audit_event_id :: string
  ar_audit_message :: string

datatype recovery_status =
  Recovery_no_pending | Recovery_rolled_back | Recovery_committed_cleaned
  | Recovery_audit_failed_recovered | Recovery_failed

record recovery_result =
  rec_status :: recovery_status
  rec_event_id :: string
  rec_message :: string
  rec_transaction :: "pending_activation option"
  rec_native_validation :: "native_result option"
  rec_rollback :: "load_result option"
  rec_journaled_events :: "event list"
  rec_audit_event_id :: string
  rec_audit_message :: string

type_synonym authorizer =
  "visible_action list \<Rightarrow> string \<Rightarrow> u64 \<Rightarrow> string \<Rightarrow> authorization_result option"
type_synonym confirmation_gate =
  "visible_action list \<Rightarrow> string \<Rightarrow> u64 \<Rightarrow> int \<Rightarrow> confirmation_result option"

record health_probe =
  probe_id :: string
  probe_run :: "visible_action list \<Rightarrow> int \<Rightarrow> health_probe_result option"

record activation_service =
  as_revisions :: string
  as_transactions :: string
  as_validator :: pfctl
  as_loader :: pfctl
  as_journal :: string
  as_authorizer :: authorizer
  as_gate :: confirmation_gate
  as_probes :: "health_probe list"

definition auth_ok :: "authorization_result \<Rightarrow> bool" where
  "auth_ok a \<longleftrightarrow> auth_status a = Auth_authorized"

definition probe_ok :: "health_probe_result \<Rightarrow> bool" where
  "probe_ok p \<longleftrightarrow> probe_status p = Probe_healthy"

definition conf_ok :: "confirmation_result \<Rightarrow> bool" where
  "conf_ok c \<longleftrightarrow> conf_status c = Conf_confirmed"

definition activation_ok :: "activation_result \<Rightarrow> bool" where
  "activation_ok r \<longleftrightarrow>
     ar_status r = Act_committed \<or> ar_status r = Act_committed_with_warning \<or>
     ar_status r = Act_committed_cleanup_pending"

definition recovery_ok :: "recovery_result \<Rightarrow> bool" where
  "recovery_ok r \<longleftrightarrow>
     rec_status r = Recovery_no_pending \<or> rec_status r = Recovery_rolled_back \<or>
     rec_status r = Recovery_committed_cleaned \<or> rec_status r = Recovery_audit_failed_recovered"

section \<open>Events\<close>

definition activation_event ::
  "string \<Rightarrow> severity \<Rightarrow> string \<Rightarrow> string \<Rightarrow> string \<Rightarrow> string \<Rightarrow> string \<Rightarrow> u64 \<Rightarrow> event" where
  "activation_event timestamp severity event_id op act outcome m revision =
     \<lparr>ev_timestamp = timestamp, ev_severity = severity, ev_event_id = event_id,
      ev_component = ''pf-activation-service'', ev_operation_id = op, ev_action = act,
      ev_outcome = outcome, ev_message = m,
      ev_attributes = attribute_map [(''revision'', decimal (unat revision))]\<rparr>"

definition load_event :: "load_result \<Rightarrow> string \<Rightarrow> string \<Rightarrow> u64 \<Rightarrow> string \<Rightarrow> event" where
  "load_event l timestamp op revision act =
     (let outcome =
        (if pl_status l = Load_loaded then ''succeeded''
         else if pl_status l = Load_rejected \<or> pl_status l = Load_unsafe_revision then ''rejected''
         else if pl_status l = Load_timed_out then ''timed_out'' else ''failed'')
      in add_attribute ''output_truncated'' (bool_string (pl_output_truncated l))
           (add_attribute ''exit_code'' (int_string (pl_exit_code l))
             (activation_event timestamp (if load_ok l then Info else Error) (pl_event_id l) op act
               outcome (pl_message l) revision)))"

definition transaction_event :: "transaction_result \<Rightarrow> string \<Rightarrow> string \<Rightarrow> u64 \<Rightarrow> string \<Rightarrow> event" where
  "transaction_event t timestamp op revision act =
     (let e = activation_event timestamp (if transaction_ok t then Info else Error) (txn_event_id t)
            op act (if transaction_ok t then ''succeeded'' else ''failed'') (txn_message t) revision
      in (case txn_transaction t of
            None \<Rightarrow> e
          | Some p \<Rightarrow>
              add_attribute ''rollback_revision'' (decimal (unat (txn_rollback_revision p)))
                (add_attribute ''phase'' (phase_string (txn_phase p)) e)))"

definition authorization_event_id :: "authorization_status \<Rightarrow> string" where
  "authorization_event_id s = (case s of
       Auth_authorized \<Rightarrow> ''GH-AUTH-0001''
     | Auth_denied \<Rightarrow> ''GH-AUTH-1001''
     | Auth_unavailable \<Rightarrow> ''GH-AUTH-2001'')"

definition probe_event_id :: "health_probe_status \<Rightarrow> string" where
  "probe_event_id s = (case s of
       Probe_healthy \<Rightarrow> ''GH-PROBE-0001''
     | Probe_unhealthy \<Rightarrow> ''GH-PROBE-1001''
     | Probe_timed_out \<Rightarrow> ''GH-PROBE-2001''
     | Probe_execution_error \<Rightarrow> ''GH-PROBE-2002'')"

definition confirmation_event_id :: "confirmation_status \<Rightarrow> string" where
  "confirmation_event_id s = (case s of
       Conf_confirmed \<Rightarrow> ''GH-CONF-0001''
     | Conf_rejected \<Rightarrow> ''GH-CONF-1001''
     | Conf_timed_out \<Rightarrow> ''GH-CONF-1002''
     | Conf_unavailable \<Rightarrow> ''GH-CONF-2001'')"

section \<open>The local functions of \<open>activate\<close>\<close>

definition initial_activation :: activation_result where
  "initial_activation =
     \<lparr>ar_status = Act_invalid_request, ar_event_id = [], ar_message = [], ar_rollback_revision = None,
      ar_authorization = None, ar_native_validation = None, ar_activation = None, ar_rollback = None,
      ar_probe_results = [], ar_confirmation = None, ar_transaction = None,
      ar_rollback_performed = False, ar_journaled_events = [], ar_audit_event_id = [],
      ar_audit_message = []\<rparr>"

definition act_append ::
  "activation_service \<Rightarrow> event \<Rightarrow> activation_result \<Rightarrow> (bool \<times> activation_result) io" where
  "act_append svc e r = do {
     j \<leftarrow> journal_append (as_journal svc) e;
     if \<not> journal_ok j
     then return (False,
       (if ar_audit_event_id r = []
        then r\<lparr>ar_audit_event_id := journal_event_id j, ar_audit_message := journal_message j\<rparr>
        else r))
     else return (True, r\<lparr>ar_journaled_events := ar_journaled_events r @ [e]\<rparr>)
   }"

text \<open>\<open>append(build(timestamp_source_()))\<close>\<close>

definition act_audit ::
  "activation_service \<Rightarrow> (string \<Rightarrow> event) \<Rightarrow> activation_result \<Rightarrow> (bool \<times> activation_result) io" where
  "act_audit svc build r = do {
     timestamp \<leftarrow> read_clock;
     act_append svc (build timestamp) r
   }"

definition act_log ::
  "activation_service \<Rightarrow> activation_request \<Rightarrow> severity \<Rightarrow> string \<Rightarrow> string \<Rightarrow> string \<Rightarrow> string \<Rightarrow>
     u64 \<Rightarrow> (string \<times> string) list \<Rightarrow> activation_result \<Rightarrow> (bool \<times> activation_result) io" where
  "act_log svc q severity event_id act outcome m revision extra r =
     act_audit svc (\<lambda>timestamp. foldl (\<lambda>e (a, v). add_attribute a v e)
       (activation_event timestamp severity event_id (aq_operation_id q) act outcome m revision) extra) r"

definition conclude ::
  "activation_status \<Rightarrow> string \<Rightarrow> string \<Rightarrow> activation_result \<Rightarrow> activation_result" where
  "conclude status event_id m r =
     r\<lparr>ar_status := status, ar_event_id := event_id, ar_message := m\<rparr>"

text \<open>\<open>fail_before_activation(audit_failed, audit_event_id, audit_message)\<close>\<close>

definition audit_failure :: "activation_result \<Rightarrow> activation_result" where
  "audit_failure r = conclude Act_audit_failed (ar_audit_event_id r) (ar_audit_message r) r"

text \<open>
  \<open>rollback_to_previous\<close>: the end of the rollback, once PF and the marker are restored.
\<close>

definition finish_rollback ::
  "activation_service \<Rightarrow> activation_request \<Rightarrow> u64 \<Rightarrow> activation_status \<Rightarrow> string \<Rightarrow> string \<Rightarrow> bool \<Rightarrow>
     activation_result \<Rightarrow> activation_result io" where
  "finish_rollback svc q previous status event_id m compromised r = do {
     cleared \<leftarrow> clear_transaction (as_transactions svc) (aq_operation_id q);
     (ok, r) \<leftarrow> act_audit svc (\<lambda>t. transaction_event cleared t (aq_operation_id q) (aq_revision q)
       ''pf.activation_transaction.clear'') (r\<lparr>ar_transaction := Some cleared\<rparr>);
     let compromised = (compromised \<or> \<not> ok);
     if txn_status cleared \<noteq> Txn_cleared
     then return (conclude Act_rollback_failed ''GH-ACT-2001''
       ''Rollback restored PF but could not clear its pending transaction.'' r)
     else do {
       (ok, r) \<leftarrow> act_log svc q Warning ''GH-ACT-0009'' ''pf.rollback'' ''succeeded''
         ''Last-known-good PF revision was restored.'' previous [] r;
       let compromised = (compromised \<or> \<not> ok);
       return (if compromised
         then conclude Act_audit_failed_rolled_back
           (if ar_audit_event_id r = [] then ''GH-AUDIT-2001'' else ar_audit_event_id r)
           (if ar_audit_message r = [] then ''Audit failed after activation; rollback succeeded.''
            else ar_audit_message r) r
         else conclude status event_id m r)
     }
   }"

definition rollback_incomplete ::
  "activation_service \<Rightarrow> activation_request \<Rightarrow> u64 \<Rightarrow> activation_result \<Rightarrow> activation_result io" where
  "rollback_incomplete svc q previous r = do {
     let r = conclude Act_rollback_failed ''GH-ACT-2001''
       ''Rollback could not restore both PF and the last-known-good marker.'' r;
     (ok, r) \<leftarrow> act_log svc q Critical (ar_event_id r) ''pf.rollback'' ''failed'' (ar_message r) previous [] r;
     return r
   }"

definition rollback_to_previous ::
  "activation_service \<Rightarrow> activation_request \<Rightarrow> u64 \<Rightarrow> activation_status \<Rightarrow> string \<Rightarrow> string \<Rightarrow> bool \<Rightarrow>
     activation_result \<Rightarrow> activation_result io" where
  "rollback_to_previous svc q previous status event_id m compromised r = do {
     (ok, r) \<leftarrow> act_log svc q Warning ''GH-ACT-0008'' ''pf.rollback'' ''started''
       ''Rollback to last-known-good revision started.'' previous [] r;
     let compromised = (compromised \<or> \<not> ok);
     let rollback_path = revision_path (as_revisions svc) previous;
     validation \<leftarrow> validate_candidate (as_validator svc) rollback_path;
     (ok, r) \<leftarrow> act_audit svc
       (\<lambda>t. make_validation_event validation t (aq_operation_id q) previous) r;
     let compromised = (compromised \<or> \<not> ok);
     if \<not> native_ok validation then rollback_incomplete svc q previous r
     else do {
       rollback_load \<leftarrow> load_ruleset (as_loader svc) rollback_path;
       (ok, r) \<leftarrow> act_audit svc
         (\<lambda>t. load_event rollback_load t (aq_operation_id q) previous ''pf.rollback.load'')
         (r\<lparr>ar_rollback := Some rollback_load, ar_rollback_performed := load_ok rollback_load\<rparr>);
       let compromised = (compromised \<or> \<not> ok);
       if \<not> load_ok rollback_load then rollback_incomplete svc q previous r
       else do {
         marker_result \<leftarrow> mark_last_known_good (as_revisions svc) previous;
         (ok, r) \<leftarrow> act_log svc q (if last_known_good_ok marker_result then Info else Critical)
           (lkg_event_id marker_result) ''pf.rollback.marker''
           (if last_known_good_ok marker_result then ''succeeded'' else ''failed'')
           (lkg_message marker_result) previous [] r;
         let compromised = (compromised \<or> \<not> ok);
         if \<not> last_known_good_ok marker_result then rollback_incomplete svc q previous r
         else finish_rollback svc q previous status event_id m compromised r
       }
     }
   }"

section \<open>The stages of \<open>activate\<close>, last first\<close>

text \<open>
  After the marker: the committed transition, the final event, clearing, and the three committed
  results. As in the code, a failed append of the refused committed transition does not mark the
  audit as compromised.
\<close>

definition finish_commit ::
  "activation_service \<Rightarrow> activation_request \<Rightarrow> bool \<Rightarrow> activation_result \<Rightarrow> activation_result io" where
  "finish_commit svc q committed_audited r = do {
     (final_audited, r) \<leftarrow> act_log svc q Info ''GH-ACT-0007'' ''pf.activate'' ''committed''
       ''PF activation was verified, confirmed, and committed.'' (aq_revision q) [] r;
     cleared \<leftarrow> clear_transaction (as_transactions svc) (aq_operation_id q);
     let r = r\<lparr>ar_transaction := Some cleared\<rparr>;
     return (if txn_status cleared \<noteq> Txn_cleared
       then conclude Act_committed_cleanup_pending (txn_event_id cleared)
         ''PF revision committed, but durable transaction cleanup is pending.'' r
       else if \<not> committed_audited \<or> \<not> final_audited
       then conclude Act_committed_with_warning
         (if ar_audit_event_id r = [] then ''GH-AUDIT-2001'' else ar_audit_event_id r)
         ''PF revision committed, but a post-commit audit append failed.'' r
       else conclude Act_committed ''GH-ACT-0007''
         ''PF revision activated and committed successfully.'' r)
   }"

definition commit_transaction ::
  "activation_service \<Rightarrow> activation_request \<Rightarrow> u64 \<Rightarrow> activation_result \<Rightarrow> activation_result io" where
  "commit_transaction svc q previous r = do {
     committed \<leftarrow> advance_transaction (as_transactions svc) (aq_operation_id q) Committed;
     (ok, r) \<leftarrow> act_audit svc (\<lambda>t. transaction_event committed t (aq_operation_id q) (aq_revision q)
       ''pf.activation_transaction.advance'') (r\<lparr>ar_transaction := Some committed\<rparr>);
     if txn_status committed \<noteq> Txn_advanced
     then rollback_to_previous svc q previous Act_transaction_store_failed (txn_event_id committed)
       (txn_message committed) False r
     else finish_commit svc q ok r
   }"

definition commit_marker ::
  "activation_service \<Rightarrow> activation_request \<Rightarrow> u64 \<Rightarrow> activation_result \<Rightarrow> activation_result io" where
  "commit_marker svc q previous r = do {
     (ok, r) \<leftarrow> act_log svc q Info ''GH-ACT-0006'' ''pf.commit'' ''started''
       ''Confirmed PF revision commit started.'' (aq_revision q) [] r;
     if \<not> ok then rollback_to_previous svc q previous Act_commit_failed_rolled_back ''GH-ACT-2002''
       ''Commit could not be audited.'' True r
     else do {
       marker \<leftarrow> mark_last_known_good (as_revisions svc) (aq_revision q);
       (ok, r) \<leftarrow> act_log svc q (if last_known_good_ok marker then Info else Critical)
         (lkg_event_id marker) ''pf.commit.marker''
         (if last_known_good_ok marker then ''succeeded'' else ''failed'') (lkg_message marker)
         (aq_revision q) [] r;
       if \<not> ok then rollback_to_previous svc q previous Act_commit_failed_rolled_back
         (lkg_event_id marker) (lkg_message marker) True r
       else if \<not> last_known_good_ok marker
       then rollback_to_previous svc q previous Act_commit_failed_rolled_back
         (lkg_event_id marker) (lkg_message marker) False r
       else commit_transaction svc q previous r
     }
   }"

text \<open>
  One audited phase change, as it is written out for \<open>verified\<close>,
  \<open>awaiting_confirmation\<close> and \<open>committing\<close>: advance, append, roll back unless
  both worked.
\<close>

definition advance_or_roll_back ::
  "activation_service \<Rightarrow> activation_request \<Rightarrow> u64 \<Rightarrow> activation_phase \<Rightarrow> activation_result \<Rightarrow>
     (activation_result \<Rightarrow> activation_result io) \<Rightarrow> activation_result io" where
  "advance_or_roll_back svc q previous phase r k = do {
     advanced \<leftarrow> advance_transaction (as_transactions svc) (aq_operation_id q) phase;
     (ok, r) \<leftarrow> act_audit svc (\<lambda>t. transaction_event advanced t (aq_operation_id q) (aq_revision q)
       ''pf.activation_transaction.advance'') (r\<lparr>ar_transaction := Some advanced\<rparr>);
     if txn_status advanced \<noteq> Txn_advanced \<or> \<not> ok
     then rollback_to_previous svc q previous Act_transaction_store_failed (txn_event_id advanced)
       (txn_message advanced) (\<not> ok) r
     else k r
   }"

definition consult_gate :: "activation_service \<Rightarrow> activation_request \<Rightarrow> confirmation_result io" where
  "consult_gate svc q = State (\<lambda>w.
     let answer = (case as_gate svc (actions w) (aq_operation_id q) (aq_revision q) (aq_confirmation_timeout q) of
           None \<Rightarrow> \<lparr>conf_status = Conf_unavailable, conf_confirmation_id = [],
                    conf_message = ''Confirmation provider failed.''\<rparr>
         | Some c \<Rightarrow> c);
         confirmation = (if conf_ok answer \<and> \<not> valid_identifier (conf_confirmation_id answer)
           then \<lparr>conf_status = Conf_unavailable, conf_confirmation_id = [],
                 conf_message = ''Confirmation provider returned an invalid identifier.''\<rparr>
           else answer)
     in (confirmation, w\<lparr>actions := actions w @
          [Confirmation_awaited (aq_operation_id q) (aq_revision q) (aq_confirmation_timeout q)
             (conf_ok confirmation)]\<rparr>))"

definition confirm_stage ::
  "activation_service \<Rightarrow> activation_request \<Rightarrow> u64 \<Rightarrow> activation_result \<Rightarrow> activation_result io" where
  "confirm_stage svc q previous r = do {
     (ok, r) \<leftarrow> act_log svc q Warning ''GH-ACT-0005'' ''pf.confirmation'' ''pending''
       ''PF activation is awaiting explicit confirmation.'' (aq_revision q) [] r;
     if \<not> ok then rollback_to_previous svc q previous Act_confirmation_failed_rolled_back ''GH-CONF-2001''
       ''Confirmation could not be audited.'' True r
     else do {
       confirmation \<leftarrow> consult_gate svc q;
       (ok, r) \<leftarrow> act_log svc q (if conf_ok confirmation then Info else Warning)
         (confirmation_event_id (conf_status confirmation)) ''pf.confirmation''
         (if conf_ok confirmation then ''confirmed''
          else if conf_status confirmation = Conf_timed_out then ''timed_out''
          else if conf_status confirmation = Conf_rejected then ''rejected'' else ''failed'')
         (if conf_ok confirmation then ''PF activation was explicitly confirmed.''
          else ''PF activation was not confirmed.'') (aq_revision q)
         (if conf_ok confirmation then [(''confirmation_id'', conf_confirmation_id confirmation)] else [])
         (r\<lparr>ar_confirmation := Some confirmation\<rparr>);
       if \<not> ok then rollback_to_previous svc q previous Act_confirmation_failed_rolled_back
         (confirmation_event_id (conf_status confirmation)) (conf_message confirmation) True r
       else if \<not> conf_ok confirmation
       then rollback_to_previous svc q previous Act_confirmation_failed_rolled_back
         (confirmation_event_id (conf_status confirmation)) (conf_message confirmation) False r
       else advance_or_roll_back svc q previous Committing r (commit_marker svc q previous)
     }
   }"

definition run_probe :: "activation_service \<Rightarrow> activation_request \<Rightarrow> health_probe \<Rightarrow> health_probe_result io" where
  "run_probe svc q p = State (\<lambda>w.
     let answer = (case probe_run p (actions w) (aq_probe_timeout q) of
           None \<Rightarrow> \<lparr>probe_status = Probe_execution_error,
                    probe_message = ''Health probe raised an unexpected exception.''\<rparr>
         | Some x \<Rightarrow> x)
     in (answer, w\<lparr>actions := actions w @ [Probe_run (probe_id p) (aq_probe_timeout q) (probe_ok answer)]\<rparr>))"

text \<open>The loop over the probes, with \<open>k\<close> what follows it.\<close>

fun probe_stage ::
  "activation_service \<Rightarrow> activation_request \<Rightarrow> u64 \<Rightarrow> health_probe list \<Rightarrow>
     (activation_result \<Rightarrow> activation_result io) \<Rightarrow> activation_result \<Rightarrow> activation_result io" where
  "probe_stage svc q previous [] k r = k r"
| "probe_stage svc q previous (p # ps) k r = do {
     (ok, r) \<leftarrow> act_log svc q Info ''GH-ACT-0004'' ''pf.health_probe'' ''started''
       ''Post-activation health probe started.'' (aq_revision q) [(''probe_id'', probe_id p)] r;
     if \<not> ok then rollback_to_previous svc q previous Act_verification_failed_rolled_back
       ''GH-PROBE-2002'' ''Health verification could not be audited.'' True r
     else do {
       result \<leftarrow> run_probe svc q p;
       (ok, r) \<leftarrow> act_log svc q (if probe_ok result then Info else Error)
         (probe_event_id (probe_status result)) ''pf.health_probe''
         (if probe_ok result then ''succeeded''
          else if probe_status result = Probe_timed_out then ''timed_out'' else ''failed'')
         (if probe_ok result then ''Post-activation health probe passed.''
          else ''Post-activation health probe failed.'') (aq_revision q) [(''probe_id'', probe_id p)]
         (r\<lparr>ar_probe_results := ar_probe_results r @ [result]\<rparr>);
       if \<not> ok then rollback_to_previous svc q previous Act_verification_failed_rolled_back
         (probe_event_id (probe_status result)) (probe_message result) True r
       else if \<not> probe_ok result
       then rollback_to_previous svc q previous Act_verification_failed_rolled_back
         (probe_event_id (probe_status result)) (probe_message result) False r
       else probe_stage svc q previous ps k r
     }
   }"

definition verify_stage ::
  "activation_service \<Rightarrow> activation_request \<Rightarrow> u64 \<Rightarrow> activation_result \<Rightarrow> activation_result io" where
  "verify_stage svc q previous r = do {
     target_loaded \<leftarrow> advance_transaction (as_transactions svc) (aq_operation_id q) Target_loaded;
     (ok, r) \<leftarrow> act_audit svc (\<lambda>t. transaction_event target_loaded t (aq_operation_id q) (aq_revision q)
       ''pf.activation_transaction.advance'') (r\<lparr>ar_transaction := Some target_loaded\<rparr>);
     if txn_status target_loaded \<noteq> Txn_advanced
     then rollback_to_previous svc q previous Act_transaction_store_failed (txn_event_id target_loaded)
       (txn_message target_loaded) (\<not> ok) r
     else if \<not> ok
     then rollback_to_previous svc q previous Act_transaction_store_failed (txn_event_id target_loaded)
       (txn_message target_loaded) True r
     else probe_stage svc q previous (as_probes svc) (\<lambda>r.
       advance_or_roll_back svc q previous Verified r (\<lambda>r.
       advance_or_roll_back svc q previous Awaiting_confirmation r (\<lambda>r.
       confirm_stage svc q previous r))) r
   }"

text \<open>
  Before any load, the creation of the record is undone when its audit fails, after
  \<open>begin\<close> and after the intent event.
\<close>

definition withdraw_transaction ::
  "activation_service \<Rightarrow> activation_request \<Rightarrow> activation_result \<Rightarrow> activation_result io" where
  "withdraw_transaction svc q r = do {
     cleared \<leftarrow> clear_transaction (as_transactions svc) (aq_operation_id q);
     let r = r\<lparr>ar_transaction := Some cleared\<rparr>;
     return (if txn_status cleared \<noteq> Txn_cleared
       then conclude Act_transaction_store_failed (txn_event_id cleared) (txn_message cleared) r
       else audit_failure r)
   }"

text \<open>From the intent event to the answer of \<open>pfctl -f\<close>.\<close>

definition load_stage ::
  "activation_service \<Rightarrow> activation_request \<Rightarrow> u64 \<Rightarrow> string \<Rightarrow> activation_result \<Rightarrow> activation_result io" where
  "load_stage svc q previous decision r = do {
     (ok, r) \<leftarrow> act_log svc q Warning ''GH-ACT-0003'' ''pf.activate.load'' ''started''
       ''Native PF ruleset replacement started.'' (aq_revision q)
       [(''rollback_revision'', decimal (unat previous)), (''decision_id'', decision)] r;
     if \<not> ok then withdraw_transaction svc q r
     else do {
       activated \<leftarrow> load_ruleset (as_loader svc) (revision_path (as_revisions svc) (aq_revision q));
       (ok, r) \<leftarrow> act_audit svc
         (\<lambda>t. load_event activated t (aq_operation_id q) (aq_revision q) ''pf.activate.load'')
         (r\<lparr>ar_activation := Some activated\<rparr>);
       if \<not> ok then rollback_to_previous svc q previous Act_activation_failed (pl_event_id activated)
         (pl_message activated) True r
       else if \<not> load_ok activated
       then rollback_to_previous svc q previous Act_activation_failed (pl_event_id activated)
         (pl_message activated) False r
       else verify_stage svc q previous r
     }
   }"

definition begin_stage ::
  "activation_service \<Rightarrow> activation_request \<Rightarrow> u64 \<Rightarrow> string \<Rightarrow> activation_result \<Rightarrow> activation_result io" where
  "begin_stage svc q previous decision r = do {
     (ok, r) \<leftarrow> act_log svc q Info ''GH-ACT-0010'' ''pf.activation_transaction.begin'' ''started''
       ''Durable activation transaction creation started.'' (aq_revision q) [] r;
     if \<not> ok then return (audit_failure r)
     else do {
       begun \<leftarrow> begin_transaction (as_transactions svc)
         \<lparr>txn_operation_id = aq_operation_id q, txn_target_revision = aq_revision q,
          txn_rollback_revision = previous, txn_phase = Prepared_for_load\<rparr>;
       (ok, r) \<leftarrow> act_audit svc (\<lambda>t. transaction_event begun t (aq_operation_id q) (aq_revision q)
         ''pf.activation_transaction.begin'') (r\<lparr>ar_transaction := Some begun\<rparr>);
       if \<not> ok then
         (if txn_status begun = Txn_created then withdraw_transaction svc q r
          else return (audit_failure r))
       else if txn_status begun \<noteq> Txn_created
       then return (conclude
         (if txn_status begun = Txn_conflict then Act_transaction_conflict else Act_transaction_store_failed)
         (txn_event_id begun) (txn_message begun) r)
       else load_stage svc q previous decision r
     }
   }"

definition revalidate_stage ::
  "activation_service \<Rightarrow> activation_request \<Rightarrow> u64 \<Rightarrow> string \<Rightarrow> activation_result \<Rightarrow> activation_result io" where
  "revalidate_stage svc q previous decision r = do {
     (ok, r) \<leftarrow> act_log svc q Info ''GH-ACT-0002'' ''pf.ruleset.revalidate'' ''started''
       ''Native validation immediately before activation started.'' (aq_revision q) [] r;
     if \<not> ok then return (audit_failure r)
     else do {
       validation \<leftarrow> validate_candidate (as_validator svc) (revision_path (as_revisions svc) (aq_revision q));
       (ok, r) \<leftarrow> act_audit svc
         (\<lambda>t. make_validation_event validation t (aq_operation_id q) (aq_revision q))
         (r\<lparr>ar_native_validation := Some validation\<rparr>);
       if \<not> ok then return (audit_failure r)
       else if \<not> native_ok validation
       then return (conclude Act_native_revalidation_failed (nv_event_id validation) (nv_message validation) r)
       else begin_stage svc q previous decision r
     }
   }"

text \<open>
  An audited refusal: append an event, then conclude with the given status, or with the audit
  failure if the append fails.
\<close>

definition refuse ::
  "activation_service \<Rightarrow> activation_request \<Rightarrow> string \<Rightarrow> string \<Rightarrow> string \<Rightarrow> string \<Rightarrow>
     (string \<times> string) list \<Rightarrow> activation_status \<Rightarrow> string \<Rightarrow> activation_result \<Rightarrow> activation_result io" where
  "refuse svc q event_id act outcome event_message extra status m r = do {
     (ok, r) \<leftarrow> act_log svc q Warning event_id act outcome event_message (aq_revision q) extra r;
     return (if \<not> ok then audit_failure r else conclude status event_id m r)
   }"

definition resolve_stage ::
  "activation_service \<Rightarrow> activation_request \<Rightarrow> string \<Rightarrow> activation_result \<Rightarrow> activation_result io" where
  "resolve_stage svc q decision r = do {
     previous \<leftarrow> last_known_good (as_revisions svc);
     (case (if last_known_good_ok previous then lkg_revision previous else None) of
        None \<Rightarrow> refuse svc q ''GH-ACT-1004'' ''pf.rollback.resolve'' ''failed''
          ''No safe last-known-good revision is available for rollback.''
          [(''revision_event_id'', lkg_event_id previous)] Act_last_known_good_unavailable
          ''Activation requires an available last-known-good revision.'' r
      | Some rollback \<Rightarrow>
          (let r = r\<lparr>ar_rollback_revision := lkg_revision previous\<rparr>
           in if rollback = aq_revision q
              then refuse svc q ''GH-ACT-1005'' ''pf.activate'' ''rejected''
                ''Requested revision is already last known good.'' [] Act_invalid_request
                ''Requested revision is already last known good.'' r
              else do {
                target \<leftarrow> load_revision (as_revisions svc) (aq_revision q);
                if \<not> revision_read_ok target
                then refuse svc q ''GH-ACT-1006'' ''pf.revision.resolve'' ''failed''
                  ''Target revision is unavailable or unsafe.''
                  [(''revision_event_id'', rr_event_id target)] Act_target_unavailable
                  ''Target revision is unavailable or unsafe.'' r
                else revalidate_stage svc q rollback decision r
              }))
   }"

definition consult_authorizer :: "activation_service \<Rightarrow> activation_request \<Rightarrow> authorization_result io" where
  "consult_authorizer svc q = State (\<lambda>w.
     let answer = (case as_authorizer svc (actions w) (aq_operation_id q) (aq_revision q)
             (aq_authorization_reference q) of
           None \<Rightarrow> \<lparr>auth_status = Auth_unavailable, auth_decision_id = [],
                    auth_message = ''Authorization provider failed.''\<rparr>
         | Some a \<Rightarrow> a);
         authorization = (if auth_ok answer \<and> \<not> valid_identifier (auth_decision_id answer)
           then \<lparr>auth_status = Auth_unavailable, auth_decision_id = [],
                 auth_message = ''Authorization provider returned an invalid decision identifier.''\<rparr>
           else answer)
     in (authorization, w\<lparr>actions := actions w @
          [Authorization_requested (aq_operation_id q) (aq_revision q) (aq_authorization_reference q)
             (auth_ok authorization)]\<rparr>))"

definition authorize_stage ::
  "activation_service \<Rightarrow> activation_request \<Rightarrow> activation_result \<Rightarrow> activation_result io" where
  "authorize_stage svc q r = do {
     authorization \<leftarrow> consult_authorizer svc q;
     (ok, r) \<leftarrow> act_log svc q (if auth_ok authorization then Info else Warning)
       (authorization_event_id (auth_status authorization)) ''authorization.verify''
       (if auth_ok authorization then ''authorized''
        else if auth_status authorization = Auth_denied then ''denied'' else ''failed'')
       (if auth_ok authorization then ''Activation authorization was verified.''
        else if auth_status authorization = Auth_denied then ''Activation authorization was denied.''
        else ''Activation authorization could not be verified.'') (aq_revision q)
       (if auth_ok authorization then [(''decision_id'', auth_decision_id authorization)] else [])
       (r\<lparr>ar_authorization := Some authorization\<rparr>);
     if \<not> ok then return (audit_failure r)
     else if \<not> auth_ok authorization
     then return (conclude
       (if auth_status authorization = Auth_denied then Act_authorization_denied else Act_authorization_error)
       (authorization_event_id (auth_status authorization)) (auth_message authorization) r)
     else resolve_stage svc q (auth_decision_id authorization) r
   }"

text \<open>The checks before anything happens: the event id and message of a refusal.\<close>

definition request_problem :: "activation_service \<Rightarrow> activation_request \<Rightarrow> (string \<times> string) option" where
  "request_problem svc q =
     (if \<not> valid_identifier (aq_operation_id q) \<or> aq_revision q = 0 \<or>
         \<not> valid_identifier (aq_authorization_reference q) \<or>
         aq_probe_timeout q < 100 \<or> aq_probe_timeout q > 60000 \<or>
         aq_confirmation_timeout q < 1000 \<or> aq_confirmation_timeout q > 600000
      then Some (''GH-ACT-1001'',
        ''Activation request identifiers, revision, or confirmation timeout are invalid.'')
      else if \<not> list_all (\<lambda>p. valid_identifier (probe_id p)) (as_probes svc) \<or>
              \<not> distinct (map probe_id (as_probes svc))
      then Some (''GH-ACT-1002'', ''Health probes must have unique safe identifiers.'')
      else if as_probes svc = []
      then Some (''GH-ACT-1003'', ''At least one health probe is required for activation.'')
      else None)"

definition activate :: "activation_service \<Rightarrow> activation_request \<Rightarrow> activation_result io" where
  "activate svc q =
     (case request_problem svc q of
        Some (event_id, m) \<Rightarrow> return (conclude Act_invalid_request event_id m initial_activation)
      | None \<Rightarrow> do {
          (ok, r) \<leftarrow> act_log svc q Info ''GH-ACT-0001'' ''pf.activate'' ''started''
            ''PF activation workflow started.'' (aq_revision q) [] initial_activation;
          if \<not> ok then return (audit_failure r)
          else authorize_stage svc q r
        })"

section \<open>Recovery\<close>

definition initial_recovery :: recovery_result where
  "initial_recovery =
     \<lparr>rec_status = Recovery_failed, rec_event_id = [], rec_message = [], rec_transaction = None,
      rec_native_validation = None, rec_rollback = None, rec_journaled_events = [],
      rec_audit_event_id = [], rec_audit_message = []\<rparr>"

definition rec_audit ::
  "activation_service \<Rightarrow> (string \<Rightarrow> event) \<Rightarrow> recovery_result \<Rightarrow> (bool \<times> recovery_result) io" where
  "rec_audit svc build r = do {
     timestamp \<leftarrow> read_clock;
     j \<leftarrow> journal_append (as_journal svc) (build timestamp);
     if \<not> journal_ok j
     then return (False,
       (if rec_audit_event_id r = []
        then r\<lparr>rec_audit_event_id := journal_event_id j, rec_audit_message := journal_message j\<rparr>
        else r))
     else return (True, r\<lparr>rec_journaled_events := rec_journaled_events r @ [build timestamp]\<rparr>)
   }"

definition rec_conclude :: "recovery_status \<Rightarrow> string \<Rightarrow> string \<Rightarrow> recovery_result \<Rightarrow> recovery_result" where
  "rec_conclude status event_id m r =
     r\<lparr>rec_status := status, rec_event_id := event_id, rec_message := m\<rparr>"

text \<open>A failure with its critical event, whose append is not checked.\<close>

definition rec_fail ::
  "activation_service \<Rightarrow> pending_activation \<Rightarrow> string \<Rightarrow> string \<Rightarrow> u64 \<Rightarrow> recovery_result \<Rightarrow>
     recovery_result io" where
  "rec_fail svc t event_id m revision r = do {
     let r = rec_conclude Recovery_failed event_id m r;
     (ok, r) \<leftarrow> rec_audit svc (\<lambda>stamp. activation_event stamp Critical event_id (txn_operation_id t)
       ''pf.recovery'' ''failed'' m revision) r;
     return r
   }"

text \<open>The common end of both branches: clear the record, then the closing event.\<close>

definition rec_clear ::
  "activation_service \<Rightarrow> pending_activation \<Rightarrow> severity \<Rightarrow> string \<Rightarrow> string \<Rightarrow> string \<Rightarrow> u64 \<Rightarrow>
     recovery_status \<Rightarrow> string \<Rightarrow> bool \<Rightarrow> recovery_result \<Rightarrow> recovery_result io" where
  "rec_clear svc t severity event_id outcome event_message revision status m audit_ok r = do {
     cleared \<leftarrow> clear_transaction (as_transactions svc) (txn_operation_id t);
     (ok, r) \<leftarrow> rec_audit svc (\<lambda>stamp. transaction_event cleared stamp (txn_operation_id t)
       (txn_target_revision t) ''pf.activation_transaction.clear'') r;
     let audit_ok = (ok \<and> audit_ok);
     if txn_status cleared \<noteq> Txn_cleared
     then return (rec_conclude Recovery_failed (txn_event_id cleared) (txn_message cleared) r)
     else do {
       (ok, r) \<leftarrow> rec_audit svc (\<lambda>stamp. activation_event stamp severity event_id (txn_operation_id t)
         ''pf.recovery'' outcome event_message revision) r;
       let audit_ok = (ok \<and> audit_ok);
       return (rec_conclude (if audit_ok then status else Recovery_audit_failed_recovered)
         (if audit_ok then event_id else rec_audit_event_id r)
         (if audit_ok then m else rec_audit_message r) r)
     }
   }"

definition recover_committed ::
  "activation_service \<Rightarrow> pending_activation \<Rightarrow> bool \<Rightarrow> recovery_result \<Rightarrow> recovery_result io" where
  "recover_committed svc t audit_ok r = do {
     marker_result \<leftarrow> last_known_good (as_revisions svc);
     if \<not> last_known_good_ok marker_result \<or> lkg_revision marker_result \<noteq> Some (txn_target_revision t)
     then rec_fail svc t ''GH-REC-2001''
       ''Committed transaction does not match the last-known-good marker.'' (txn_target_revision t) r
     else rec_clear svc t Info ''GH-REC-0003'' ''committed_cleanup''
       ''Committed activation transaction cleanup completed.'' (txn_target_revision t)
       Recovery_committed_cleaned ''Committed activation transaction cleaned up.'' audit_ok r
   }"

definition recover_rollback ::
  "activation_service \<Rightarrow> pending_activation \<Rightarrow> bool \<Rightarrow> recovery_result \<Rightarrow> recovery_result io" where
  "recover_rollback svc t audit_ok r = do {
     rollback \<leftarrow> load_revision (as_revisions svc) (txn_rollback_revision t);
     if \<not> revision_read_ok rollback
     then rec_fail svc t ''GH-REC-2002'' ''Recovery rollback revision is unavailable or unsafe.''
       (txn_rollback_revision t) r
     else do {
       let path = revision_path (as_revisions svc) (txn_rollback_revision t);
       validation \<leftarrow> validate_candidate (as_validator svc) path;
       (ok, r) \<leftarrow> rec_audit svc (\<lambda>stamp. make_validation_event validation stamp (txn_operation_id t)
         (txn_rollback_revision t)) (r\<lparr>rec_native_validation := Some validation\<rparr>);
       let audit_ok = (ok \<and> audit_ok);
       if \<not> native_ok validation
       then return (rec_conclude Recovery_failed (nv_event_id validation) (nv_message validation) r)
       else do {
         loaded \<leftarrow> load_ruleset (as_loader svc) path;
         (ok, r) \<leftarrow> rec_audit svc (\<lambda>stamp. load_event loaded stamp (txn_operation_id t)
           (txn_rollback_revision t) ''pf.recovery.rollback'') (r\<lparr>rec_rollback := Some loaded\<rparr>);
         let audit_ok = (ok \<and> audit_ok);
         if \<not> load_ok loaded
         then return (rec_conclude Recovery_failed (pl_event_id loaded) (pl_message loaded) r)
         else do {
           marked \<leftarrow> mark_last_known_good (as_revisions svc) (txn_rollback_revision t);
           (ok, r) \<leftarrow> rec_audit svc (\<lambda>stamp. activation_event stamp
             (if last_known_good_ok marked then Info else Critical) (lkg_event_id marked)
             (txn_operation_id t) ''pf.recovery.marker''
             (if last_known_good_ok marked then ''succeeded'' else ''failed'') (lkg_message marked)
             (txn_rollback_revision t)) r;
           let audit_ok = (ok \<and> audit_ok);
           if \<not> last_known_good_ok marked
           then return (rec_conclude Recovery_failed (lkg_event_id marked) (lkg_message marked) r)
           else rec_clear svc t Warning ''GH-REC-0002'' ''rolled_back''
             ''Pending activation was restored to last known good.'' (txn_rollback_revision t)
             Recovery_rolled_back ''Pending activation recovered by rollback.'' audit_ok r
         }
       }
     }
   }"

definition recover_pending :: "activation_service \<Rightarrow> recovery_result io" where
  "recover_pending svc = do {
     pending \<leftarrow> load_transaction (as_transactions svc);
     if txn_status pending = Txn_no_pending
     then return (rec_conclude Recovery_no_pending (txn_event_id pending) (txn_message pending)
       initial_recovery)
     else (case loaded_record pending of
         None \<Rightarrow> return (rec_conclude Recovery_failed (txn_event_id pending) (txn_message pending)
           initial_recovery)
       | Some t \<Rightarrow> do {
           (audit_ok, r) \<leftarrow> rec_audit svc (\<lambda>stamp. activation_event stamp Warning ''GH-REC-0001''
             (txn_operation_id t) ''pf.recovery'' ''started'' ''Pending activation recovery started.''
             (txn_target_revision t)) (initial_recovery\<lparr>rec_transaction := Some t\<rparr>);
           if txn_phase t = Committed then recover_committed svc t audit_ok r
           else recover_rollback svc t audit_ok r
         })
   }"

end
