(* ===== verification/Deadlines.thy ===== *)
theory Deadlines
  imports Main "HOL-Library.While_Combinator"
begin

text \<open>
  Waiting with a deadline, as the sources do it in three places (\<open>remaining_timeout\<close> in
  \<open>local_protocol.cpp\<close> and \<open>local_listener.cpp\<close>, the wait in \<open>health_probes.cpp\<close>):
  the milliseconds left are rounded up, \<open>poll\<close> waits that long, and an interruption starts the next
  round. Clocks count nanoseconds. A loop over rounds that each may decide is \<open>first_decision\<close>;
  \<open>None\<close> is a loop that never ends.
\<close>

section \<open>The time left\<close>

definition remaining_milliseconds :: "nat \<Rightarrow> nat \<Rightarrow> int" where
  "remaining_milliseconds deadline now =
     (let left = int deadline - int now; remaining = left div 1000000
      in if remaining * 1000000 < left then remaining + 1 else remaining)"

definition remaining_timeout :: "nat \<Rightarrow> nat \<Rightarrow> int" where
  "remaining_timeout deadline now = (if now \<ge> deadline then 0 else remaining_milliseconds deadline now)"

lemma remaining_covers:
  "now < deadline \<Longrightarrow>
     remaining_milliseconds deadline now \<ge> 1 \<and>
     int deadline \<le> int now + remaining_milliseconds deadline now * 1000000 \<and>
     (remaining_milliseconds deadline now - 1) * 1000000 < int deadline - int now"
  by (auto simp: remaining_milliseconds_def Let_def)

lemma remaining_timeout_zero: "remaining_timeout deadline now = 0 \<longleftrightarrow> deadline \<le> now"
  using remaining_covers [of now deadline] by (auto simp: remaining_timeout_def)

text \<open>The cast to \<open>int\<close> is safe: no wait of the program is longer than a minute.\<close>

lemma remaining_timeout_fits:
  assumes "deadline \<le> start + nat timeout * 1000000" "start \<le> now" "0 \<le> timeout" "timeout \<le> 60000"
  shows "0 \<le> remaining_timeout deadline now \<and> remaining_timeout deadline now \<le> timeout \<and> timeout < 2 ^ 31"
proof (cases "now < deadline")
  case True
  have "int deadline - int now \<le> timeout * 1000000" using assms by simp
  with remaining_covers [OF True] have "(remaining_milliseconds deadline now - 1) * 1000000 < timeout * 1000000"
    by linarith
  with remaining_covers [OF True] assms(4) show ?thesis by (simp add: remaining_timeout_def)
qed (use assms in \<open>simp add: remaining_timeout_def\<close>)

section \<open>Rounds until a decision\<close>

definition first_decision :: "(nat \<Rightarrow> 'a option) \<Rightarrow> 'a option" where
  "first_decision f =
     (case while_option (\<lambda>(n, r). r = None) (\<lambda>(n, r). (Suc n, f n)) (0, None) of
        None \<Rightarrow> None
      | Some (n, r) \<Rightarrow> r)"

lemma first_decision_rounds:
  assumes "\<And>k. k < n \<Longrightarrow> f k = None" "f n \<noteq> None"
  shows "first_decision f = f n"
proof -
  let ?b = "\<lambda>(n :: nat, r :: 'a option). r = None" and ?c = "\<lambda>(n, r :: 'a option). (Suc n, f n)"
  have steps: "k \<le> n \<Longrightarrow> (?c ^^ k) (0, None) = (k, None)" for k
    by (induction k) (use assms(1) in auto)
  have final: "(?c ^^ Suc n) (0, None) = (Suc n, f n)"
    using steps [of n] by simp
  have stop: "\<not> ?b ((?c ^^ Suc n) (0, None))" unfolding final using assms(2) by simp
  have "Suc n \<le> k" if "\<not> ?b ((?c ^^ k) (0, None))" for k
    using steps [of k] that by (cases "k \<le> n") auto
  with stop have "(LEAST k. \<not> ?b ((?c ^^ k) (0, None))) = Suc n" by (intro Least_equality)
  moreover have "\<exists>k. \<not> ?b ((?c ^^ k) (0, None))" using stop by (rule exI)
  ultimately have "while_option ?b ?c (0, None) = Some ((?c ^^ Suc n) (0, None))"
    unfolding while_option_def by presburger
  then show ?thesis unfolding first_decision_def final by simp
qed

lemma first_decision_None: "(\<And>k. f k = None) \<Longrightarrow> first_decision f = None"
proof -
  let ?b = "\<lambda>(n :: nat, r :: 'a option). r = None" and ?c = "\<lambda>(n, r :: 'a option). (Suc n, f n)"
  assume "\<And>k. f k = None"
  then have "(?c ^^ k) (0, None) = (k, None)" for k by (induction k) auto
  then have "while_option ?b ?c (0, None) = None" unfolding while_option_def by auto
  then show ?thesis by (simp add: first_decision_def)
qed

lemma first_decision_least:
  assumes "f k \<noteq> None"
  shows "first_decision f = f (LEAST n. f n \<noteq> None)"
proof (rule first_decision_rounds)
  show "f (LEAST n. f n \<noteq> None) \<noteq> None" using assms by (rule LeastI)
  show "f j = None" if "j < (LEAST n. f n \<noteq> None)" for j using not_less_Least [OF that] by blast
qed

lemma first_decision_Some_iff:
  "first_decision f = Some r \<longleftrightarrow> (\<exists>n. (\<forall>k < n. f k = None) \<and> f n = Some r)"
proof
  assume decided: "first_decision f = Some r"
  then obtain k where k: "f k \<noteq> None" using first_decision_None [of f] by fastforce
  let ?n = "LEAST n. f n \<noteq> None"
  have "f ?n = Some r" using first_decision_least [of f k] k decided by simp
  moreover have "f j = None" if "j < ?n" for j using not_less_Least [OF that] by blast
  ultimately show "\<exists>n. (\<forall>k < n. f k = None) \<and> f n = Some r" by blast
next
  assume "\<exists>n. (\<forall>k < n. f k = None) \<and> f n = Some r"
  then obtain n where "\<And>k. k < n \<Longrightarrow> f k = None" "f n = Some r" by blast
  with first_decision_rounds [of n f] show "first_decision f = Some r" by simp
qed

lemma first_decision_None_iff: "first_decision f = None \<longleftrightarrow> (\<forall>n. f n = None)"
proof -
  have "f n \<noteq> None \<Longrightarrow> first_decision f \<noteq> None" for n
    using first_decision_least [of f n] LeastI [of "\<lambda>n. f n \<noteq> None" n] by simp
  then show ?thesis using first_decision_None [of f] by blast
qed

end
