(* ===== verification/Health_Probes.thy ===== *)
theory Health_Probes
  imports Activation Rule_Model Deadlines
begin

text \<open>
  The two health probes (\<open>health_probes.cpp\<close>): \<open>PfctlInfoProbe\<close> asks the PF tool
  for its status, \<open>TcpConnectProbe\<close> connects to a numeric address. \<open>inet_pton\<close>, the socket
  calls and the steady clock are parameters; the readiness loop, which the clock alone bounds, is a
  \<open>first_decision\<close>, so that a loop that never ends is the value \<open>None\<close>.
\<close>

unbundle bit_operations_syntax

section \<open>The PF tool\<close>

definition maximum_probe_timeout :: int where "maximum_probe_timeout = 60000"

definition valid_probe_timeout :: "int \<Rightarrow> bool" where
  "valid_probe_timeout timeout \<longleftrightarrow> timeout > 0 \<and> timeout \<le> maximum_probe_timeout"

definition probe_result :: "health_probe_status \<Rightarrow> string \<Rightarrow> health_probe_result" where
  "probe_result status m = \<lparr>probe_status = status, probe_message = m\<rparr>"

definition pf_info_verdict :: "process_result \<Rightarrow> health_probe_result" where
  "pf_info_verdict process =
     (if \<not> launched process \<or> exit_code process = 126 \<or> exit_code process = 127 \<or> error_message process \<noteq> []
      then probe_result Probe_execution_error ''PF information probe could not execute pfctl safely.''
      else if timed_out process
      then probe_result Probe_timed_out ''PF information probe exceeded its time limit.''
      else if output_truncated process
      then probe_result Probe_execution_error ''PF information probe exceeded its output limit.''
      else if exit_code process \<noteq> 0
      then probe_result Probe_unhealthy ''PF information could not be retrieved after activation.''
      else probe_result Probe_healthy ''PF control plane responded after activation.'')"

definition pf_info_probe :: "string \<Rightarrow> int \<Rightarrow> health_probe_result io" where
  "pf_info_probe executable timeout =
     (if \<not> valid_probe_timeout timeout
      then return (probe_result Probe_execution_error ''PF information probe timeout is outside safe bounds.'')
      else do {
        process \<leftarrow> run_process executable [''-s'', ''info''] timeout;
        return (pf_info_verdict process)
      })"

section \<open>Numeric endpoints\<close>

text \<open>\<open>inet_pton\<close>: the address in host byte order.\<close>

record numeric_parser =
  ap_inet :: "string \<Rightarrow> 32 word option"
  ap_inet6 :: "string \<Rightarrow> 128 word option"

datatype numeric_endpoint = Endpoint_inet "32 word" "16 word" | Endpoint_inet6 "128 word" "16 word"

text \<open>\<open>INADDR_ANY\<close>, \<open>INADDR_BROADCAST\<close> and 224/4.\<close>

definition unsafe_inet :: "32 word \<Rightarrow> bool" where
  "unsafe_inet a \<longleftrightarrow> a = 0 \<or> a = 0xffffffff \<or> a AND 0xf0000000 = 0xe0000000"

text \<open>The macros of \<open>netinet/in.h\<close>: unspecified, ff00::/8, fe80::/10 and ::ffff:0:0/96.\<close>

definition unsafe_inet6 :: "128 word \<Rightarrow> bool" where
  "unsafe_inet6 a \<longleftrightarrow>
     a = 0 \<or> drop_bit 120 a = 0xff \<or> drop_bit 118 a = 0x3fa \<or> drop_bit 32 a = 0xffff"

definition parse_numeric_endpoint :: "numeric_parser \<Rightarrow> string \<Rightarrow> 16 word \<Rightarrow> numeric_endpoint option" where
  "parse_numeric_endpoint ap address tcp_port =
     (if tcp_port = 0 then None
      else (case ap_inet ap (c_string address) of
          Some a \<Rightarrow> (if unsafe_inet a then None else Some (Endpoint_inet a tcp_port))
        | None \<Rightarrow>
            (case ap_inet6 ap (c_string address) of
               Some a \<Rightarrow> (if unsafe_inet6 a then None else Some (Endpoint_inet6 a tcp_port))
             | None \<Rightarrow> None)))"

section \<open>The socket\<close>

datatype fcntl_call = Get_status_flags | Set_status_flags "32 word" | Get_descriptor_flags | Set_descriptor_flags "32 word"

datatype connect_answer = Connect_done | Connect_error errno

text \<open>What \<open>poll\<close> returns with; a ready descriptor comes with the answer of \<open>getsockopt\<close>.\<close>

datatype poll_answer =
  Poll_timeout
| Poll_error errno
| Poll_invalid
| Poll_ready "(errno option) option"

text \<open>
  The system the probe meets: \<open>tn_clock n\<close> is the steady clock in nanoseconds when round
  \<open>n\<close> of the loop starts, \<open>tn_poll n ms\<close> what the wait of round \<open>n\<close> returns.
\<close>

record tcp_network =
  tn_parser :: numeric_parser
  tn_socket :: "numeric_endpoint \<Rightarrow> bool"
  tn_fcntl :: "fcntl_call \<Rightarrow> int"
  tn_connect :: "numeric_endpoint \<Rightarrow> connect_answer"
  tn_start :: nat
  tn_clock :: "nat \<Rightarrow> nat"
  tn_poll :: "nat \<Rightarrow> int \<Rightarrow> poll_answer"

definition o_nonblock :: "32 word" where "o_nonblock = 4"
definition fd_cloexec :: "32 word" where "fd_cloexec = 1"

definition set_nonblocking_close_on_exec :: "tcp_network \<Rightarrow> bool" where
  "set_nonblocking_close_on_exec tn =
     (let status_flags = tn_fcntl tn Get_status_flags
      in if status_flags < 0 \<or> tn_fcntl tn (Set_status_flags (word_of_int status_flags OR o_nonblock)) \<noteq> 0
         then False
         else (let descriptor_flags = tn_fcntl tn Get_descriptor_flags
               in descriptor_flags \<ge> 0 \<and>
                  tn_fcntl tn (Set_descriptor_flags (word_of_int descriptor_flags OR fd_cloexec)) = 0))"

definition tcp_timed_out :: health_probe_result where
  "tcp_timed_out = probe_result Probe_timed_out ''TCP management connection timed out.''"

definition tcp_accepted :: health_probe_result where
  "tcp_accepted = probe_result Probe_healthy ''TCP management endpoint accepted a connection.''"

definition connection_error :: "errno \<Rightarrow> health_probe_result" where
  "connection_error error =
     (if error = ETIMEDOUT then tcp_timed_out
      else probe_result Probe_unhealthy ''TCP management endpoint did not accept a connection.'')"

text \<open>One round; \<open>None\<close> is the \<open>continue\<close> after an interruption.\<close>

definition wait_round :: "tcp_network \<Rightarrow> nat \<Rightarrow> nat \<Rightarrow> health_probe_result option" where
  "wait_round tn deadline n =
     (if tn_clock tn n \<ge> deadline then Some tcp_timed_out
      else (case tn_poll tn n (remaining_milliseconds deadline (tn_clock tn n)) of
          Poll_timeout \<Rightarrow> Some tcp_timed_out
        | Poll_error error \<Rightarrow>
            (if error = EINTR then None
             else Some (probe_result Probe_execution_error ''TCP management probe could not wait for connection.''))
        | Poll_invalid \<Rightarrow>
            Some (probe_result Probe_execution_error ''TCP management probe socket became invalid.'')
        | Poll_ready None \<Rightarrow>
            Some (probe_result Probe_execution_error ''TCP management probe could not inspect connection state.'')
        | Poll_ready (Some None) \<Rightarrow> Some tcp_accepted
        | Poll_ready (Some (Some error)) \<Rightarrow> Some (connection_error error)))"

definition wait_connected :: "tcp_network \<Rightarrow> nat \<Rightarrow> health_probe_result option" where
  "wait_connected tn deadline = first_decision (wait_round tn deadline)"

section \<open>The TCP probe\<close>

definition tcp_connect_probe :: "tcp_network \<Rightarrow> string \<Rightarrow> 16 word \<Rightarrow> int \<Rightarrow> health_probe_result option" where
  "tcp_connect_probe tn address tcp_port timeout =
     (if \<not> valid_probe_timeout timeout
      then Some (probe_result Probe_execution_error ''TCP management probe timeout is outside safe bounds.'')
      else (case parse_numeric_endpoint (tn_parser tn) address tcp_port of
          None \<Rightarrow> Some (probe_result Probe_execution_error ''TCP management probe requires a safe numeric endpoint.'')
        | Some target \<Rightarrow>
            (if \<not> tn_socket tn target \<or> \<not> set_nonblocking_close_on_exec tn
             then Some (probe_result Probe_execution_error ''TCP management probe could not create a safe socket.'')
             else (case tn_connect tn target of
                 Connect_done \<Rightarrow> Some tcp_accepted
               | Connect_error error \<Rightarrow>
                   (if error = EISCONN then Some tcp_accepted
                    else if error \<noteq> EINPROGRESS \<and> error \<noteq> EINTR then Some (connection_error error)
                    else wait_connected tn (tn_start tn + nat timeout * 1000000))))))"

section \<open>What they answer\<close>

lemma probe_result_sel [simp]: "probe_ok (probe_result status m) \<longleftrightarrow> status = Probe_healthy"
  "probe_status (probe_result status m) = status"
  by (simp_all add: probe_ok_def probe_result_def)

lemma tcp_verdicts [simp]: "\<not> probe_ok tcp_timed_out" "probe_ok tcp_accepted" "\<not> probe_ok (connection_error e)"
  by (simp_all add: tcp_timed_out_def tcp_accepted_def connection_error_def)

text \<open>The loop decides in the first round that is not interrupted before the deadline.\<close>

definition interrupted :: "tcp_network \<Rightarrow> nat \<Rightarrow> nat \<Rightarrow> bool" where
  "interrupted tn deadline n \<longleftrightarrow>
     tn_clock tn n < deadline \<and>
     tn_poll tn n (remaining_milliseconds deadline (tn_clock tn n)) = Poll_error EINTR"

lemma wait_round_interrupted: "wait_round tn deadline n = None \<longleftrightarrow> interrupted tn deadline n"
  by (auto simp: wait_round_def interrupted_def split: poll_answer.splits option.splits)

lemma wait_connected_Some:
  "wait_connected tn deadline = Some r \<longleftrightarrow>
     (\<exists>n. (\<forall>k < n. interrupted tn deadline k) \<and> wait_round tn deadline n = Some r)"
  by (simp add: wait_connected_def first_decision_Some_iff wait_round_interrupted)

lemma wait_connected_None: "wait_connected tn deadline = None \<longleftrightarrow> (\<forall>n. interrupted tn deadline n)"
  by (simp add: wait_connected_def first_decision_None_iff wait_round_interrupted)

text \<open>What a healthy TCP answer means.\<close>

definition connection_completed :: "tcp_network \<Rightarrow> numeric_endpoint \<Rightarrow> nat \<Rightarrow> bool" where
  "connection_completed tn target deadline \<longleftrightarrow>
     tn_connect tn target \<in> {Connect_done, Connect_error EISCONN} \<or>
     tn_connect tn target \<in> {Connect_error EINPROGRESS, Connect_error EINTR} \<and>
     (\<exists>n. (\<forall>k < n. interrupted tn deadline k) \<and> tn_clock tn n < deadline \<and>
        tn_poll tn n (remaining_milliseconds deadline (tn_clock tn n)) = Poll_ready (Some None))"

lemma wait_connected_healthy:
  "(\<exists>r. wait_connected tn deadline = Some r \<and> probe_ok r) \<longleftrightarrow>
   (\<exists>n. (\<forall>k < n. interrupted tn deadline k) \<and> tn_clock tn n < deadline \<and>
      tn_poll tn n (remaining_milliseconds deadline (tn_clock tn n)) = Poll_ready (Some None))"
proof -
  have "(\<exists>r. wait_round tn deadline n = Some r \<and> probe_ok r) \<longleftrightarrow> tn_clock tn n < deadline \<and>
      tn_poll tn n (remaining_milliseconds deadline (tn_clock tn n)) = Poll_ready (Some None)" for n
    by (auto simp: wait_round_def split: poll_answer.splits option.splits)
  then show ?thesis unfolding wait_connected_Some by blast
qed


text \<open>
  The TCP probe returns exactly unless its wait is interrupted for ever on a clock that never
  reaches the deadline; in particular it returns on every clock that does.
\<close>

theorem tcp_probe_returns_iff:
  "tcp_connect_probe tn address tcp_port timeout = None \<longleftrightarrow>
   0 < timeout \<and> timeout \<le> 60000 \<and>
   (\<exists>target. parse_numeric_endpoint (tn_parser tn) address tcp_port = Some target \<and>
      tn_socket tn target \<and> set_nonblocking_close_on_exec tn \<and>
      tn_connect tn target \<in> {Connect_error EINPROGRESS, Connect_error EINTR} \<and>
      (\<forall>n. interrupted tn (tn_start tn + nat timeout * 1000000) n))"
  by (auto simp: tcp_connect_probe_def valid_probe_timeout_def maximum_probe_timeout_def wait_connected_None
      split: option.splits connect_answer.splits if_splits)

section \<open>The endpoints are hosts\<close>

lemma class_d: "a AND 0xf0000000 = 0xe0000000" if "drop_bit 28 a = 14" for a :: "32 word"
proof (rule bit_word_eqI)
  fix n assume "n < LENGTH(32)"
  then consider "n < 28" | "n = 28" | "n = 29" | "n = 30" | "n = 31" by force
  moreover have "bit a (28 + k) \<longleftrightarrow> bit (14 :: 32 word) k" for k
    using arg_cong [OF that, of "\<lambda>x. bit x k"] by (simp add: bit_drop_bit_eq)
  from this [of 0] this [of 1] this [of 2] this [of 3]
  have "\<not> bit a 28" "bit a 29" "bit a 30" "bit a 31" by (simp_all add: bit_numeral_rec)
  moreover have "\<not> bit (0xf0000000 :: 32 word) n \<and> \<not> bit (0xe0000000 :: 32 word) n" if "n < 28"
  proof -
    have "(0xf0000000 :: 32 word) = push_bit 28 15" "(0xe0000000 :: 32 word) = push_bit 28 14"
      by (simp_all add: push_bit_eq_mult)
    then show ?thesis using that by (simp only: bit_push_bit_iff) simp
  qed
  ultimately show "bit (a AND 0xf0000000) n = bit (0xe0000000 :: 32 word) n"
    by cases (simp_all only: bit_and_iff simp_thms, simp_all add: bit_numeral_rec)
qed

lemma drop_bit_value: "drop_bit k a = word_of_nat (unat a div 2 ^ k)" for a :: "'a::len word"
proof -
  have "unat a div 2 ^ k = unat (drop_bit k a)"
    by (subst unat_drop_bit_eq) (rule drop_bit_eq_div [symmetric])
  then show ?thesis by (simp only: of_nat_unat ucast_id)
qed

lemma safe_inet: "\<not> unsafe_inet a \<Longrightarrow> a \<noteq> 0 \<and> a \<noteq> - 1 \<and> unat a div 2 ^ 28 \<noteq> 14"
  using drop_bit_value [of 28 a] class_d [of a] by (auto simp: unsafe_inet_def)

lemma safe_inet6:
  "\<not> unsafe_inet6 a \<Longrightarrow>
     a \<noteq> 0 \<and> unat a div 2 ^ 120 \<noteq> 255 \<and> unat a div 2 ^ 118 \<noteq> 1018 \<and> unat a div 2 ^ 32 \<noteq> 65535"
  using drop_bit_value [of 120 a] drop_bit_value [of 118 a] drop_bit_value [of 32 a]
  by (intro conjI notI) (simp_all only: unsafe_inet6_def, simp_all)

text \<open>
  The endpoint that is connected to is one host and not a group, a broadcast or an unspecified
  address: outside 0.0.0.0, 255.255.255.255 and 224/4, or outside ::, ff00::/8, fe80::/10 and
  ::ffff:0:0/96, with a port other than zero.
\<close>

theorem endpoint_is_host:
  assumes "parse_numeric_endpoint ap address tcp_port = Some target"
  shows "case target of
     Endpoint_inet a p \<Rightarrow> p \<noteq> 0 \<and> a \<noteq> 0 \<and> a \<noteq> - 1 \<and> unat a div 2 ^ 28 \<noteq> 14
   | Endpoint_inet6 a p \<Rightarrow> p \<noteq> 0 \<and> a \<noteq> 0 \<and> unat a div 2 ^ 120 \<noteq> 255 \<and>
       unat a div 2 ^ 118 \<noteq> 1018 \<and> unat a div 2 ^ 32 \<noteq> 65535"
  using assms
  by (auto simp only: parse_numeric_endpoint_def numeric_endpoint.case option.inject
      split: if_split_asm option.split_asm dest!: safe_inet safe_inet6)

text \<open>
  The PF probe is healthy exactly when \<open>pfctl -s info\<close> ran once, within the bounds of its time
  and its output, and exited with status zero. With a timeout outside the bounds nothing is run.
\<close>

theorem pf_probe_healthy_iff:
  assumes "run_state (pf_info_probe executable timeout) w = (r, w')"
  shows "(probe_ok r \<longleftrightarrow>
       is_absolute executable \<and> 0 < timeout \<and> timeout \<le> 60000 \<and>
       (let p = processes w (processes_run w) executable [''-s'', ''info''] (entries w) in
          process_accepted p \<and> \<not> output_truncated p)) \<and>
     entries w' = entries w \<and>
     actions w' = actions w @
       (if is_absolute executable \<and> 0 < timeout \<and> timeout \<le> 60000
        then [Executed executable [''-s'', ''info''] (entries w)
          (processes w (processes_run w) executable [''-s'', ''info''] (entries w))]
        else [])"
  using assms
  by (auto simp: pf_info_probe_def run_process_def execute_def pf_info_verdict_def process_accepted_def
      valid_probe_timeout_def maximum_probe_timeout_def Let_def split: if_splits)

end
