(* ===== verification/Activation_Safety.thy ===== *)
theory Activation_Safety
  imports Activation
begin

text \<open>
  What activation and recovery guarantee. The world is reduced to a \<open>firewall_view\<close>: archive
  texts, last-known-good marker, pending record and the loads performed. Every step of the workflow
  has a rule on views, and the stages are proved with these rules from the last to the first.
\<close>

section \<open>Views\<close>

text \<open>One run of \<open>pfctl -f\<close>: its path, what was pending and archived at that moment, and
  whether it was accepted.\<close>

record load_record =
  ld_path :: string
  ld_pending :: stored_transaction
  ld_texts :: "u64 \<Rightarrow> string option"
  ld_accepted :: bool

record firewall_view =
  fv_texts :: "u64 \<Rightarrow> string option"
  fv_marker :: "u64 option"
  fv_pending :: stored_transaction
  fv_loads :: "load_record list"

definition load_view :: "activation_service \<Rightarrow> nat \<Rightarrow> string \<times> files \<times> process_result \<Rightarrow> load_record" where
  "load_view svc uid l = (case l of (p, fs, process) \<Rightarrow>
     \<lparr>ld_path = p,
      ld_pending = record_view uid (fs (transaction_path (as_transactions svc))),
      ld_texts = (\<lambda>r. revision_view uid (fs (revision_path (as_revisions svc) r))),
      ld_accepted = process_accepted process\<rparr>)"

definition firewall_view :: "activation_service \<Rightarrow> world \<Rightarrow> firewall_view" where
  "firewall_view svc w =
     \<lparr>fv_texts = revision_text (as_revisions svc) w, fv_marker = marker (as_revisions svc) w,
      fv_pending = stored (as_transactions svc) w,
      fv_loads = map (load_view svc (effective_uid w)) (loads w)\<rparr>"

definition separate :: "activation_service \<Rightarrow> bool" where
  "separate svc \<longleftrightarrow>
     as_journal svc \<noteq> as_revisions svc \<and> as_journal svc \<noteq> as_transactions svc \<and>
     as_revisions svc \<noteq> as_transactions svc"

text \<open>
  Where a run that started in \<open>w0\<close> stands: the milestones \<open>ms\<close> it has visibly
  passed, in this order, and the view \<open>v\<close> of its world.
\<close>

definition situation ::
  "activation_service \<Rightarrow> world \<Rightarrow> visible_action list \<Rightarrow> firewall_view \<Rightarrow> world \<Rightarrow> bool" where
  "situation svc w0 ms v w \<longleftrightarrow>
     same_setting w0 w \<and> firewall_view svc w = v \<and>
     (\<exists>xs. actions w = actions w0 @ xs \<and> subseq ms xs)"

lemma situation_start: "situation svc w [] (firewall_view svc w) w"
  by (simp add: situation_def)

lemma situation_forget: "situation svc w0 ms v w \<Longrightarrow> situation svc w0 [] v w"
  by (auto simp: situation_def)

lemma situation_step:
  assumes "situation svc w0 ms v w" "same_setting w w'" "actions w' = actions w @ xs"
    "firewall_view svc w' = v'"
  shows "situation svc w0 ms v' w'"
  using assms by (auto simp: situation_def intro: same_setting_trans subseq_rev_drop_many)

lemma situation_milestone:
  assumes "situation svc w0 ms v w" "same_setting w w'" "actions w' = actions w @ [a]"
    "firewall_view svc w' = v'"
  shows "situation svc w0 (ms @ [a]) v' w'"
proof -
  from assms(1) obtain xs where "actions w = actions w0 @ xs" "subseq ms xs"
    by (auto simp: situation_def)
  then have "actions w' = actions w0 @ (xs @ [a])" "subseq (ms @ [a]) (xs @ [a])"
    using assms(3) by simp_all
  with assms show ?thesis unfolding situation_def by (blast intro: same_setting_trans)
qed

lemma situation_settle [simp]:
  "situation svc w0 ms v (w\<lparr>script := rs\<rparr>) = situation svc w0 ms v w"
  "situation svc w0 ms v (w\<lparr>last_errno := e\<rparr>) = situation svc w0 ms v w"
  by (simp_all add: situation_def firewall_view_def)

section \<open>Rules on views\<close>

lemma uid_same: "same_setting w w' \<Longrightarrow> effective_uid w' = effective_uid w"
  by (simp add: same_setting_def)

lemma view_audited:
  assumes "separate svc" "audited (as_journal svc) es w w'"
  shows "firewall_view svc w' = firewall_view svc w"
proof -
  from assms have same: "same_setting w w'" and touch: "only_touches {journal_path (as_journal svc)} w w'"
    and acts: "actions w' = actions w @ map Audited es" by (simp_all add: audited_def)
  have other: "entries w' (d, n) = entries w (d, n)" if "d \<noteq> as_journal svc" for d n
    using touch that by (auto simp: journal_path_def dest: only_touches_entry)
  have "revision_text (as_revisions svc) w' = revision_text (as_revisions svc) w"
    "marker (as_revisions svc) w' = marker (as_revisions svc) w"
    "stored (as_transactions svc) w' = stored (as_transactions svc) w"
    using assms(1) other uid_same [OF same]
    by (auto simp: revision_text_def marker_def stored_def revision_path_def marker_path_def
        transaction_path_def separate_def fun_eq_iff)
  with acts uid_same [OF same] show ?thesis by (simp add: firewall_view_def)
qed

lemma firewall_view_clock [simp]:
  "firewall_view svc (w\<lparr>clock_reads := c\<rparr>) = firewall_view svc w"
  by (simp add: firewall_view_def)

lemma situation_audited:
  "separate svc \<Longrightarrow> situation svc w0 ms v w \<Longrightarrow> audited (as_journal svc) es w w' \<Longrightarrow>
     situation svc w0 ms v w'"
  by (rule situation_step [where w = w and xs = "map Audited es"])
    (simp_all add: view_audited, auto simp: audited_def situation_def)

lemma situation_clock [simp]:
  "situation svc w0 ms v (w\<lparr>clock_reads := c\<rparr>) = situation svc w0 ms v w"
  by (simp add: situation_def)

lemma wp_act_audit:
  assumes "separate svc" "situation svc w0 ms v w"
    and "\<And>ok r' w'. situation svc w0 ms v w' \<Longrightarrow> Q (ok, r') w'"
  shows "wp (act_audit svc build r) Q w"
  unfolding act_audit_def act_append_def
  using assms(1,2) by (auto intro!: wp_journal_append_audited assms(3) intro: situation_audited)

lemma wp_act_log:
  assumes "separate svc" "situation svc w0 ms v w"
    and "\<And>ok r' w'. situation svc w0 ms v w' \<Longrightarrow> Q (ok, r') w'"
  shows "wp (act_log svc q sev eid act outcome m num extra r) Q w"
  unfolding act_log_def by (rule wp_act_audit) (rule assms; assumption)+

lemma wp_rec_audit:
  assumes "separate svc" "situation svc w0 ms v w"
    and "\<And>ok r' w'. situation svc w0 ms v w' \<Longrightarrow> Q (ok, r') w'"
  shows "wp (rec_audit svc build r) Q w"
  unfolding rec_audit_def
  using assms(1,2) by (auto intro!: wp_journal_append_audited assms(3) intro: situation_audited)

text \<open>The runs of \<open>pfctl\<close> and the consultations.\<close>

definition checked :: "activation_service \<Rightarrow> nat \<Rightarrow> (u64 \<Rightarrow> string option) \<Rightarrow> u64 \<Rightarrow> visible_action \<Rightarrow> bool" where
  "checked svc uid texts num a \<longleftrightarrow>
     (\<exists>fs process. a = Executed (pfctl_executable (as_validator svc))
         [''-nf'', path_string (revision_path (as_revisions svc) num)] fs process \<and>
        process_accepted process \<and>
        revision_view uid (fs (revision_path (as_revisions svc) num)) = texts num)"

definition loaded :: "activation_service \<Rightarrow> nat \<Rightarrow> (u64 \<Rightarrow> string option) \<Rightarrow> u64 \<Rightarrow> visible_action \<Rightarrow> bool" where
  "loaded svc uid texts num a \<longleftrightarrow>
     (\<exists>fs process. a = Executed (pfctl_executable (as_loader svc))
         [''-f'', path_string (revision_path (as_revisions svc) num)] fs process \<and>
        process_accepted process \<and>
        revision_view uid (fs (revision_path (as_revisions svc) num)) = texts num)"

lemma view_pfctl:
  assumes "pfctl_effect t flag p ok w w'"
  shows "fv_texts (firewall_view svc w') = fv_texts (firewall_view svc w)"
    "fv_marker (firewall_view svc w') = fv_marker (firewall_view svc w)"
    "fv_pending (firewall_view svc w') = fv_pending (firewall_view svc w)"
proof -
  from assms have "effective_uid w' = effective_uid w" "entries w' = entries w"
    by (simp_all add: pfctl_effect_def same_setting_def)
  then show "fv_texts (firewall_view svc w') = fv_texts (firewall_view svc w)"
    "fv_marker (firewall_view svc w') = fv_marker (firewall_view svc w)"
    "fv_pending (firewall_view svc w') = fv_pending (firewall_view svc w)"
    by (simp_all add: firewall_view_def revision_text_def [abs_def] marker_def stored_def)
qed

lemma view_check:
  assumes "pfctl_effect t ''-nf'' p ok w w'"
  shows "firewall_view svc w' = firewall_view svc w"
proof -
  have "loads w' = loads w" using assms by (rule pfctl_effect_actions(2)) simp
  moreover have "effective_uid w' = effective_uid w"
    using assms by (simp add: pfctl_effect_def same_setting_def)
  ultimately have "fv_loads (firewall_view svc w') = fv_loads (firewall_view svc w)"
    by (simp add: firewall_view_def)
  with view_pfctl [OF assms] show ?thesis
    by (intro firewall_view.equality) simp_all
qed

lemma wp_check:
  assumes "situation svc w0 ms v w"
    and "\<And>x w'. \<not> native_ok x \<Longrightarrow> situation svc w0 ms v w' \<Longrightarrow> Q x w'"
    and "\<And>x a w'. native_ok x \<Longrightarrow> situation svc w0 ms v w' \<Longrightarrow>
      checked svc (effective_uid w0) (fv_texts v) num a \<Longrightarrow> situation svc w0 (ms @ [a]) v w' \<Longrightarrow> Q x w'"
  shows "wp (validate_candidate (as_validator svc) (revision_path (as_revisions svc) num)) Q w"
proof (rule wp_validate_candidate)
  let ?p = "revision_path (as_revisions svc) num"
  fix x w' assume e: "pfctl_effect (as_validator svc) ''-nf'' ?p (native_ok x) w w'"
  then have same: "same_setting w w'" by (simp add: pfctl_effect_def)
  have view: "firewall_view svc w' = v"
    using view_check [OF e] assms(1) by (simp add: situation_def)
  from e obtain xs where xs: "actions w' = actions w @ xs" by (auto simp: pfctl_effect_def)
  have plain: "situation svc w0 ms v w'" by (rule situation_step [OF assms(1) same xs view])
  show "Q x w'"
  proof (cases "native_ok x")
    case False
    then show ?thesis using plain by (rule assms(2))
  next
    case True
    with e obtain process where p: "process_accepted process"
      "actions w' = actions w @ [Executed (pfctl_executable (as_validator svc)) [''-nf'', path_string ?p]
         (entries w) process]" by (auto simp: pfctl_effect_def)
    have "revision_view (effective_uid w0) (entries w ?p) = fv_texts v num"
      using assms(1) uid_same [of w0 w] by (auto simp: situation_def firewall_view_def revision_text_def)
    with p(1) have "checked svc (effective_uid w0) (fv_texts v) num
        (Executed (pfctl_executable (as_validator svc)) [''-nf'', path_string ?p] (entries w) process)"
      by (auto simp: checked_def)
    then show ?thesis
      using situation_milestone [OF assms(1) same p(2) view] by (rule assms(3) [OF True plain])
  qed
qed

definition load_of :: "activation_service \<Rightarrow> u64 \<Rightarrow> firewall_view \<Rightarrow> bool \<Rightarrow> load_record" where
  "load_of svc num v accepted =
     \<lparr>ld_path = path_string (revision_path (as_revisions svc) num), ld_pending = fv_pending v,
      ld_texts = fv_texts v, ld_accepted = accepted\<rparr>"

lemma wp_load:
  assumes "situation svc w0 ms v w"
    and "\<And>x w'. \<not> load_ok x \<Longrightarrow> situation svc w0 ms v w' \<Longrightarrow> Q x w'"
    and "\<And>x w'. \<not> load_ok x \<Longrightarrow>
      situation svc w0 ms (v\<lparr>fv_loads := fv_loads v @ [load_of svc num v False]\<rparr>) w' \<Longrightarrow> Q x w'"
    and "\<And>x a w'. load_ok x \<Longrightarrow> loaded svc (effective_uid w0) (fv_texts v) num a \<Longrightarrow>
      situation svc w0 (ms @ [a]) (v\<lparr>fv_loads := fv_loads v @ [load_of svc num v True]\<rparr>) w' \<Longrightarrow> Q x w'"
  shows "wp (load_ruleset (as_loader svc) (revision_path (as_revisions svc) num)) Q w"
proof (rule wp_load_ruleset)
  let ?p = "revision_path (as_revisions svc) num"
  fix x w' assume e: "pfctl_effect (as_loader svc) ''-f'' ?p (load_ok x) w w'"
  then have same: "same_setting w w'" by (simp add: pfctl_effect_def)
  from assms(1) have v: "firewall_view svc w = v" and uid: "effective_uid w = effective_uid w0"
    by (auto simp: situation_def uid_same)
  have uid': "effective_uid w' = effective_uid w" using same by (rule uid_same)
  show "Q x w'"
  proof (cases "actions w' = actions w")
    case True
    with e have "\<not> load_ok x" by (auto simp: pfctl_effect_def)
    moreover have "firewall_view svc w' = v"
      using view_pfctl [OF e] True uid' v by (auto simp: firewall_view_def)
    ultimately show ?thesis
      using True by (intro assms(2) situation_step [OF assms(1) same, where xs = "[]"]) simp_all
  next
    case False
    let ?a = "\<lambda>process. Executed (pfctl_executable (as_loader svc)) [''-f'', path_string ?p] (entries w) process"
    from False e obtain process where p: "actions w' = actions w @ [?a process]"
      "load_ok x \<longleftrightarrow> process_accepted process" by (auto simp: pfctl_effect_def)
    have "load_view svc (effective_uid w) (path_string ?p, entries w, process) =
        load_of svc num v (process_accepted process)"
      using v by (auto simp: load_view_def load_of_def firewall_view_def stored_def revision_text_def fun_eq_iff)
    with p(1) have "fv_loads (firewall_view svc w') = fv_loads v @ [load_of svc num v (process_accepted process)]"
      using v uid' by (auto simp: firewall_view_def)
    then have view: "firewall_view svc w' = v\<lparr>fv_loads := fv_loads v @ [load_of svc num v (process_accepted process)]\<rparr>"
      using view_pfctl [OF e] v by (intro firewall_view.equality) auto
    show ?thesis
    proof (cases "process_accepted process")
      case True
      have "revision_view (effective_uid w0) (entries w ?p) = fv_texts v num"
        using v uid by (auto simp: firewall_view_def revision_text_def)
      with True have "loaded svc (effective_uid w0) (fv_texts v) num (?a process)"
        by (auto simp: loaded_def)
      with True p view show ?thesis
        by (intro assms(4) [OF _ _ situation_milestone [OF assms(1) same p(1)]]) simp_all
    next
      case False
      with p view show ?thesis
        by (intro assms(3) [OF _ situation_step [OF assms(1) same p(1)]]) simp_all
    qed
  qed
qed


text \<open>The archive: reading changes nothing, marking at most the marker.\<close>

lemma wp_read_revision:
  assumes "situation svc w0 ms v w"
    and "\<And>x w'. situation svc w0 ms v w' \<Longrightarrow> (revision_read_ok x \<Longrightarrow> fv_texts v num \<noteq> None) \<Longrightarrow> Q x w'"
  shows "wp (load_revision (as_revisions svc) num) Q w"
  using assms(1)
  by (intro wp_load_revision assms(2))
    (auto simp: load_revision_reply_def situation_def firewall_view_def)

lemma wp_recall:
  assumes "situation svc w0 ms v w"
    and "\<And>x w'. \<not> last_known_good_ok x \<Longrightarrow> lkg_revision x = None \<Longrightarrow> situation svc w0 ms v w' \<Longrightarrow> Q x w'"
    and "\<And>x num w'. last_known_good_ok x \<Longrightarrow> lkg_revision x = Some num \<Longrightarrow> fv_marker v = Some num \<Longrightarrow>
      fv_texts v num \<noteq> None \<Longrightarrow> situation svc w0 ms v w' \<Longrightarrow> Q x w'"
  shows "wp (last_known_good (as_revisions svc)) Q w"
proof (rule wp_last_known_good)
  fix x rs e assume reply: "last_known_good_reply (as_revisions svc) x w"
  from assms(1) have v: "revision_text (as_revisions svc) w = fv_texts v"
    "marker (as_revisions svc) w = fv_marker v"
    by (auto simp: situation_def firewall_view_def)
  show "Q x (settle rs e w)"
  proof (cases "last_known_good_ok x")
    case True
    with reply v obtain num where "lkg_revision x = Some num" "fv_marker v = Some num" "fv_texts v num \<noteq> None"
      by (auto simp: last_known_good_reply_def)
    with True assms(1) show ?thesis by (intro assms(3)) simp_all
  next
    case False
    with reply assms(1) show ?thesis by (intro assms(2)) (simp_all add: last_known_good_reply_def)
  qed
qed

lemma view_frame_revisions:
  assumes "separate svc" "store_frame (as_revisions svc) w w'"
  shows "fv_pending (firewall_view svc w') = fv_pending (firewall_view svc w)"
    "fv_loads (firewall_view svc w') = fv_loads (firewall_view svc w)"
proof -
  from assms(2) have same: "same_setting w w'" and touch: "only_touches (in_directory (as_revisions svc)) w w'"
    and acts: "actions w' = actions w" by (simp_all add: store_frame_def)
  show "fv_loads (firewall_view svc w') = fv_loads (firewall_view svc w)"
    using acts uid_same [OF same] by (simp add: firewall_view_def)
  have "entries w' (transaction_path (as_transactions svc)) = entries w (transaction_path (as_transactions svc))"
    using assms(1) by (intro only_touches_entry [OF touch]) (auto simp: separate_def transaction_path_def)
  then show "fv_pending (firewall_view svc w') = fv_pending (firewall_view svc w)"
    using uid_same [OF same] by (simp add: firewall_view_def stored_def)
qed

lemma view_frame_transactions:
  assumes "separate svc" "store_frame (as_transactions svc) w w'"
  shows "firewall_view svc w' = (firewall_view svc w)\<lparr>fv_pending := stored (as_transactions svc) w'\<rparr>"
proof -
  from assms(2) have same: "same_setting w w'" and touch: "only_touches (in_directory (as_transactions svc)) w w'"
    and acts: "actions w' = actions w" by (simp_all add: store_frame_def)
  have other: "entries w' (as_revisions svc, n) = entries w (as_revisions svc, n)" for n
    using assms(1) by (intro only_touches_entry [OF touch]) (auto simp: separate_def)
  then have "revision_text (as_revisions svc) w' = revision_text (as_revisions svc) w"
    "marker (as_revisions svc) w' = marker (as_revisions svc) w"
    using uid_same [OF same]
    by (auto simp: revision_text_def marker_def revision_path_def marker_path_def)
  then show ?thesis
    using acts uid_same [OF same] by (simp add: firewall_view_def)
qed

lemma wp_mark:
  assumes "separate svc" "situation svc w0 ms v w"
    and "\<And>x w'. last_known_good_ok x \<Longrightarrow> fv_texts v num \<noteq> None \<Longrightarrow>
      situation svc w0 ms (v\<lparr>fv_marker := Some num\<rparr>) w' \<Longrightarrow> Q x w'"
    and "\<And>x m w'. \<not> last_known_good_ok x \<Longrightarrow> m = fv_marker v \<or> m = Some num \<Longrightarrow>
      situation svc w0 ms (v\<lparr>fv_marker := m\<rparr>) w' \<Longrightarrow> Q x w'"
  shows "wp (mark_last_known_good (as_revisions svc) num) Q w"
proof (rule wp_mark_last_known_good)
  fix x w' assume e: "mark_effect (as_revisions svc) num x w w'"
  then have frame: "store_frame (as_revisions svc) w w'" by (simp add: mark_effect_def)
  from assms(2) have v: "firewall_view svc w = v" by (simp add: situation_def)
  have view: "firewall_view svc w' = v\<lparr>fv_marker := marker (as_revisions svc) w'\<rparr>"
    using view_frame_revisions [OF assms(1) frame] e v
    by (intro firewall_view.equality) (auto simp: mark_effect_def firewall_view_def)
  have sit: "situation svc w0 ms (v\<lparr>fv_marker := marker (as_revisions svc) w'\<rparr>) w'"
    using frame by (intro situation_step [OF assms(2) _ _ view, where xs = "[]"]) (simp_all add: store_frame_def)
  show "Q x w'"
  proof (cases "last_known_good_ok x")
    case True
    with e have "marker (as_revisions svc) w' = Some num" "revision_text (as_revisions svc) w num \<noteq> None"
      by (simp_all add: mark_effect_def)
    with sit v show ?thesis by (intro assms(3) [OF True]) (auto simp: firewall_view_def)
  next
    case False
    from e v have "marker (as_revisions svc) w' = fv_marker v \<or> marker (as_revisions svc) w' = Some num"
      by (auto simp: mark_effect_def firewall_view_def)
    with sit show ?thesis by (rule assms(4) [OF False, rotated])
  qed
qed

lemma situation_request:
  assumes "separate svc" "situation svc w0 ms v w"
    and "transaction_effect (as_transactions svc) request x w w'"
  shows "contract_step request (fv_pending v) (stored (as_transactions svc) w')"
    "reply_contract request x (fv_pending v) (stored (as_transactions svc) w')"
    "situation svc w0 ms (v\<lparr>fv_pending := stored (as_transactions svc) w'\<rparr>) w'"
proof -
  from assms have frame: "store_frame (as_transactions svc) w w'" and v: "firewall_view svc w = v"
    by (simp_all add: transaction_effect_def situation_def)
  from v have "stored (as_transactions svc) w = fv_pending v" by (auto simp: firewall_view_def)
  with assms(3) show "contract_step request (fv_pending v) (stored (as_transactions svc) w')"
    "reply_contract request x (fv_pending v) (stored (as_transactions svc) w')"
    by (simp_all add: transaction_effect_def)
  show "situation svc w0 ms (v\<lparr>fv_pending := stored (as_transactions svc) w'\<rparr>) w'"
    using frame view_frame_transactions [OF assms(1) frame] v
    by (intro situation_step [OF assms(2), where xs = "[]"]) (simp_all add: store_frame_def)
qed

section \<open>An activation in flight\<close>

text \<open>
  While an activation owns the pending record, its view is determined by the marker, the recorded
  phase and the loads so far.
\<close>

definition own_record :: "activation_request \<Rightarrow> u64 \<Rightarrow> activation_phase \<Rightarrow> stored_transaction" where
  "own_record q previous ph = Pending
     \<lparr>txn_operation_id = aq_operation_id q, txn_target_revision = aq_revision q,
      txn_rollback_revision = previous, txn_phase = ph\<rparr>"

definition flight ::
  "activation_request \<Rightarrow> u64 \<Rightarrow> (u64 \<Rightarrow> string option) \<Rightarrow> u64 \<Rightarrow> activation_phase \<Rightarrow>
     load_record list \<Rightarrow> firewall_view" where
  "flight q previous texts mark ph ls =
     \<lparr>fv_texts = texts, fv_marker = Some mark, fv_pending = own_record q previous ph, fv_loads = ls\<rparr>"

text \<open>A load of revision \<open>num\<close> while the operation's own record was on disk.\<close>

definition guarded_load ::
  "activation_service \<Rightarrow> activation_request \<Rightarrow> u64 \<Rightarrow> (u64 \<Rightarrow> string option) \<Rightarrow> u64 \<Rightarrow> bool \<Rightarrow>
     load_record \<Rightarrow> bool" where
  "guarded_load svc q previous texts num accepted l \<longleftrightarrow>
     (\<exists>ph. l = \<lparr>ld_path = path_string (revision_path (as_revisions svc) num),
        ld_pending = own_record q previous ph, ld_texts = texts, ld_accepted = accepted\<rparr>)"

lemma flight_sel [simp]:
  "fv_texts (flight q previous texts mark ph ls) = texts"
  "fv_marker (flight q previous texts mark ph ls) = Some mark"
  "fv_pending (flight q previous texts mark ph ls) = own_record q previous ph"
  "fv_loads (flight q previous texts mark ph ls) = ls"
  by (simp_all add: flight_def)

lemma flight_upd [simp]:
  "(flight q previous texts mark ph ls)\<lparr>fv_marker := Some mark'\<rparr> = flight q previous texts mark' ph ls"
  "(flight q previous texts mark ph ls)\<lparr>fv_pending := own_record q previous ph'\<rparr> =
     flight q previous texts mark ph' ls"
  "(flight q previous texts mark ph ls)\<lparr>fv_loads := ls'\<rparr> = flight q previous texts mark ph ls'"
  by (simp_all add: flight_def)

lemma guarded_load_of [simp]:
  "guarded_load svc q previous texts num b (load_of svc num (flight q previous texts mark ph ls) b)"
  by (auto simp: guarded_load_def load_of_def)

lemma wp_advance_flight:
  assumes "separate svc" "situation svc w0 ms (flight q previous texts mark ph ls) w"
    and "\<And>x w'. txn_status x = Txn_advanced \<Longrightarrow> valid_transition ph p \<Longrightarrow>
      situation svc w0 ms (flight q previous texts mark p ls) w' \<Longrightarrow> Q x w'"
    and "\<And>x ph' w'. txn_status x \<noteq> Txn_advanced \<Longrightarrow>
      situation svc w0 ms (flight q previous texts mark ph' ls) w' \<Longrightarrow> Q x w'"
  shows "wp (advance_transaction (as_transactions svc) (aq_operation_id q) p) Q w"
proof (rule wp_advance_transaction)
  fix x w' assume e: "transaction_effect (as_transactions svc) (Advance (aq_operation_id q) p) x w w'"
  note step = situation_request [OF assms(1,2) e]
  show "Q x w'"
  proof (cases "txn_status x = Txn_advanced")
    case True
    with step(2) have "stored (as_transactions svc) w' = own_record q previous p" "valid_transition ph p"
      by (auto simp: reply_contract_def own_record_def)
    with step(3) show ?thesis by (intro assms(3) [OF True]) simp_all
  next
    case False
    have "stored (as_transactions svc) w' = own_record q previous ph \<or>
        stored (as_transactions svc) w' = own_record q previous p"
      using step(1) by (auto simp: own_record_def elim!: contract_step_pendingE)
    then obtain ph' where ph': "stored (as_transactions svc) w' = own_record q previous ph'" by blast
    show ?thesis using step(3) by (intro assms(4) [OF False, where ph' = ph']) (simp add: ph')
  qed
qed

definition settled_view ::
  "(u64 \<Rightarrow> string option) \<Rightarrow> u64 \<Rightarrow> stored_transaction \<Rightarrow> load_record list \<Rightarrow> firewall_view" where
  "settled_view texts mark s ls =
     \<lparr>fv_texts = texts, fv_marker = Some mark, fv_pending = s, fv_loads = ls\<rparr>"

lemma wp_clear_flight:
  assumes "separate svc" "situation svc w0 ms (flight q previous texts mark ph ls) w"
    and "\<And>x w'. txn_status x = Txn_cleared \<Longrightarrow>
      situation svc w0 ms (settled_view texts mark Absent ls) w' \<Longrightarrow> Q x w'"
    and "\<And>x s w'. txn_status x \<noteq> Txn_cleared \<Longrightarrow> s = Absent \<or> s = own_record q previous ph \<Longrightarrow>
      situation svc w0 ms (settled_view texts mark s ls) w' \<Longrightarrow> Q x w'"
  shows "wp (clear_transaction (as_transactions svc) (aq_operation_id q)) Q w"
proof (rule wp_clear_transaction)
  fix x w' assume e: "transaction_effect (as_transactions svc) (Clear (aq_operation_id q)) x w w'"
  note step = situation_request [OF assms(1,2) e]
  have sit: "situation svc w0 ms (settled_view texts mark (stored (as_transactions svc) w') ls) w'"
    using step(3) by (simp add: flight_def settled_view_def)
  show "Q x w'"
  proof (cases "txn_status x = Txn_cleared")
    case True
    with step(2) sit show ?thesis by (intro assms(3) [OF True]) (auto simp: reply_contract_def)
  next
    case False
    have "stored (as_transactions svc) w' = Absent \<or> stored (as_transactions svc) w' = own_record q previous ph"
      using step(1) by (auto simp: own_record_def elim!: contract_step_pendingE)
    then show ?thesis using sit by (rule assms(4) [OF False])
  qed
qed

lemma wp_begin_flight:
  assumes "separate svc" "situation svc w0 ms v w" "fv_marker v = Some previous"
    and t: "Pending t = own_record q previous Prepared_for_load"
    and "\<And>x w'. txn_status x = Txn_created \<Longrightarrow> fv_pending v = Absent \<Longrightarrow>
      situation svc w0 ms (flight q previous (fv_texts v) previous Prepared_for_load (fv_loads v)) w' \<Longrightarrow> Q x w'"
    and "\<And>x s w'. txn_status x \<noteq> Txn_created \<Longrightarrow>
      s = fv_pending v \<or> fv_pending v = Absent \<and> s = own_record q previous Prepared_for_load \<and>
        txn_status x \<noteq> Txn_conflict \<Longrightarrow>
      situation svc w0 ms (v\<lparr>fv_pending := s\<rparr>) w' \<Longrightarrow> Q x w'"
  shows "wp (begin_transaction (as_transactions svc) t) Q w"
proof (rule wp_begin_transaction)
  fix x w' assume e: "transaction_effect (as_transactions svc) (Begin t) x w w'"
  note step = situation_request [OF assms(1,2) e]
  show "Q x w'"
  proof (cases "txn_status x = Txn_created")
    case True
    with step(2) t have s: "fv_pending v = Absent"
      "stored (as_transactions svc) w' = own_record q previous Prepared_for_load"
      by (auto simp: reply_contract_def)
    moreover have "v\<lparr>fv_pending := own_record q previous Prepared_for_load\<rparr> =
        flight q previous (fv_texts v) previous Prepared_for_load (fv_loads v)"
      using assms(3) by (simp add: flight_def)
    ultimately show ?thesis using step(3) by (intro assms(5) [OF True]) simp_all
  next
    case False
    let ?s = "stored (as_transactions svc) w'"
    have "?s = fv_pending v \<or> fv_pending v = Absent \<and> ?s = own_record q previous Prepared_for_load"
      using step(1) t by (auto elim: contract_step.cases)
    moreover have "?s = fv_pending v" if "txn_status x = Txn_conflict"
      using step(2) that by (simp add: reply_contract_def)
    moreover have "own_record q previous Prepared_for_load \<noteq> Absent" by (simp add: own_record_def)
    ultimately have "?s = fv_pending v \<or> fv_pending v = Absent \<and>
        ?s = own_record q previous Prepared_for_load \<and> txn_status x \<noteq> Txn_conflict" by metis
    then show ?thesis using step(3) by (rule assms(6) [OF False])
  qed
qed

section \<open>Rolling back\<close>

text \<open>
  What a rolled-back run leaves, after the loads \<open>ls\<close>: either everything is restored by
  one accepted load of the previous revision, or the run reports \<open>rollback_failed\<close>.
\<close>

definition undone ::
  "activation_service \<Rightarrow> world \<Rightarrow> activation_request \<Rightarrow> u64 \<Rightarrow> visible_action list \<Rightarrow>
     (u64 \<Rightarrow> string option) \<Rightarrow> load_record list \<Rightarrow> activation_result \<Rightarrow> world \<Rightarrow> bool" where
  "undone svc w0 q previous ms texts ls r w \<longleftrightarrow>
     (if ar_status r = Act_rollback_failed
      then (\<exists>v. situation svc w0 ms v w \<and> fv_texts v = texts \<and>
              (fv_marker v = Some previous \<or> fv_marker v = Some (aq_revision q)) \<and>
              (fv_pending v = Absent \<or> (\<exists>ph. fv_pending v = own_record q previous ph)) \<and>
              (fv_loads v = ls \<or> (\<exists>l b. fv_loads v = ls @ [l] \<and> guarded_load svc q previous texts previous b l)))
      else \<not> activation_ok r \<and> ar_rollback_performed r \<and>
           (\<exists>l. guarded_load svc q previous texts previous True l \<and>
              situation svc w0 ms (settled_view texts previous Absent (ls @ [l])) w))"

lemma situation_sub: "situation svc w0 ms v w \<Longrightarrow> subseq ms' ms \<Longrightarrow> situation svc w0 ms' v w"
  by (auto simp: situation_def intro: subseq_order.order_trans)

lemma activation_ok_conclude [simp]:
  "activation_ok (conclude status i m r) \<longleftrightarrow>
     status = Act_committed \<or> status = Act_committed_with_warning \<or> status = Act_committed_cleanup_pending"
  by (simp add: activation_ok_def conclude_def)

lemma conclude_sel [simp]:
  "ar_status (conclude status i m r) = status"
  "ar_message (conclude status i m r) = m"
  "ar_event_id (conclude status i m r) = i"
  "ar_rollback_performed (conclude status i m r) = ar_rollback_performed r"
  by (simp_all add: conclude_def)

lemma settled_view_sel [simp]:
  "fv_texts (settled_view texts mark s ls) = texts"
  "fv_marker (settled_view texts mark s ls) = Some mark"
  "fv_pending (settled_view texts mark s ls) = s"
  "fv_loads (settled_view texts mark s ls) = ls"
  by (simp_all add: settled_view_def)

text \<open>Appending events keeps the fields of the result other than the audit ones.\<close>

definition same_outcome :: "activation_result \<Rightarrow> activation_result \<Rightarrow> bool" where
  "same_outcome r r' \<longleftrightarrow>
     ar_status r' = ar_status r \<and> ar_rollback_performed r' = ar_rollback_performed r"

lemma wp_act_audit_outcome:
  assumes "separate svc" "situation svc w0 ms v w"
    and "\<And>ok r' w'. same_outcome r r' \<Longrightarrow> situation svc w0 ms v w' \<Longrightarrow> Q (ok, r') w'"
  shows "wp (act_audit svc build r) Q w"
  unfolding act_audit_def act_append_def
  using assms(1,2)
  by (auto intro!: wp_journal_append_audited assms(3) intro: situation_audited simp: same_outcome_def)

lemma wp_act_log_outcome:
  assumes "separate svc" "situation svc w0 ms v w"
    and "\<And>ok r' w'. same_outcome r r' \<Longrightarrow> situation svc w0 ms v w' \<Longrightarrow> Q (ok, r') w'"
  shows "wp (act_log svc q sev eid act outcome m num extra r) Q w"
  unfolding act_log_def by (rule wp_act_audit_outcome) (rule assms; assumption)+

definition failing :: "activation_status \<Rightarrow> bool" where
  "failing status \<longleftrightarrow> status \<notin> {Act_committed, Act_committed_with_warning,
     Act_committed_cleanup_pending, Act_rollback_failed}"

lemma failing_simps [simp]:
  "failing Act_transaction_store_failed" "failing Act_commit_failed_rolled_back"
  "failing Act_confirmation_failed_rolled_back" "failing Act_verification_failed_rolled_back"
  "failing Act_activation_failed" "failing Act_audit_failed_rolled_back"
  by (simp_all add: failing_def)

lemma undone_restored:
  "failing status \<Longrightarrow> ar_rollback_performed r \<Longrightarrow> guarded_load svc q previous texts previous True l \<Longrightarrow>
     situation svc w0 ms (settled_view texts previous Absent (ls @ [l])) w \<Longrightarrow>
     undone svc w0 q previous ms texts ls (conclude status i m r) w"
  by (auto simp: undone_def failing_def)

lemma undone_failed:
  "ar_status r = Act_rollback_failed \<Longrightarrow> situation svc w0 ms v w \<Longrightarrow> fv_texts v = texts \<Longrightarrow>
     fv_marker v = Some previous \<or> fv_marker v = Some (aq_revision q) \<Longrightarrow>
     fv_pending v = Absent \<or> (\<exists>ph. fv_pending v = own_record q previous ph) \<Longrightarrow>
     fv_loads v = ls \<or> (\<exists>l b. fv_loads v = ls @ [l] \<and> guarded_load svc q previous texts previous b l) \<Longrightarrow>
     undone svc w0 q previous ms texts ls r w"
  by (simp only: undone_def simp_thms if_True) blast

lemma wp_rollback_incomplete:
  assumes "separate svc" "situation svc w0 ms (flight q previous texts mark ph ls') w"
    and "mark = previous \<or> mark = aq_revision q"
    and "ls' = ls \<or> (\<exists>l b. ls' = ls @ [l] \<and> guarded_load svc q previous texts previous b l)"
  shows "wp (rollback_incomplete svc q previous r) (undone svc w0 q previous ms texts ls) w"
  unfolding rollback_incomplete_def Let_def
  by (simp only: wp_simp, rule wp_act_log_outcome [OF assms(1,2)])
    (use assms(3,4) in \<open>auto simp: same_outcome_def intro!: undone_failed\<close>)

lemma wp_finish_rollback:
  assumes "separate svc" "failing status" "ar_rollback_performed r"
    and "situation svc w0 ms (flight q previous texts previous ph (ls @ [l])) w"
    and l: "guarded_load svc q previous texts previous True l"
  shows "wp (finish_rollback svc q previous status i m c r) (undone svc w0 q previous ms texts ls) w"
  unfolding finish_rollback_def Let_def
proof (simp only: wp_simp, rule wp_clear_flight [OF assms(1,4)], goal_cases)
  case (1 x w1)
  show ?case
    by (simp only: wp_simp 1(1), rule wp_act_audit_outcome [OF assms(1) 1(2)])
      (use assms(2,3) l in \<open>auto simp: wp_simp same_outcome_def
          intro!: wp_act_log_outcome [OF assms(1)] undone_restored\<close>)
next
  case (2 x s w1)
  then show ?case
    by (simp only: wp_simp, intro wp_act_audit_outcome [OF assms(1) 2(3)])
      (use l in \<open>auto simp: wp_simp intro!: undone_failed\<close>)
qed

lemma wp_rollback_to_previous:
  assumes "separate svc" "failing status"
    and "situation svc w0 ms (flight q previous texts mark ph ls) w"
    and mark: "mark = previous \<or> mark = aq_revision q"
  shows "wp (rollback_to_previous svc q previous status i m c r) (undone svc w0 q previous ms texts ls) w"
  unfolding rollback_to_previous_def Let_def
proof (simp only: prod.case wp_simp, rule wp_act_log_outcome [OF assms(1,3)], simp only: prod.case wp_simp,
    rule wp_check, assumption, goal_cases)
  case (1 ok r1 w1 x w2)
  then show ?case
    by (simp only: prod.case wp_simp, intro wp_act_audit_outcome [OF assms(1) 1(4)])
      (use mark in \<open>auto simp: intro!: wp_rollback_incomplete [OF assms(1)]\<close>)
next
  case (2 ok r1 w1 x a w2)
  show ?case
  proof (simp only: prod.case wp_simp, rule wp_act_audit_outcome [OF assms(1) 2(4)], simp only: prod.case 2(3) simp_thms if_False wp_simp,
      rule wp_load, assumption, goal_cases)
    case (1 ok r2 w3 x w4)
    then show ?case
      by (simp only: prod.case wp_simp, intro wp_act_audit_outcome [OF assms(1) 1(4)])
        (use mark in \<open>auto intro!: wp_rollback_incomplete [OF assms(1)]\<close>)
  next
    case (2 ok r2 w3 x w4)
    then show ?case
      by (simp only: wp_simp flight_sel flight_upd, intro wp_act_audit_outcome [OF assms(1) 2(4) [simplified]])
        (use mark in \<open>auto intro!: wp_rollback_incomplete [OF assms(1)] exI guarded_load_of\<close>)
  next
    case (3 ok r2 w3 x a w4)
    let ?l = "load_of svc previous (flight q previous texts mark ph ls) True"
    have sit: "situation svc w0 ms (flight q previous texts mark ph (ls @ [?l])) w4"
      using 3(5) by (auto intro: situation_sub)
    show ?case
    proof (simp only: prod.case wp_simp 3(3), rule wp_act_audit_outcome [OF assms(1) sit],
        simp only: prod.case simp_thms if_False wp_simp, rule wp_mark [OF assms(1)], assumption, goal_cases)
      case (1 ok r3 w5 x w6)
      from 1(5) have sit: "situation svc w0 ms (flight q previous texts previous ph (ls @ [?l])) w6" by simp
      show ?case
        by (simp only: wp_simp 1(3), rule wp_act_log_outcome [OF assms(1) sit])
          (use 1(1) assms(2) in \<open>auto simp: same_outcome_def intro!: wp_finish_rollback [OF assms(1)]\<close>)
    next
      case (2 ok r3 w5 x m w6)
      then have sit: "\<exists>mk. situation svc w0 ms (flight q previous texts mk ph (ls @ [?l])) w6 \<and>
          (mk = previous \<or> mk = aq_revision q)"
        using mark by auto
      then obtain mk where sit: "situation svc w0 ms (flight q previous texts mk ph (ls @ [?l])) w6"
        "mk = previous \<or> mk = aq_revision q" by blast
      show ?case
        by (simp only: prod.case wp_simp, rule wp_act_log_outcome [OF assms(1) sit(1)])
          (use 2(3) sit(2) in \<open>auto intro!: wp_rollback_incomplete [OF assms(1)] exI guarded_load_of\<close>)
    qed
  qed
qed

section \<open>Committing\<close>

definition committed_run ::
  "activation_service \<Rightarrow> world \<Rightarrow> activation_request \<Rightarrow> u64 \<Rightarrow> visible_action list \<Rightarrow>
     (u64 \<Rightarrow> string option) \<Rightarrow> load_record list \<Rightarrow> activation_result \<Rightarrow> world \<Rightarrow> bool" where
  "committed_run svc w0 q previous ms texts ls r w \<longleftrightarrow>
     activation_ok r \<and>
     (\<exists>s. situation svc w0 ms (settled_view texts (aq_revision q) s ls) w \<and>
        (s = Absent \<or> ar_status r = Act_committed_cleanup_pending \<and> s = own_record q previous Committed))"

text \<open>
  The end of a run whose target has been loaded: undone after the milestones \<open>base\<close>, or
  committed after all of \<open>full\<close>.
\<close>

definition settled ::
  "activation_service \<Rightarrow> world \<Rightarrow> activation_request \<Rightarrow> u64 \<Rightarrow> visible_action list \<Rightarrow>
     visible_action list \<Rightarrow> (u64 \<Rightarrow> string option) \<Rightarrow> load_record list \<Rightarrow> activation_result \<Rightarrow> world \<Rightarrow> bool" where
  "settled svc w0 q previous base full texts ls r w \<longleftrightarrow>
     undone svc w0 q previous base texts ls r w \<or>
     committed_run svc w0 q previous full texts ls r w"

lemma undone_sub:
  "undone svc w0 q previous ms texts ls r w \<Longrightarrow> subseq ms' ms \<Longrightarrow>
     undone svc w0 q previous ms' texts ls r w"
  by (auto simp: undone_def intro: situation_sub split: if_splits)

lemma wp_rolled_back:
  assumes "separate svc" "failing status" "subseq base ms"
    and "situation svc w0 ms (flight q previous texts mark ph ls) w"
    and "mark = previous \<or> mark = aq_revision q"
  shows "wp (rollback_to_previous svc q previous status i m c r)
    (settled svc w0 q previous base full texts ls) w"
  by (rule wp_mono [OF wp_rollback_to_previous [OF assms(1,2,4,5)]])
    (auto simp: settled_def intro: undone_sub assms(3))

lemma wp_finish_commit:
  assumes "separate svc" "situation svc w0 full (flight q previous texts (aq_revision q) Committed ls) w"
  shows "wp (finish_commit svc q ok r) (committed_run svc w0 q previous full texts ls) w"
  unfolding finish_commit_def Let_def
  by (simp only: prod.case wp_simp, rule wp_act_log [OF assms],
      simp only: prod.case wp_simp, rule wp_clear_flight [OF assms(1)], assumption)
    (auto simp: committed_run_def)

lemma wp_commit_transaction:
  assumes "separate svc" "subseq base full"
    and "situation svc w0 full (flight q previous texts (aq_revision q) ph ls) w"
  shows "wp (commit_transaction svc q previous r) (settled svc w0 q previous base full texts ls) w"
  unfolding commit_transaction_def
proof (simp only: prod.case wp_simp, rule wp_advance_flight [OF assms(1,3)], goal_cases)
  case (1 x w1)
  show ?case
    by (simp only: prod.case wp_simp 1(1), rule wp_act_audit [OF assms(1) 1(3)])
      (auto simp: settled_def intro!: wp_mono [OF wp_finish_commit [OF assms(1)]])
next
  case (2 x ph' w1)
  then show ?case
    by (simp only: prod.case wp_simp, intro wp_act_audit [OF assms(1) 2(2)])
      (auto intro!: wp_rolled_back [OF assms(1) _ assms(2)])
qed

lemma wp_commit_marker:
  assumes "separate svc" "subseq base full"
    and "situation svc w0 full (flight q previous texts previous ph ls) w"
  shows "wp (commit_marker svc q previous r) (settled svc w0 q previous base full texts ls) w"
  unfolding commit_marker_def
proof (simp only: prod.case wp_simp, rule wp_act_log [OF assms(1,3)], goal_cases)
  case (1 ok r1 w1)
  show ?case
  proof (cases ok)
    case False
    then show ?thesis
      using 1 by (auto intro!: wp_rolled_back [OF assms(1) _ assms(2)])
  next
    case True
    show ?thesis
    proof (simp only: prod.case wp_simp True simp_thms if_False, rule wp_mark [OF assms(1) 1], goal_cases)
      case (1 x w2)
      then have sit: "situation svc w0 full (flight q previous texts (aq_revision q) ph ls) w2" by simp
      show ?case
        by (simp only: prod.case wp_simp, rule wp_act_log [OF assms(1) sit])
          (auto intro!: wp_rolled_back [OF assms(1) _ assms(2)] wp_commit_transaction [OF assms(1,2)])
    next
      case (2 x m w2)
      then obtain mk where sit: "situation svc w0 full (flight q previous texts mk ph ls) w2"
        "mk = previous \<or> mk = aq_revision q" by auto
      from 2(1) sit(2) show ?case
        by (simp only: prod.case wp_simp, intro wp_act_log [OF assms(1) sit(1)])
          (auto intro!: wp_rolled_back [OF assms(1) _ assms(2)])
    qed
  qed
qed

lemma wp_advance_or_roll_back:
  assumes "separate svc" "subseq base ms"
    and "situation svc w0 ms (flight q previous texts previous ph ls) w"
    and "\<And>r w'. situation svc w0 ms (flight q previous texts previous p ls) w' \<Longrightarrow>
      wp (k r) (settled svc w0 q previous base full texts ls) w'"
  shows "wp (advance_or_roll_back svc q previous p r k) (settled svc w0 q previous base full texts ls) w"
  unfolding advance_or_roll_back_def
proof (simp only: prod.case wp_simp, rule wp_advance_flight [OF assms(1,3)], goal_cases)
  case (1 x w1)
  show ?case
    by (simp only: prod.case wp_simp 1(1), rule wp_act_audit [OF assms(1) 1(3)])
      (auto intro!: wp_rolled_back [OF assms(1) _ assms(2)] assms(4))
next
  case (2 x ph' w1)
  then show ?case
    by (simp only: prod.case wp_simp, intro wp_act_audit [OF assms(1) 2(2)])
      (auto intro!: wp_rolled_back [OF assms(1) _ assms(2)])
qed

section \<open>Confirming and verifying\<close>

lemma situation_log:
  assumes "situation svc w0 ms v w" "runs_with ''-f'' [a] = []"
  shows "situation svc w0 (ms @ [a]) v (w\<lparr>actions := actions w @ [a]\<rparr>)"
  using assms
  by (intro situation_milestone [OF assms(1)])
    (auto simp: situation_def firewall_view_def same_setting_def revision_text_def marker_def stored_def)

lemma situation_logged:
  "situation svc w0 ms v w \<Longrightarrow> runs_with ''-f'' [a] = [] \<Longrightarrow>
     situation svc w0 ms v (w\<lparr>actions := actions w @ [a]\<rparr>)"
  by (drule (1) situation_log) (auto intro: situation_sub)

definition confirmation_milestone :: "activation_request \<Rightarrow> visible_action" where
  "confirmation_milestone q =
     Confirmation_awaited (aq_operation_id q) (aq_revision q) (aq_confirmation_timeout q) True"

definition probe_milestones :: "activation_request \<Rightarrow> health_probe list \<Rightarrow> visible_action list" where
  "probe_milestones q ps = map (\<lambda>p. Probe_run (probe_id p) (aq_probe_timeout q) True) ps"

text \<open>A consultation whose action \<open>act b\<close> carries the verdict \<open>b\<close>.\<close>

lemma wp_consultation:
  assumes "situation svc w0 ms v w" "\<And>b. runs_with ''-f'' [act b] = []"
    and "\<exists>x. run_state m w = (x, w\<lparr>actions := actions w @ [act (good x)]\<rparr>)"
    and "\<And>x w'. \<not> good x \<Longrightarrow> situation svc w0 ms v w' \<Longrightarrow> Q x w'"
    and "\<And>x w'. good x \<Longrightarrow> situation svc w0 (ms @ [act True]) v w' \<Longrightarrow> Q x w'"
  shows "wp m Q w"
proof -
  from assms(3) obtain x where run: "run_state m w = (x, w\<lparr>actions := actions w @ [act (good x)]\<rparr>)" ..
  show ?thesis
  proof (cases "good x")
    case True
    then show ?thesis
      using situation_log [OF assms(1,2), of True] by (auto simp: wp_def run intro: assms(5))
  next
    case False
    then show ?thesis
      using situation_logged [OF assms(1,2), of False] by (auto simp: wp_def run intro: assms(4))
  qed
qed

lemma wp_consult_gate:
  assumes "situation svc w0 ms v w"
    and "\<And>x w'. \<not> conf_ok x \<Longrightarrow> situation svc w0 ms v w' \<Longrightarrow> Q x w'"
    and "\<And>x w'. conf_ok x \<Longrightarrow> situation svc w0 (ms @ [confirmation_milestone q]) v w' \<Longrightarrow> Q x w'"
  shows "wp (consult_gate svc q) Q w"
  by (rule wp_consultation [where good = conf_ok and
        act = "Confirmation_awaited (aq_operation_id q) (aq_revision q) (aq_confirmation_timeout q)"])
    (auto simp: assms(1) consult_gate_def Let_def confirmation_milestone_def intro: assms(2,3))

lemma wp_run_probe:
  assumes "situation svc w0 ms v w"
    and "\<And>x w'. \<not> probe_ok x \<Longrightarrow> situation svc w0 ms v w' \<Longrightarrow> Q x w'"
    and "\<And>x w'. probe_ok x \<Longrightarrow> situation svc w0 (ms @ probe_milestones q [p]) v w' \<Longrightarrow> Q x w'"
  shows "wp (run_probe svc q p) Q w"
  by (rule wp_consultation [where good = probe_ok and
        act = "Probe_run (probe_id p) (aq_probe_timeout q)"])
    (auto simp: assms(1) run_probe_def Let_def probe_milestones_def intro: assms(2,3))

lemma wp_confirm_stage:
  assumes "separate svc" "subseq base ms" "full = ms @ [confirmation_milestone q]"
    and "situation svc w0 ms (flight q previous texts previous ph ls) w"
  shows "wp (confirm_stage svc q previous r) (settled svc w0 q previous base full texts ls) w"
  unfolding confirm_stage_def
proof (simp only: prod.case wp_simp, rule wp_act_log [OF assms(1,4)], goal_cases)
  case (1 ok r1 w1)
  have sub: "subseq base full" using assms(2,3) by (simp add: subseq_rev_drop_many)
  show ?case
  proof (cases ok)
    case False
    then show ?thesis
      using 1 by (auto intro!: wp_rolled_back [OF assms(1) _ assms(2)])
  next
    case True
    show ?thesis
    proof (simp only: prod.case wp_simp True simp_thms if_False, rule wp_consult_gate [OF 1, of _ q], goal_cases)
      case (1 x w2)
      then show ?case
        by (simp only: prod.case wp_simp, intro wp_act_log [OF assms(1) 1(2)])
          (auto intro!: wp_rolled_back [OF assms(1) _ assms(2)])
    next
      case (2 x w2)
      then have sit: "situation svc w0 full (flight q previous texts previous ph ls) w2"
        by (simp add: assms(3))
      show ?case
        by (simp only: prod.case wp_simp, rule wp_act_log [OF assms(1) sit])
          (auto intro!: wp_rolled_back [OF assms(1) _ sub] wp_advance_or_roll_back [OF assms(1) sub]
            wp_commit_marker [OF assms(1) sub])
    qed
  qed
qed

lemma wp_probe_stage:
  assumes "separate svc"
    and "subseq base ms"
    and "situation svc w0 ms (flight q previous texts previous ph ls) w"
    and "\<And>r w'. situation svc w0 (ms @ probe_milestones q ps) (flight q previous texts previous ph ls) w' \<Longrightarrow>
      wp (k r) (settled svc w0 q previous base full texts ls) w'"
  shows "wp (probe_stage svc q previous ps k r) (settled svc w0 q previous base full texts ls) w"
  using assms(2-)
proof (induction ps arbitrary: ms r w)
  case Nil
  then show ?case by (simp add: probe_milestones_def)
next
  case (Cons p ps)
  show ?case
  proof (simp only: probe_stage.simps prod.case wp_simp, rule wp_act_log [OF assms(1) Cons.prems(2)], goal_cases)
    case (1 ok r1 w1)
    show ?case
    proof (cases ok)
      case False
      then show ?thesis
        using 1 by (auto intro!: wp_rolled_back [OF assms(1) _ Cons.prems(1)])
    next
      case True
      show ?thesis
      proof (simp only: prod.case wp_simp True simp_thms if_False, rule wp_run_probe [OF 1, of _ q p], goal_cases)
        case (1 x w2)
        then show ?case
          by (simp only: prod.case wp_simp, intro wp_act_log [OF assms(1) 1(2)])
            (auto intro!: wp_rolled_back [OF assms(1) _ Cons.prems(1)])
      next
        case (2 x w2)
        have sub: "subseq base (ms @ probe_milestones q [p])"
          using Cons.prems(1) by (simp add: subseq_rev_drop_many)
        have go: "wp (probe_stage svc q previous ps k r2) (settled svc w0 q previous base full texts ls) w3"
          if "situation svc w0 (ms @ probe_milestones q [p]) (flight q previous texts previous ph ls) w3" for r2 w3
          using sub that
          by (rule Cons.IH) (rule Cons.prems(3), simp add: probe_milestones_def)
        show ?case
          by (simp only: prod.case wp_simp, rule wp_act_log [OF assms(1) 2(2)])
            (auto intro!: wp_rolled_back [OF assms(1) _ sub] go)
      qed
    qed
  qed
qed

lemma wp_verify_stage:
  assumes "separate svc" "subseq base ms"
    and "full = ms @ probe_milestones q (as_probes svc) @ [confirmation_milestone q]"
    and "situation svc w0 ms (flight q previous texts previous ph ls) w"
  shows "wp (verify_stage svc q previous r) (settled svc w0 q previous base full texts ls) w"
  unfolding verify_stage_def
proof (simp only: prod.case wp_simp, rule wp_advance_flight [OF assms(1,4)], goal_cases)
  case (1 x w1)
  have sub: "subseq base (ms @ probe_milestones q (as_probes svc))"
    using assms(2) by (simp add: subseq_rev_drop_many)
  show ?case
    by (simp only: prod.case wp_simp 1(1), rule wp_act_audit [OF assms(1) 1(3)])
      (auto intro!: wp_rolled_back [OF assms(1) _ assms(2)] wp_probe_stage [OF assms(1,2)]
        wp_advance_or_roll_back [OF assms(1) sub] wp_confirm_stage [OF assms(1) sub] simp: assms(3))
next
  case (2 x ph' w1)
  then show ?case
    by (simp only: prod.case wp_simp, intro wp_act_audit [OF assms(1) 2(2)])
      (auto intro!: wp_rolled_back [OF assms(1) _ assms(2)])
qed

section \<open>The whole workflow\<close>

text \<open>A run that ends before any load: at most its own pending record is left, and then the
  status says so.\<close>

abbreviation unsettled_statuses :: "activation_status set" where
  "unsettled_statuses \<equiv> {Act_transaction_conflict, Act_transaction_store_failed, Act_audit_failed}"

definition untouched ::
  "activation_service \<Rightarrow> world \<Rightarrow> activation_request \<Rightarrow> firewall_view \<Rightarrow> activation_result \<Rightarrow> world \<Rightarrow> bool" where
  "untouched svc w0 q v r w \<longleftrightarrow>
     \<not> activation_ok r \<and> ar_status r \<noteq> Act_rollback_failed \<and>
     (\<exists>s. situation svc w0 [] (v\<lparr>fv_pending := s\<rparr>) w \<and>
        (s = fv_pending v \<or>
         fv_pending v = Absent \<and> ar_status r \<in> unsettled_statuses \<and>
           (\<exists>previous. s = own_record q previous Prepared_for_load)))"

definition authorization_milestone :: "activation_request \<Rightarrow> visible_action" where
  "authorization_milestone q =
     Authorization_requested (aq_operation_id q) (aq_revision q) (aq_authorization_reference q) True"

text \<open>A run that reached \<open>pfctl -f\<close>, from the view \<open>v\<close>.\<close>

definition attempted ::
  "activation_service \<Rightarrow> world \<Rightarrow> activation_request \<Rightarrow> firewall_view \<Rightarrow> u64 \<Rightarrow> visible_action \<Rightarrow>
     activation_result \<Rightarrow> world \<Rightarrow> bool" where
  "attempted svc w0 q v previous chk r w \<longleftrightarrow>
     (let base = [authorization_milestone q, chk];
          full = (\<lambda>ld. base @ [ld] @ probe_milestones q (as_probes svc) @ [confirmation_milestone q]);
          target = guarded_load svc q previous (fv_texts v) (aq_revision q)
      in undone svc w0 q previous base (fv_texts v) (fv_loads v) r w \<or>
         (\<exists>l b. target b l \<and> undone svc w0 q previous base (fv_texts v) (fv_loads v @ [l]) r w) \<or>
         (\<exists>l ld. target True l \<and> loaded svc (effective_uid w0) (fv_texts v) (aq_revision q) ld \<and>
            committed_run svc w0 q previous (full ld) (fv_texts v) (fv_loads v @ [l]) r w))"

definition activation_outcome ::
  "activation_service \<Rightarrow> world \<Rightarrow> activation_request \<Rightarrow> firewall_view \<Rightarrow> activation_result \<Rightarrow> world \<Rightarrow> bool" where
  "activation_outcome svc w0 q v r w \<longleftrightarrow>
     untouched svc w0 q v r w \<or>
     fv_pending v = Absent \<and>
     (\<exists>previous chk. fv_marker v = Some previous \<and> previous \<noteq> aq_revision q \<and>
        fv_texts v previous \<noteq> None \<and> fv_texts v (aq_revision q) \<noteq> None \<and>
        checked svc (effective_uid w0) (fv_texts v) (aq_revision q) chk \<and>
        attempted svc w0 q v previous chk r w)"

lemma attempted_undone_early:
  "undone svc w0 q previous ms (fv_texts v) (fv_loads v) r w \<Longrightarrow>
     ms = [authorization_milestone q, chk] \<Longrightarrow> attempted svc w0 q v previous chk r w"
  by (simp add: attempted_def Let_def)

lemma attempted_settled:
  assumes "settled svc w0 q previous [authorization_milestone q, chk]
      ([authorization_milestone q, chk, ld] @ probe_milestones q (as_probes svc) @ [confirmation_milestone q])
      (fv_texts v) (fv_loads v @ [l]) r w"
    and "guarded_load svc q previous (fv_texts v) (aq_revision q) True l"
    and "loaded svc (effective_uid w0) (fv_texts v) (aq_revision q) ld"
  shows "attempted svc w0 q v previous chk r w"
  using assms unfolding attempted_def settled_def Let_def by auto

lemma audit_failure_sel [simp]:
  "ar_status (audit_failure r) = Act_audit_failed"
  "\<not> activation_ok (audit_failure r)"
  by (simp_all add: audit_failure_def)

lemma untouched_failing:
  "failing (ar_status r) \<Longrightarrow> situation svc w0 ms (v\<lparr>fv_pending := s\<rparr>) w \<Longrightarrow>
     s = fv_pending v \<or> fv_pending v = Absent \<and> ar_status r \<in> unsettled_statuses \<and>
       (\<exists>previous. s = own_record q previous Prepared_for_load) \<Longrightarrow>
     untouched svc w0 q v r w"
  unfolding untouched_def failing_def activation_ok_def by (auto intro: situation_sub)

lemma untouched_same:
  "failing (ar_status r) \<Longrightarrow> situation svc w0 ms v w \<Longrightarrow> untouched svc w0 q v r w"
  by (rule untouched_failing [where s = "fv_pending v"]) simp_all

lemma failing_early [simp]:
  "failing Act_invalid_request" "failing Act_authorization_denied" "failing Act_authorization_error"
  "failing Act_last_known_good_unavailable" "failing Act_target_unavailable"
  "failing Act_native_revalidation_failed" "failing Act_transaction_conflict" "failing Act_audit_failed"
  by (simp_all add: failing_def)

lemma wp_withdraw:
  assumes "separate svc" "fv_pending v = Absent" "fv_marker v = Some previous"
    and "situation svc w0 ms (flight q previous (fv_texts v) previous Prepared_for_load (fv_loads v)) w"
  shows "wp (withdraw_transaction svc q r) (untouched svc w0 q v) w"
  unfolding withdraw_transaction_def Let_def
proof (simp only: wp_simp, rule wp_clear_flight [OF assms(1,4)], goal_cases)
  case (1 x w1)
  have "settled_view (fv_texts v) previous Absent (fv_loads v) = v"
    using assms(2,3) by (simp add: settled_view_def)
  with 1 show ?case by (auto intro: untouched_same [where ms = ms])
next
  case (2 x s w1)
  have "settled_view (fv_texts v) previous s (fv_loads v) = v\<lparr>fv_pending := s\<rparr>"
    using assms(3) by (simp add: settled_view_def)
  with 2 assms(2) show ?case by (auto intro!: untouched_failing [where s = s and ms = ms])
qed

lemma wp_load_stage:
  assumes "separate svc" "fv_pending v = Absent" "fv_marker v = Some previous"
    and "situation svc w0 [authorization_milestone q, chk]
      (flight q previous (fv_texts v) previous Prepared_for_load (fv_loads v)) w"
  shows "wp (load_stage svc q previous decision r)
    (\<lambda>r w. untouched svc w0 q v r w \<or> attempted svc w0 q v previous chk r w) w"
  unfolding load_stage_def Let_def
proof (simp only: prod.case wp_simp, rule wp_act_log [OF assms(1,4)], goal_cases)
  case (1 ok r1 w1)
  show ?case
  proof (cases ok)
    case False
    show ?thesis
      by (simp only: prod.case False simp_thms if_True, rule wp_mono [OF wp_withdraw [OF assms(1,2,3) 1]]) simp
  next
    case True
    show ?thesis
    proof (simp only: prod.case wp_simp True simp_thms if_False, rule wp_load [OF 1], goal_cases)
      case (1 x w2)
      then show ?case
        by (simp only: prod.case wp_simp, intro wp_act_audit [OF assms(1) 1(2)])
          (auto intro!: wp_mono [OF wp_rollback_to_previous [OF assms(1)]] attempted_undone_early)
    next
      case (2 x w2)
      let ?l = "load_of svc (aq_revision q) (flight q previous (fv_texts v) previous Prepared_for_load (fv_loads v)) False"
      have "situation svc w0 [authorization_milestone q, chk]
          (flight q previous (fv_texts v) previous Prepared_for_load (fv_loads v @ [?l])) w2"
        using 2(2) by simp
      note rolled = wp_rollback_to_previous [OF assms(1)]
      have undone: "attempted svc w0 q v previous chk r w"
        if "undone svc w0 q previous [authorization_milestone q, chk] (fv_texts v) (fv_loads v @ [?l]) r w" for r w
        using that unfolding attempted_def Let_def by (blast intro: guarded_load_of)
      show ?case
        using 2(1) by (simp only: prod.case wp_simp, intro wp_act_audit [OF assms(1) 2(2)])
          (auto intro!: wp_mono [OF rolled] undone)
    next
      case (3 x a w2)
      let ?l = "load_of svc (aq_revision q) (flight q previous (fv_texts v) previous Prepared_for_load (fv_loads v)) True"
      have sit: "situation svc w0 [authorization_milestone q, chk, a]
          (flight q previous (fv_texts v) previous Prepared_for_load (fv_loads v @ [?l])) w2"
        using 3(3) by simp
      have undone: "attempted svc w0 q v previous chk r w"
        if "undone svc w0 q previous [authorization_milestone q, chk, a] (fv_texts v) (fv_loads v @ [?l]) r w" for r w
        using undone_sub [OF that, of "[authorization_milestone q, chk]"]
        unfolding attempted_def Let_def by (auto intro: guarded_load_of)
      have verified: "wp (verify_stage svc q previous r2)
          (\<lambda>r w. untouched svc w0 q v r w \<or> attempted svc w0 q v previous chk r w) w3"
        if "situation svc w0 [authorization_milestone q, chk, a]
          (flight q previous (fv_texts v) previous Prepared_for_load (fv_loads v @ [?l])) w3" for r2 w3
        by (rule wp_mono [OF wp_verify_stage [OF assms(1) _ _ that, where base = "[authorization_milestone q, chk]"]])
          (use 3(2) in \<open>auto intro: attempted_settled\<close>)
      show ?case
        using 3(1) by (simp only: prod.case wp_simp, intro wp_act_audit [OF assms(1) sit])
          (auto intro!: wp_mono [OF wp_rollback_to_previous [OF assms(1)]] undone verified)
    qed
  qed
qed

lemma wp_begin_stage:
  assumes "separate svc" "fv_marker v = Some previous"
    and "situation svc w0 [authorization_milestone q, chk] v w"
  shows "wp (begin_stage svc q previous decision r)
    (\<lambda>r w. untouched svc w0 q v r w \<or> fv_pending v = Absent \<and> attempted svc w0 q v previous chk r w) w"
  unfolding begin_stage_def
proof (simp only: prod.case wp_simp, rule wp_act_log [OF assms(1,3)], goal_cases)
  case (1 ok r1 w1)
  show ?case
  proof (cases ok)
    case False
    then show ?thesis using 1 by (auto intro: untouched_same)
  next
    case True
    show ?thesis
    proof (simp only: prod.case wp_simp True simp_thms if_False,
        rule wp_begin_flight [OF assms(1) 1 assms(2), of _ q], goal_cases)
      case 1
      then show ?case by (simp add: own_record_def)
    next
      case (2 x w2)
      show ?case
        using 2(1) by (simp only: prod.case wp_simp, intro wp_act_audit [OF assms(1) 2(3)])
          (auto intro!: wp_mono [OF wp_withdraw [OF assms(1) 2(2) assms(2)]]
            wp_mono [OF wp_load_stage [OF assms(1) 2(2) assms(2)]] simp: 2(2))
    next
      case (3 x s w2)
      have end_here: "untouched svc w0 q v r w"
        if "ar_status r \<in> unsettled_statuses" "situation svc w0 [authorization_milestone q, chk] (v\<lparr>fv_pending := s\<rparr>) w" for r w
        using that 3(2) by (auto intro: untouched_failing)
      show ?case
        using 3(1) by (simp only: prod.case wp_simp, intro wp_act_audit [OF assms(1) 3(3)])
          (auto intro!: end_here)
    qed
  qed
qed

lemma wp_revalidate_stage:
  assumes "separate svc" "fv_marker v = Some previous" "previous \<noteq> aq_revision q"
    and "fv_texts v previous \<noteq> None" "fv_texts v (aq_revision q) \<noteq> None"
    and "situation svc w0 [authorization_milestone q] v w"
  shows "wp (revalidate_stage svc q previous decision r) (activation_outcome svc w0 q v) w"
  unfolding revalidate_stage_def
proof (simp only: prod.case wp_simp, rule wp_act_log [OF assms(1,6)], goal_cases)
  case (1 ok r1 w1)
  show ?case
  proof (cases ok)
    case False
    then show ?thesis using 1 by (auto simp: activation_outcome_def intro: untouched_same)
  next
    case True
    show ?thesis
    proof (simp only: prod.case wp_simp True simp_thms if_False, rule wp_check [OF 1, of _ "aq_revision q"], goal_cases)
      case (1 x w2)
      then show ?case
        by (simp only: prod.case wp_simp, intro wp_act_audit [OF assms(1) 1(2)])
          (auto simp: activation_outcome_def intro: untouched_same)
    next
      case (2 x a w2)
      from 2(4) have sit: "situation svc w0 [authorization_milestone q, a] v w2" by simp
      show ?case
        using 2(1,3) assms(2-5) by (simp only: prod.case wp_simp, intro wp_act_audit [OF assms(1) sit])
          (auto simp: activation_outcome_def intro: untouched_same intro!: wp_mono [OF wp_begin_stage [OF assms(1,2)]])
    qed
  qed
qed

lemma wp_refuse:
  assumes "separate svc" "situation svc w0 ms v w" "failing status"
  shows "wp (refuse svc q i act outc em extra status m r) (activation_outcome svc w0 q v) w"
  unfolding refuse_def
  by (simp only: prod.case wp_simp, rule wp_act_log [OF assms(1,2)])
    (auto simp: activation_outcome_def assms(3) intro: untouched_same)

lemma wp_resolve_stage:
  assumes "separate svc" "situation svc w0 [authorization_milestone q] v w"
  shows "wp (resolve_stage svc q decision r) (activation_outcome svc w0 q v) w"
  unfolding resolve_stage_def Let_def
proof (simp only: prod.case wp_simp, rule wp_recall [OF assms(2)], goal_cases)
  case (1 x w1)
  then show ?case by (simp add: wp_refuse [OF assms(1)])
next
  case (2 x previous w1)
  show ?case
  proof (cases "previous = aq_revision q")
    case True
    with 2 show ?thesis by (simp add: wp_refuse [OF assms(1)])
  next
    case False
    show ?thesis
      by (simp only: 2(1,2) if_True option.case False if_False wp_simp, rule wp_read_revision [OF 2(5)])
        (use False 2(3,4) in \<open>auto intro!: wp_refuse [OF assms(1)] wp_revalidate_stage [OF assms(1)]\<close>)
  qed
qed

lemma wp_consult_authorizer:
  assumes "situation svc w0 ms v w"
    and "\<And>x w'. \<not> auth_ok x \<Longrightarrow> situation svc w0 ms v w' \<Longrightarrow> Q x w'"
    and "\<And>x w'. auth_ok x \<Longrightarrow> situation svc w0 (ms @ [authorization_milestone q]) v w' \<Longrightarrow> Q x w'"
  shows "wp (consult_authorizer svc q) Q w"
  by (rule wp_consultation [where good = auth_ok and
        act = "Authorization_requested (aq_operation_id q) (aq_revision q) (aq_authorization_reference q)"])
    (auto simp: assms(1) consult_authorizer_def Let_def authorization_milestone_def intro: assms(2,3))

lemma wp_authorize_stage:
  assumes "separate svc" "situation svc w0 [] v w"
  shows "wp (authorize_stage svc q r) (activation_outcome svc w0 q v) w"
  unfolding authorize_stage_def
proof (simp only: prod.case wp_simp, rule wp_consult_authorizer [OF assms(2), of _ q], goal_cases)
  case (1 x w1)
  then show ?case
    by (simp only: prod.case wp_simp, intro wp_act_log [OF assms(1) 1(2)])
      (auto simp: activation_outcome_def intro!: untouched_same)
next
  case (2 x w1)
  from 2(2) have sit: "situation svc w0 [authorization_milestone q] v w1" by simp
  show ?case
    using 2(1) by (simp only: prod.case wp_simp, intro wp_act_log [OF assms(1) sit])
      (auto simp: activation_outcome_def intro: untouched_same
        intro!: wp_mono [OF wp_resolve_stage [OF assms(1)]])
qed

lemma outcome_untouched: "untouched svc w0 q v r w \<Longrightarrow> activation_outcome svc w0 q v r w"
  by (simp add: activation_outcome_def)

lemma wp_activate:
  assumes "separate svc"
  shows "wp (activate svc q) (activation_outcome svc w q (firewall_view svc w)) w"
proof -
  have start: "situation svc w [] (firewall_view svc w) w" by (rule situation_start)
  show ?thesis
  proof (cases "request_problem svc q")
    case None
    show ?thesis
      by (simp only: activate_def None option.case prod.case wp_simp, rule wp_act_log [OF assms start])
        (auto intro!: outcome_untouched untouched_same [where ms = "[]"] wp_authorize_stage [OF assms])
  next
    case (Some problem)
    with start show ?thesis
      by (cases problem) (auto simp: activate_def intro!: outcome_untouched untouched_same [where ms = "[]"])
  qed
qed

lemma activate_outcome:
  "separate svc \<Longrightarrow> run_state (activate svc q) w = (r, w') \<Longrightarrow>
     activation_outcome svc w q (firewall_view svc w) r w'"
  by (rule wpD [OF wp_activate])

section \<open>What activation guarantees\<close>

lemma situation_world:
  "situation svc w0 ms v w \<Longrightarrow>
     revision_text (as_revisions svc) w = fv_texts v \<and> marker (as_revisions svc) w = fv_marker v \<and>
     stored (as_transactions svc) w = fv_pending v \<and>
     map (load_view svc (effective_uid w)) (loads w) = fv_loads v \<and> effective_uid w = effective_uid w0"
  by (auto simp: situation_def firewall_view_def uid_same)

lemma firewall_view_sel [simp]:
  "fv_texts (firewall_view svc w) = revision_text (as_revisions svc) w"
  "fv_marker (firewall_view svc w) = marker (as_revisions svc) w"
  "fv_pending (firewall_view svc w) = stored (as_transactions svc) w"
  "fv_loads (firewall_view svc w) = map (load_view svc (effective_uid w)) (loads w)"
  by (simp_all add: firewall_view_def)

text \<open>The loads a run adds, as views.\<close>

definition new_loads :: "activation_service \<Rightarrow> world \<Rightarrow> world \<Rightarrow> load_record list" where
  "new_loads svc w w' = map (load_view svc (effective_uid w')) (drop (length (loads w)) (loads w'))"

lemma new_loads_append:
  assumes "map (load_view svc (effective_uid w')) (loads w') = map (load_view svc (effective_uid w)) (loads w) @ ls"
  shows "new_loads svc w w' = ls"
proof -
  have "new_loads svc w w' = drop (length (loads w)) (map (load_view svc (effective_uid w')) (loads w'))"
    by (simp add: new_loads_def drop_map)
  then show ?thesis using assms by simp
qed

lemma situation_new_loads:
  "situation svc w ms v w' \<Longrightarrow> fv_loads v = map (load_view svc (effective_uid w)) (loads w) @ ls \<Longrightarrow>
     new_loads svc w w' = ls"
proof (rule new_loads_append)
  assume sit: "situation svc w ms v w'" and ls: "fv_loads v = map (load_view svc (effective_uid w)) (loads w) @ ls"
  from situation_world [OF sit]
  have "map (load_view svc (effective_uid w')) (loads w') = fv_loads v" by (elim conjE)
  with ls show "map (load_view svc (effective_uid w')) (loads w') = map (load_view svc (effective_uid w)) (loads w) @ ls"
    by (simp only:)
qed

lemma undone_not_ok: "undone svc w0 q previous ms texts ls r w \<Longrightarrow> \<not> activation_ok r"
  by (auto simp: undone_def activation_ok_def split: if_splits)

lemma outcome_committed:
  assumes "activation_outcome svc w q (firewall_view svc w) r w'" "activation_ok r"
  obtains previous chk ld l s where
    "marker (as_revisions svc) w = Some previous" "previous \<noteq> aq_revision q"
    "stored (as_transactions svc) w = Absent"
    "revision_text (as_revisions svc) w (aq_revision q) \<noteq> None"
    "checked svc (effective_uid w) (revision_text (as_revisions svc) w) (aq_revision q) chk"
    "loaded svc (effective_uid w) (revision_text (as_revisions svc) w) (aq_revision q) ld"
    "guarded_load svc q previous (revision_text (as_revisions svc) w) (aq_revision q) True l"
    "s = Absent \<or> ar_status r = Act_committed_cleanup_pending \<and> s = own_record q previous Committed"
    "situation svc w ([authorization_milestone q, chk, ld] @ probe_milestones q (as_probes svc) @ [confirmation_milestone q])
       (settled_view (revision_text (as_revisions svc) w) (aq_revision q) s
         (map (load_view svc (effective_uid w)) (loads w) @ [l])) w'"
  using assms
  by (fastforce simp: activation_outcome_def attempted_def Let_def untouched_def committed_run_def
      dest: undone_not_ok)

text \<open>
  C1. A committed activation went through every safeguard, in order: the authorizer allowed this
  operation on this revision, \<open>pfctl -nf\<close> accepted the archived target, \<open>pfctl -f\<close>
  accepted it, every probe reported healthy, and the operator confirmed. The target was archived
  and not already active, nothing was pending before, the target is the only load of the run, the
  archive is unchanged, the marker names the target, and no record is left pending, except the
  committed one when the result says that its cleanup is pending.
\<close>

theorem activation_commit_sound:
  assumes "separate svc" and "run_state (activate svc q) w = (r, w')" and "activation_ok r"
  shows "\<exists>previous xs chk ld l.
     marker (as_revisions svc) w = Some previous \<and> previous \<noteq> aq_revision q \<and>
     stored (as_transactions svc) w = Absent \<and>
     revision_text (as_revisions svc) w (aq_revision q) \<noteq> None \<and>
     actions w' = actions w @ xs \<and>
     checked svc (effective_uid w) (revision_text (as_revisions svc) w) (aq_revision q) chk \<and>
     loaded svc (effective_uid w) (revision_text (as_revisions svc) w) (aq_revision q) ld \<and>
     subseq ([authorization_milestone q, chk, ld] @ probe_milestones q (as_probes svc) @
       [confirmation_milestone q]) xs \<and>
     new_loads svc w w' = [l] \<and>
     guarded_load svc q previous (revision_text (as_revisions svc) w) (aq_revision q) True l \<and>
     revision_text (as_revisions svc) w' = revision_text (as_revisions svc) w \<and>
     marker (as_revisions svc) w' = Some (aq_revision q) \<and>
     (stored (as_transactions svc) w' = Absent \<or>
      ar_status r = Act_committed_cleanup_pending \<and>
      stored (as_transactions svc) w' = own_record q previous Committed)"
proof (rule outcome_committed [OF activate_outcome [OF assms(1,2)] assms(3)])
  fix previous chk ld l s
  let ?ms = "[authorization_milestone q, chk, ld] @ probe_milestones q (as_probes svc) @ [confirmation_milestone q]"
  let ?v = "settled_view (revision_text (as_revisions svc) w) (aq_revision q) s
         (map (load_view svc (effective_uid w)) (loads w) @ [l])"
  assume facts: "marker (as_revisions svc) w = Some previous" "previous \<noteq> aq_revision q"
    "stored (as_transactions svc) w = Absent"
    "revision_text (as_revisions svc) w (aq_revision q) \<noteq> None"
    "checked svc (effective_uid w) (revision_text (as_revisions svc) w) (aq_revision q) chk"
    "loaded svc (effective_uid w) (revision_text (as_revisions svc) w) (aq_revision q) ld"
    "guarded_load svc q previous (revision_text (as_revisions svc) w) (aq_revision q) True l"
    and s: "s = Absent \<or> ar_status r = Act_committed_cleanup_pending \<and> s = own_record q previous Committed"
    and sit: "situation svc w ?ms ?v w'"
  from sit obtain xs where "actions w' = actions w @ xs" "subseq ?ms xs"
    by (auto simp: situation_def)
  moreover have "new_loads svc w w' = [l]" by (rule situation_new_loads [OF sit]) simp
  ultimately show ?thesis
    using facts s situation_world [OF sit] by auto
qed

lemma outcome_cases:
  assumes "activation_outcome svc w q (firewall_view svc w) r w'"
  obtains (untouched) s where "\<not> activation_ok r" "ar_status r \<noteq> Act_rollback_failed"
      "situation svc w [] ((firewall_view svc w)\<lparr>fv_pending := s\<rparr>) w'"
      "s = stored (as_transactions svc) w \<or> stored (as_transactions svc) w = Absent"
  | (undone) previous chk ls where "stored (as_transactions svc) w = Absent"
      "marker (as_revisions svc) w = Some previous"
      "checked svc (effective_uid w) (revision_text (as_revisions svc) w) (aq_revision q) chk"
      "undone svc w q previous [authorization_milestone q, chk] (revision_text (as_revisions svc) w)
         (map (load_view svc (effective_uid w)) (loads w) @ ls) r w'"
      "ls = [] \<or> (\<exists>l b. ls = [l] \<and> guarded_load svc q previous (revision_text (as_revisions svc) w) (aq_revision q) b l)"
  | (committed) "activation_ok r"
proof (cases "activation_ok r")
  case True
  then show thesis by (rule committed)
next
  case False
  show thesis
  proof (cases "untouched svc w q (firewall_view svc w) r w'")
    case True
    then show thesis by (auto simp: untouched_def intro: untouched)
  next
    case no: False
    with assms False obtain previous chk where p: "stored (as_transactions svc) w = Absent"
      "marker (as_revisions svc) w = Some previous"
      "checked svc (effective_uid w) (revision_text (as_revisions svc) w) (aq_revision q) chk"
      and a: "attempted svc w q (firewall_view svc w) previous chk r w'"
      by (auto simp: activation_outcome_def)
    from a False show thesis
      by (fastforce simp: attempted_def Let_def committed_run_def
          intro: undone [OF p, of "[]"] undone [OF p, of "[l]" for l])
  qed
qed

text \<open>
  C4. An activation that does not commit and does not report \<open>rollback_failed\<close> leaves
  PF as it was: the archive and the marker are unchanged, and either nothing was loaded, or the
  last load of the run is an accepted load of the revision that was active before, and no record
  is pending any more.
\<close>

theorem activation_failure_restores:
  assumes "separate svc" and "run_state (activate svc q) w = (r, w')"
    and "\<not> activation_ok r" and "ar_status r \<noteq> Act_rollback_failed"
  shows "revision_text (as_revisions svc) w' = revision_text (as_revisions svc) w \<and>
     marker (as_revisions svc) w' = marker (as_revisions svc) w \<and>
     (new_loads svc w w' = [] \<or>
      ar_rollback_performed r \<and> stored (as_transactions svc) w' = Absent \<and>
      (\<exists>previous ls l. marker (as_revisions svc) w = Some previous \<and>
         new_loads svc w w' = ls @ [l] \<and> length ls \<le> 1 \<and>
         guarded_load svc q previous (revision_text (as_revisions svc) w) previous True l))"
  using activate_outcome [OF assms(1,2)]
proof (cases rule: outcome_cases)
  case (untouched s)
  have "new_loads svc w w' = []" by (rule situation_new_loads [OF untouched(3)]) simp
  with situation_world [OF untouched(3)] show ?thesis by simp
next
  case (undone previous chk ls)
  from undone(4) assms(4) obtain l where p: "ar_rollback_performed r"
    and l: "guarded_load svc q previous (revision_text (as_revisions svc) w) previous True l"
    and sit: "situation svc w [authorization_milestone q, chk] (settled_view (revision_text (as_revisions svc) w)
        previous Absent ((map (load_view svc (effective_uid w)) (loads w) @ ls) @ [l])) w'"
    by (auto simp: undone_def)
  have "new_loads svc w w' = ls @ [l]" by (rule situation_new_loads [OF sit]) simp
  with p l situation_world [OF sit] undone(2,5) show ?thesis by auto
next
  case committed
  with assms(3) show ?thesis by simp
qed

definition cleared_to_load :: "activation_service \<Rightarrow> activation_request \<Rightarrow> world \<Rightarrow> world \<Rightarrow> bool" where
  "cleared_to_load svc q w w' \<longleftrightarrow>
     (\<exists>xs chk. actions w' = actions w @ xs \<and> subseq [authorization_milestone q, chk] xs \<and>
        checked svc (effective_uid w) (revision_text (as_revisions svc) w) (aq_revision q) chk)"

definition own_load ::
  "activation_service \<Rightarrow> activation_request \<Rightarrow> u64 \<Rightarrow> (u64 \<Rightarrow> string option) \<Rightarrow> load_record \<Rightarrow> bool" where
  "own_load svc q previous texts l \<longleftrightarrow>
     (\<exists>num b. (num = aq_revision q \<or> num = previous) \<and> guarded_load svc q previous texts num b l)"

lemma own_loadI:
  "guarded_load svc q previous texts (aq_revision q) b l \<Longrightarrow> own_load svc q previous texts l"
  "guarded_load svc q previous texts previous b l \<Longrightarrow> own_load svc q previous texts l"
  by (auto simp: own_load_def)

lemma situation_cleared:
  assumes "situation svc w ms v w'" "subseq [authorization_milestone q, chk] ms"
    and "checked svc (effective_uid w) (revision_text (as_revisions svc) w) (aq_revision q) chk"
  shows "cleared_to_load svc q w w'"
  using situation_sub [OF assms(1,2)] assms(3) by (auto simp: situation_def cleared_to_load_def)

text \<open>
  C5. Whatever the outcome, a run loads at most two rulesets, the target and the revision active
  before, each while this operation's own pending record was durably on disk, so that a crash is
  always recoverable; and only if the authorizer allowed it and \<open>pfctl -nf\<close> accepted
  the target. The archived revisions are never altered.
\<close>

theorem activation_loads_guarded:
  assumes "separate svc" and "run_state (activate svc q) w = (r, w')"
  shows "revision_text (as_revisions svc) w' = revision_text (as_revisions svc) w \<and>
     (new_loads svc w w' = [] \<or>
      stored (as_transactions svc) w = Absent \<and> cleared_to_load svc q w w' \<and>
      (\<exists>previous. marker (as_revisions svc) w = Some previous \<and> length (new_loads svc w w') \<le> 2 \<and>
         list_all (own_load svc q previous (revision_text (as_revisions svc) w)) (new_loads svc w w')))"
  using activate_outcome [OF assms]
proof (cases rule: outcome_cases)
  case (untouched s)
  have "new_loads svc w w' = []" by (rule situation_new_loads [OF untouched(3)]) simp
  with situation_world [OF untouched(3)] show ?thesis by simp
next
  case (undone previous chk ls)
  let ?T = "revision_text (as_revisions svc) w"
  from undone(4) obtain v ls' where sit: "situation svc w [authorization_milestone q, chk] v w'"
    and v: "fv_texts v = ?T" "fv_loads v = map (load_view svc (effective_uid w)) (loads w) @ (ls @ ls')"
    and ls': "ls' = [] \<or> (\<exists>l b. ls' = [l] \<and> guarded_load svc q previous ?T previous b l)"
    unfolding undone_def by (fastforce split: if_splits)
  have new: "new_loads svc w w' = ls @ ls'" by (rule situation_new_loads [OF sit v(2)])
  have "cleared_to_load svc q w w'" by (rule situation_cleared [OF sit _ undone(3)]) simp
  moreover have "list_all (own_load svc q previous ?T) (ls @ ls')" "length (ls @ ls') \<le> 2"
    using ls' undone(5) by (auto intro: own_loadI)
  ultimately show ?thesis
    using undone(1,2) situation_world [OF sit] v(1) by (simp add: new)
next
  case committed
  show ?thesis
  proof (rule outcome_committed [OF activate_outcome [OF assms] committed])
    fix previous chk ld l s
    let ?ms = "[authorization_milestone q, chk, ld] @ probe_milestones q (as_probes svc) @ [confirmation_milestone q]"
    assume p: "marker (as_revisions svc) w = Some previous" "stored (as_transactions svc) w = Absent"
      and c: "checked svc (effective_uid w) (revision_text (as_revisions svc) w) (aq_revision q) chk"
      and l: "guarded_load svc q previous (revision_text (as_revisions svc) w) (aq_revision q) True l"
      and sit: "situation svc w ?ms (settled_view (revision_text (as_revisions svc) w) (aq_revision q) s
         (map (load_view svc (effective_uid w)) (loads w) @ [l])) w'"
    have new: "new_loads svc w w' = [l]" by (rule situation_new_loads [OF sit]) simp
    have "cleared_to_load svc q w w'" by (rule situation_cleared [OF sit _ c]) simp
    with p new situation_world [OF sit] own_loadI(1) [OF l] show ?thesis by simp
  qed
qed

text \<open>
  C6. While any pending record is on disk, readable or not, activation refuses to touch PF:
  nothing is loaded, and record, marker and archive stay as they are.
\<close>

theorem activation_blocked_while_pending:
  assumes "separate svc" and "run_state (activate svc q) w = (r, w')"
    and "stored (as_transactions svc) w \<noteq> Absent"
  shows "\<not> activation_ok r \<and> new_loads svc w w' = [] \<and>
     stored (as_transactions svc) w' = stored (as_transactions svc) w \<and>
     marker (as_revisions svc) w' = marker (as_revisions svc) w \<and>
     revision_text (as_revisions svc) w' = revision_text (as_revisions svc) w"
  using activate_outcome [OF assms(1,2)]
proof (cases rule: outcome_cases)
  case (untouched s)
  have "new_loads svc w w' = []" by (rule situation_new_loads [OF untouched(3)]) simp
  with situation_world [OF untouched(3)] untouched(1,4) assms(3) show ?thesis by auto
next
  case (undone previous chk ls)
  with assms(3) show ?thesis by simp
next
  case committed
  show ?thesis
    by (rule outcome_committed [OF activate_outcome [OF assms(1,2)] committed]) (simp add: assms(3))
qed

section \<open>Recovery\<close>

text \<open>The request whose activation left the record \<open>t\<close>, so that the rules for an
  activation in flight apply to the record that recovery finds.\<close>

definition recorded_request :: "pending_activation \<Rightarrow> activation_request" where
  "recorded_request t =
     \<lparr>aq_operation_id = txn_operation_id t, aq_revision = txn_target_revision t,
      aq_authorization_reference = [], aq_probe_timeout = 0, aq_confirmation_timeout = 0\<rparr>"

lemma recorded_own [simp]:
  "own_record (recorded_request t) (txn_rollback_revision t) (txn_phase t) = Pending t"
  by (simp add: own_record_def recorded_request_def)

lemma recorded_id [simp]: "aq_operation_id (recorded_request t) = txn_operation_id t"
  by (simp add: recorded_request_def)

definition rollback_load :: "activation_service \<Rightarrow> pending_activation \<Rightarrow> firewall_view \<Rightarrow> bool \<Rightarrow> load_record" where
  "rollback_load svc t v accepted =
     \<lparr>ld_path = path_string (revision_path (as_revisions svc) (txn_rollback_revision t)),
      ld_pending = Pending t, ld_texts = fv_texts v, ld_accepted = accepted\<rparr>"

text \<open>The view recovery ends in when it succeeds on the record \<open>t\<close>.\<close>

definition recovered_view :: "activation_service \<Rightarrow> pending_activation \<Rightarrow> firewall_view \<Rightarrow> firewall_view" where
  "recovered_view svc t v =
     (if txn_phase t = Committed then settled_view (fv_texts v) (txn_target_revision t) Absent (fv_loads v)
      else settled_view (fv_texts v) (txn_rollback_revision t) Absent
        (fv_loads v @ [rollback_load svc t v True]))"

definition recovery_outcome ::
  "activation_service \<Rightarrow> world \<Rightarrow> firewall_view \<Rightarrow> pending_activation \<Rightarrow> recovery_result \<Rightarrow> world \<Rightarrow> bool" where
  "recovery_outcome svc w0 v t r w \<longleftrightarrow>
     (if recovery_ok r
      then rec_status r \<noteq> Recovery_no_pending \<and>
           (rec_status r = Recovery_committed_cleaned \<longrightarrow> txn_phase t = Committed) \<and>
           (rec_status r = Recovery_rolled_back \<longrightarrow> txn_phase t \<noteq> Committed) \<and>
           (txn_phase t = Committed \<longrightarrow> fv_marker v = Some (txn_target_revision t)) \<and>
           (txn_phase t \<noteq> Committed \<longrightarrow> fv_texts v (txn_rollback_revision t) \<noteq> None) \<and>
           situation svc w0 [] (recovered_view svc t v) w
      else \<exists>v'. situation svc w0 [] v' w \<and> fv_texts v' = fv_texts v \<and>
             (fv_pending v' = Pending t \<or> fv_pending v' = Absent) \<and>
             (fv_marker v' = fv_marker v \<or> fv_marker v' = Some (txn_rollback_revision t)) \<and>
             (fv_loads v' = fv_loads v \<or>
              (\<exists>b. fv_loads v' = fv_loads v @ [rollback_load svc t v b])))"

lemma rec_conclude_sel [simp]: "rec_status (rec_conclude status i m r) = status"
  by (simp add: rec_conclude_def)

lemma recovery_ok_conclude [simp]:
  "recovery_ok (rec_conclude status i m r) \<longleftrightarrow> status \<noteq> Recovery_failed"
  by (cases status) (simp_all add: recovery_ok_def)

lemma recovery_failed:
  "\<not> recovery_ok r \<Longrightarrow> situation svc w0 ms v' w \<Longrightarrow> fv_texts v' = fv_texts v \<Longrightarrow>
     fv_pending v' = Pending t \<or> fv_pending v' = Absent \<Longrightarrow>
     fv_marker v' = fv_marker v \<or> fv_marker v' = Some (txn_rollback_revision t) \<Longrightarrow>
     fv_loads v' = fv_loads v \<or> (\<exists>b. fv_loads v' = fv_loads v @ [rollback_load svc t v b]) \<Longrightarrow>
     recovery_outcome svc w0 v t r w"
  unfolding recovery_outcome_def by (auto intro: situation_forget)

lemma wp_rec_audit_outcome:
  assumes "separate svc" "situation svc w0 ms v w"
    and "\<And>ok r' w'. rec_status r' = rec_status r \<Longrightarrow> situation svc w0 ms v w' \<Longrightarrow> Q (ok, r') w'"
  shows "wp (rec_audit svc build r) Q w"
  unfolding rec_audit_def
  using assms(1,2) by (auto intro!: wp_journal_append_audited assms(3) intro: situation_audited)

lemma wp_rec_fail:
  assumes "separate svc" "situation svc w0 ms v w" "fv_pending v = Pending t"
  shows "wp (rec_fail svc t i m num r) (recovery_outcome svc w0 v t) w"
  unfolding rec_fail_def Let_def
  by (simp only: prod.case wp_simp, rule wp_rec_audit_outcome [OF assms(1,2)])
    (use assms(3) in \<open>auto simp: recovery_ok_def intro!: recovery_failed\<close>)

lemma wp_rec_clear:
  assumes "separate svc" "status = (if txn_phase t = Committed then Recovery_committed_cleaned else Recovery_rolled_back)"
    and "txn_phase t = Committed \<Longrightarrow> fv_marker v = Some (txn_target_revision t)"
    and "txn_phase t \<noteq> Committed \<Longrightarrow> fv_texts v (txn_rollback_revision t) \<noteq> None"
    and "mark = (if txn_phase t = Committed then txn_target_revision t else txn_rollback_revision t)"
    and "ls = (if txn_phase t = Committed then fv_loads v else fv_loads v @ [rollback_load svc t v True])"
    and "situation svc w0 ms (flight (recorded_request t) (txn_rollback_revision t) (fv_texts v) mark (txn_phase t) ls) w"
  shows "wp (rec_clear svc t sev i outcome em num status m audit_ok r) (recovery_outcome svc w0 v t) w"
  unfolding rec_clear_def Let_def
proof (simp only: prod.case wp_simp, rule wp_clear_flight [OF assms(1,7), unfolded recorded_id], goal_cases)
  case (1 x w1)
  have view: "settled_view (fv_texts v) mark Absent ls = recovered_view svc t v"
    by (simp add: recovered_view_def assms(5,6))
  from 1(2) have sit: "situation svc w0 ms (recovered_view svc t v) w1" by (simp add: view)
  show ?case
    by (simp only: prod.case wp_simp 1(1), rule wp_rec_audit_outcome [OF assms(1) sit],
        simp only: prod.case wp_simp simp_thms if_False, rule wp_rec_audit_outcome [OF assms(1)], assumption)
      (use assms(2,3,4) in \<open>auto simp: recovery_outcome_def intro: situation_forget\<close>)
next
  case (2 x s w1)
  have mark': "Some mark = fv_marker v \<or> mark = txn_rollback_revision t"
    using assms(3,5) by auto
  have ls': "ls = fv_loads v \<or> (\<exists>b. ls = fv_loads v @ [rollback_load svc t v b])"
    using assms(6) by auto
  show ?case
    using 2(1,2) mark' ls'
    by (simp only: prod.case wp_simp, intro wp_rec_audit_outcome [OF assms(1) 2(3)])
      (auto intro!: recovery_failed)
qed

lemma wp_recover_committed:
  assumes "separate svc" "situation svc w0 [] v w" "fv_pending v = Pending t" "txn_phase t = Committed"
  shows "wp (recover_committed svc t audit_ok r) (recovery_outcome svc w0 v t) w"
  unfolding recover_committed_def
proof (simp only: prod.case wp_simp, rule wp_recall [OF assms(2)], goal_cases)
  case (1 x w1)
  then show ?case using assms(3) by (auto intro!: wp_rec_fail [OF assms(1)])
next
  case (2 x num w1)
  have view: "v = flight (recorded_request t) (txn_rollback_revision t) (fv_texts v) num (txn_phase t) (fv_loads v)"
    using 2(3) assms(3) by (simp add: flight_def)
  show ?case
    using 2 assms(3,4) view
    by (auto intro!: wp_rec_fail [OF assms(1)] wp_rec_clear [OF assms(1)])
qed

lemma rollback_load_of [simp]:
  "fv_pending v = Pending t \<Longrightarrow> load_of svc (txn_rollback_revision t) v b = rollback_load svc t v b"
  by (simp add: load_of_def rollback_load_def)

lemma wp_recover_rollback:
  assumes "separate svc" "situation svc w0 [] v w" "fv_pending v = Pending t" "txn_phase t \<noteq> Committed"
  shows "wp (recover_rollback svc t audit_ok r) (recovery_outcome svc w0 v t) w"
  unfolding recover_rollback_def Let_def
proof (simp only: prod.case wp_simp, rule wp_read_revision [OF assms(2)], goal_cases)
  case (1 x w1)
  show ?case
  proof (cases "revision_read_ok x")
    case False
    then show ?thesis using 1(1) assms(3) by (auto intro!: wp_rec_fail [OF assms(1)])
  next
    case True
    then have archived: "fv_texts v (txn_rollback_revision t) \<noteq> None" by (rule 1(2))
    show ?thesis
    proof (simp only: True simp_thms if_False prod.case wp_simp,
        rule wp_check [OF 1(1), of _ "txn_rollback_revision t"], goal_cases)
      case (1 y w2)
      then show ?case
        using assms(3) by (simp only: prod.case wp_simp, intro wp_rec_audit_outcome [OF assms(1) 1(2)])
          (auto intro!: recovery_failed)
    next
      case (2 y a w2)
      show ?case
      proof (simp only: 2(1) prod.case wp_simp, rule wp_rec_audit_outcome [OF assms(1) 2(2)],
          simp only: simp_thms if_False prod.case wp_simp,
          rule wp_load [where num = "txn_rollback_revision t"], assumption, goal_cases)
        case (1 ok r1 w3 z w4)
        then show ?case
          using assms(3) by (simp only: prod.case wp_simp, intro wp_rec_audit_outcome [OF assms(1) 1(4)])
            (auto intro!: recovery_failed)
      next
        case (2 ok r1 w3 z w4)
        then show ?case
          using assms(3) by (simp only: prod.case wp_simp, intro wp_rec_audit_outcome [OF assms(1) 2(4)])
            (auto intro!: recovery_failed)
      next
        case (3 ok r1 w3 z b w4)
        let ?ls = "fv_loads v @ [rollback_load svc t v True]"
        have sit: "situation svc w0 [] (v\<lparr>fv_loads := ?ls\<rparr>) w4"
          using 3(5) assms(3) by (auto intro: situation_forget)
        show ?case
        proof (simp only: 3(3) prod.case wp_simp, rule wp_rec_audit_outcome [OF assms(1) sit],
            simp only: simp_thms if_False prod.case wp_simp, rule wp_mark [OF assms(1)], assumption, goal_cases)
          case (1 ok r2 w5 m w6)
          have view: "v\<lparr>fv_loads := ?ls, fv_marker := Some (txn_rollback_revision t)\<rparr> =
              flight (recorded_request t) (txn_rollback_revision t) (fv_texts v) (txn_rollback_revision t)
                (txn_phase t) ?ls"
            using assms(3) by (simp add: flight_def)
          from 1(5) have sit: "situation svc w0 [] (flight (recorded_request t) (txn_rollback_revision t)
              (fv_texts v) (txn_rollback_revision t) (txn_phase t) ?ls) w6"
            by (simp only: view)
          show ?case
            using 1(3) assms(4) archived
            by (simp only: prod.case wp_simp, intro wp_rec_audit_outcome [OF assms(1) sit])
              (auto intro!: wp_rec_clear [OF assms(1)])
        next
          case (2 ok r2 w5 m mk w6)
          then show ?case
            using assms(3) by (simp only: prod.case wp_simp, intro wp_rec_audit_outcome [OF assms(1) 2(5)])
              (auto intro!: recovery_failed)
        qed
      qed
    qed
  qed
qed

definition recovery_conclusion ::
  "activation_service \<Rightarrow> world \<Rightarrow> firewall_view \<Rightarrow> recovery_result \<Rightarrow> world \<Rightarrow> bool" where
  "recovery_conclusion svc w0 v r w \<longleftrightarrow>
     (case fv_pending v of
        Absent \<Rightarrow> (rec_status r = Recovery_no_pending \<or> \<not> recovery_ok r) \<and> situation svc w0 [] v w
      | Unreadable \<Rightarrow> \<not> recovery_ok r \<and> situation svc w0 [] v w
      | Pending t \<Rightarrow> recovery_outcome svc w0 v t r w)"

lemma wp_recover_pending:
  assumes "separate svc"
  shows "wp (recover_pending svc) (recovery_conclusion svc w (firewall_view svc w)) w"
  unfolding recover_pending_def
proof (simp only: prod.case wp_simp, rule wp_load_transaction, goal_cases)
  case (1 x rs e)
  let ?v = "firewall_view svc w"
  have start: "situation svc w [] ?v (settle rs e w)" by (simp add: situation_start)
  show ?case
  proof (cases "txn_status x = Txn_no_pending")
    case True
    with 1 have "stored (as_transactions svc) w = Absent"
      by (simp add: load_reply_def reply_contract_def)
    with True start show ?thesis by (simp add: recovery_conclusion_def)
  next
    case no: False
    show ?thesis
    proof (cases "loaded_record x")
      case None
      have "\<not> recovery_ok (rec_conclude Recovery_failed (txn_event_id x) (txn_message x) initial_recovery)"
        by simp
      moreover have "recovery_outcome svc w ?v t
          (rec_conclude Recovery_failed (txn_event_id x) (txn_message x) initial_recovery) (settle rs e w)"
        if "stored (as_transactions svc) w = Pending t" for t
        using that by (intro recovery_failed [OF _ start]) simp_all
      ultimately show ?thesis
        using no None start by (simp add: recovery_conclusion_def split: stored_transaction.split)
    next
      case (Some t)
      from loaded_record_Some [OF 1 Some] have pending: "fv_pending ?v = Pending t" by simp
      have eq: "recovery_conclusion svc w ?v = recovery_outcome svc w ?v t"
        by (intro ext) (simp add: recovery_conclusion_def pending del: firewall_view_sel)
      show ?thesis
        by (simp only: no Some if_False option.case prod.case wp_simp eq, rule wp_rec_audit_outcome [OF assms start])
          (use pending in \<open>auto simp del: firewall_view_sel
             intro!: wp_recover_committed [OF assms] wp_recover_rollback [OF assms]\<close>)
    qed
  qed
qed

text \<open>
  C7. Recovery that reports success restores a consistent firewall. Without a pending record it
  changes nothing. A record that was not committed is undone by one accepted load of its rollback
  revision, made while the record is still on disk; the marker names that revision and the record
  is gone. A committed record is only removed, with the marker naming its target and no load at
  all. An unreadable record is never reported as recovered. The archive stays as it was.
\<close>

theorem recovery_sound:
  assumes "separate svc" and "run_state (recover_pending svc) w = (r, w')" and "recovery_ok r"
  shows "revision_text (as_revisions svc) w' = revision_text (as_revisions svc) w \<and>
     stored (as_transactions svc) w' = Absent \<and>
     (case stored (as_transactions svc) w of
        Absent \<Rightarrow> rec_status r = Recovery_no_pending \<and> new_loads svc w w' = [] \<and>
          marker (as_revisions svc) w' = marker (as_revisions svc) w
      | Unreadable \<Rightarrow> False
      | Pending t \<Rightarrow>
          (if txn_phase t = Committed
           then marker (as_revisions svc) w = Some (txn_target_revision t) \<and>
             marker (as_revisions svc) w' = Some (txn_target_revision t) \<and> new_loads svc w w' = []
           else marker (as_revisions svc) w' = Some (txn_rollback_revision t) \<and>
             new_loads svc w w' = [rollback_load svc t (firewall_view svc w) True]))"
proof -
  have c: "recovery_conclusion svc w (firewall_view svc w) r w'"
    by (rule wpD [OF wp_recover_pending [OF assms(1)] assms(2)])
  show ?thesis
  proof (cases "stored (as_transactions svc) w")
    case Absent
    with c assms(3) have sit: "situation svc w [] (firewall_view svc w) w'" "rec_status r = Recovery_no_pending"
      by (auto simp: recovery_conclusion_def)
    have "new_loads svc w w' = []" by (rule situation_new_loads [OF sit(1)]) simp
    with Absent sit(2) situation_world [OF sit(1)] show ?thesis by simp
  next
    case Unreadable
    with c assms(3) show ?thesis by (simp add: recovery_conclusion_def)
  next
    case (Pending t)
    with c assms(3) have sit: "situation svc w [] (recovered_view svc t (firewall_view svc w)) w'"
      and committed: "txn_phase t = Committed \<longrightarrow> marker (as_revisions svc) w = Some (txn_target_revision t)"
      by (auto simp: recovery_conclusion_def recovery_outcome_def)
    have "new_loads svc w w' = (if txn_phase t = Committed then [] else
        [rollback_load svc t (firewall_view svc w) True])"
      by (rule situation_new_loads [OF sit]) (simp add: recovered_view_def)
    with Pending committed situation_world [OF sit] show ?thesis
      by (auto simp: recovered_view_def split: if_splits)
  qed
qed


section \<open>Concrete instances\<close>

definition sample_activation_service :: activation_service where
  "sample_activation_service =
     \<lparr>as_revisions = ''/r'', as_transactions = ''/t'',
      as_validator = \<lparr>pfctl_executable = ''/sbin/pfctl'', pfctl_timeout = 5000\<rparr>,
      as_loader = \<lparr>pfctl_executable = ''/sbin/pfctl'', pfctl_timeout = 5000\<rparr>,
      as_journal = ''/j'',
      as_authorizer = \<lambda>_ _ _ _. Some \<lparr>auth_status = Auth_authorized, auth_decision_id = ''d'',
        auth_message = []\<rparr>,
      as_gate = \<lambda>_ _ _ _. Some \<lparr>conf_status = Conf_confirmed, conf_confirmation_id = ''c'',
        conf_message = []\<rparr>,
      as_probes = [\<lparr>probe_id = ''p'',
        probe_run = \<lambda>_ _. Some \<lparr>probe_status = Probe_healthy, probe_message = []\<rparr>\<rparr>]\<rparr>"

definition sample_activation_request :: activation_request where
  "sample_activation_request =
     \<lparr>aq_operation_id = ''op'', aq_revision = 2, aq_authorization_reference = ''ref'',
      aq_probe_timeout = 1000, aq_confirmation_timeout = 5000\<rparr>"

text \<open>A pending record that is not private, and one that is well formed.\<close>

definition open_record :: node where
  "open_record = \<lparr>kind = Regular_file, owner = 0, group = 0, mode = 511, links = 1, inode = 7,
     content = ''x''\<rparr>"

definition blocked_world :: world where
  "blocked_world = put_entry (transaction_path ''/t'') (Some open_record) idle_world"

lemma separate_sample [simp]: "separate sample_activation_service"
  by (simp add: separate_def sample_activation_service_def)

lemma stored_blocked [simp]:
  "stored (as_transactions sample_activation_service) blocked_world = Unreadable"
  by (simp add: stored_def record_view_def intact_def private_regular_file_def blocked_world_def
      open_record_def sample_activation_service_def)

lemma activation_failure_restores_witness:
  "case run_state (activate sample_activation_service (sample_activation_request\<lparr>aq_revision := 0\<rparr>)) idle_world of
     (r, w') \<Rightarrow>
       marker (as_revisions sample_activation_service) w' =
         marker (as_revisions sample_activation_service) idle_world \<and>
       \<not> activation_ok r"
proof -
  let ?q = "sample_activation_request\<lparr>aq_revision := 0\<rparr>"
  have run: "run_state (activate sample_activation_service ?q) idle_world =
      (conclude Act_invalid_request ''GH-ACT-1001''
        ''Activation request identifiers, revision, or confirmation timeout are invalid.'' initial_activation,
       idle_world)"
    by (simp add: activate_def request_problem_def)
  from activation_failure_restores [OF separate_sample run] show ?thesis by (simp add: run)
qed

lemma activation_loads_guarded_witness:
  "case run_state (activate sample_activation_service sample_activation_request) idle_world of
     (r, w') \<Rightarrow> length (new_loads sample_activation_service idle_world w') \<le> 2"
  using activation_loads_guarded [OF separate_sample prod.collapse [symmetric],
      of sample_activation_request idle_world]
  by (auto simp: split_beta)

lemma activation_blocked_while_pending_witness:
  "case run_state (activate sample_activation_service sample_activation_request) blocked_world of
     (r, w') \<Rightarrow> \<not> activation_ok r \<and> new_loads sample_activation_service blocked_world w' = []"
  using activation_blocked_while_pending [OF separate_sample prod.collapse [symmetric],
      of blocked_world sample_activation_request]
  by (simp add: split_beta)

lemma recovery_sound_witness:
  "case run_state (recover_pending sample_activation_service) idle_world of
     (r, w') \<Rightarrow> rec_status r = Recovery_no_pending \<and>
       stored (as_transactions sample_activation_service) w' = Absent"
proof -
  obtain r w' where run: "run_state (recover_pending sample_activation_service) idle_world = (r, w')"
    by fastforce
  then have "rec_status r = Recovery_no_pending"
    by (auto simp: recover_pending_def load_transaction_def open_safe_root_def sample_activation_service_def
        is_absolute_def saved_errno_def)
  moreover from this have "recovery_ok r" by (simp add: recovery_ok_def)
  ultimately show ?thesis
    using recovery_sound [OF separate_sample run] by (simp add: run)
qed


end
