(* ===== verification/Activation_Progress.thy ===== *)
theory Activation_Progress
  imports Activation_Safety
begin

text \<open>
  Activation does commit: when no system call fails, the stores are in good order, the journal has
  room, \<open>pfctl\<close> accepts its input and every provider agrees, the workflow ends with the status
  \<open>committed\<close>. The predicate \<open>smooth\<close> holds what each step needs and leaves for the
  next one.
\<close>

section \<open>Short events fit the journal\<close>

text \<open>An event whose required fields are there and whose fields are short, with at most
  \<open>n\<close> attributes.\<close>

definition brief :: "nat \<Rightarrow> event \<Rightarrow> bool" where
  "brief n e \<longleftrightarrow>
     has_required_fields e \<and> length (ev_timestamp e) \<le> 128 \<and> length (ev_event_id e) \<le> 128 \<and>
     length (ev_component e) \<le> 128 \<and> length (ev_operation_id e) \<le> 128 \<and>
     length (ev_action e) \<le> 128 \<and> length (ev_outcome e) \<le> 128 \<and> length (ev_message e) \<le> 256 \<and>
     length (ev_attributes e) \<le> n \<and>
     (\<forall>(k, v) \<in> set (ev_attributes e). length k \<le> 128 \<and> length v \<le> 128)"

lemma length_escape_character: "length (escape_character c) \<le> 6"
  by (simp add: escape_character_def)

lemma length_append_escaped: "length (append_escaped s) \<le> 6 * length s + 2"
proof -
  have "length (List.maps escape_character s) \<le> 6 * length s"
    by (induction s) (auto intro: add_mono length_escape_character)
  then show ?thesis by (simp add: append_escaped_def)
qed

lemma length_append_field: "length (append_field b k v) \<le> 6 * length k + 6 * length v + 6"
  using length_append_escaped [of k] length_append_escaped [of v] by (simp add: append_field_def)

lemma length_append_field_le:
  "length k \<le> a \<Longrightarrow> length v \<le> c \<Longrightarrow> length (append_field b k v) \<le> 6 * a + 6 * c + 6"
  using length_append_field [of b k v] by linarith

lemma length_format_attributes:
  "(\<forall>(k, v) \<in> set m. length k \<le> 128 \<and> length v \<le> 128) \<Longrightarrow>
     length (format_attributes b m) \<le> 1542 * length m"
proof (induction m arbitrary: b)
  case (Cons kv m)
  then have "length (fst kv) \<le> 128" "length (shown_value kv) \<le> 128"
    by (auto simp: shown_value_def redacted_value_def)
  then have "length (append_field b (fst kv) (shown_value kv)) \<le> 1542"
    using length_append_field_le [of "fst kv" 128 "shown_value kv" 128 b] by simp
  moreover have "length (format_attributes False m) \<le> 1542 * length m"
    using Cons by auto
  ultimately show ?case by simp
qed simp

lemma brief_loggable: "brief n e \<Longrightarrow> n \<le> 8 \<Longrightarrow> loggable e"
proof -
  assume b: "brief n e" and n: "n \<le> 8"
  have "length (severity_name (ev_severity e)) \<le> 8"
    by (simp add: severity_name_def split: severity.split)
  moreover have "length (format_attributes True (ev_attributes e)) \<le> 12336"
    using b n length_format_attributes [of "ev_attributes e" True] by (simp add: brief_def)
  ultimately have "length (format_event e) \<le> 40000"
    using b length_append_field [of True "''schema''" "''gatehold.event.v1''"]
      length_append_field [of False "''timestamp''" "ev_timestamp e"]
      length_append_field [of False "''severity''" "severity_name (ev_severity e)"]
      length_append_field [of False "''event_id''" "ev_event_id e"]
      length_append_field [of False "''component''" "ev_component e"]
      length_append_field [of False "''operation_id''" "ev_operation_id e"]
      length_append_field [of False "''action''" "ev_action e"]
      length_append_field [of False "''outcome''" "ev_outcome e"]
      length_append_field [of False "''message''" "ev_message e"]
      length_append_escaped [of "''attributes''"]
    by (simp add: format_event_def brief_def)
  then show "loggable e" using b by (simp add: loggable_def maximum_entry_size_def brief_def)
qed

lemma length_emplace: "length (emplace k v m) \<le> Suc (length m)"
  by (induction k v m rule: emplace.induct) auto

lemma set_emplace: "set (emplace k v m) \<subseteq> insert (k, v) (set m)"
  by (induction k v m rule: emplace.induct) auto

lemma brief_add:
  "brief n e \<Longrightarrow> length k \<le> 128 \<Longrightarrow> length v \<le> 128 \<Longrightarrow> brief (Suc n) (add_attribute k v e)"
  using length_emplace [of k v "ev_attributes e"] set_emplace [of k v "ev_attributes e"]
  by (fastforce simp: brief_def add_attribute_def has_required_fields_def)

lemma brief_add_all:
  "brief n e \<Longrightarrow> \<forall>(k, v) \<in> set kvs. length k \<le> 128 \<and> length v \<le> 128 \<Longrightarrow>
     brief (n + length kvs) (foldl (\<lambda>e (k, v). add_attribute k v e) e kvs)"
proof (induction kvs arbitrary: n e)
  case (Cons kv kvs)
  obtain k v where "kv = (k, v)" by fastforce
  with Cons.prems Cons.IH [of "Suc n" "add_attribute k v e"] show ?case
    by (simp add: brief_add)
qed simp

lemma length_decimal_short: "length (decimal (unat (x :: u64))) \<le> 128"
  using length_decimal_u64 [of x] by simp

text \<open>Timestamps that a journal accepts.\<close>

definition good_clock :: "(nat \<Rightarrow> string) \<Rightarrow> bool" where
  "good_clock c \<longleftrightarrow> (\<forall>n. c n \<noteq> [] \<and> length (c n) \<le> 128)"

lemma brief_activation_event:
  "t \<noteq> [] \<Longrightarrow> length t \<le> 128 \<Longrightarrow> valid_identifier op \<Longrightarrow> i \<noteq> [] \<Longrightarrow> length i \<le> 128 \<Longrightarrow>
     act \<noteq> [] \<Longrightarrow> length act \<le> 128 \<Longrightarrow> outcome \<noteq> [] \<Longrightarrow> length outcome \<le> 128 \<Longrightarrow> length m \<le> 256 \<Longrightarrow>
     brief 1 (activation_event t sev i op act outcome m num)"
  by (simp add: brief_def activation_event_def has_required_fields_def valid_identifier_def
      attribute_map_def length_decimal_short)

section \<open>Smooth worlds\<close>

text \<open>
  No fault ahead, journal, archive and record store in good order, and room for \<open>k\<close> more
  journal entries of any size; \<open>pfctl\<close> accepts whatever it is given.
\<close>

definition calm :: "activation_service \<Rightarrow> nat \<Rightarrow> world \<Rightarrow> bool" where
  "calm svc k w \<longleftrightarrow>
     journal_ready (as_journal svc) w \<and> archive_ready (as_revisions svc) w \<and>
     store_ready (as_transactions svc) w \<and>
     length (file_text w (journal_path (as_journal svc))) + k * maximum_entry_size \<le> maximum_journal_size \<and>
     good_clock (clock w) \<and> (\<forall>n exe argv fs. process_accepted (processes w n exe argv fs))"

definition smooth ::
  "activation_service \<Rightarrow> nat \<Rightarrow> (u64 \<Rightarrow> string option) \<Rightarrow> u64 \<Rightarrow> stored_transaction \<Rightarrow> world \<Rightarrow> bool" where
  "smooth svc k texts mark s w \<longleftrightarrow>
     separate svc \<and> calm svc k w \<and> revision_text (as_revisions svc) w = texts \<and>
     marker (as_revisions svc) w = Some mark \<and> stored (as_transactions svc) w = s"

lemma archive_ready_frame:
  assumes "archive_ready root w" "same_setting w w'" "script w' = []" "only_touches P w w'"
    and "\<And>n. (root, n) \<notin> P"
  shows "archive_ready root w'"
  using assms only_touches_entry [OF assms(4) assms(5)]
  by (simp add: archive_ready_def same_setting_def)

lemma store_ready_frame:
  assumes "store_ready root w" "same_setting w w'" "script w' = []" "only_touches P w w'"
    and "\<And>n. (root, n) \<notin> P"
  shows "store_ready root w'"
  using assms only_touches_entry [OF assms(4) assms(5)]
  by (simp add: store_ready_def same_setting_def)

lemma journal_ready_frame:
  assumes "journal_ready root w" "same_setting w w'" "script w' = []" "only_touches P w w'"
    and "\<And>n. (root, n) \<notin> P"
  shows "journal_ready root w'" "file_text w' (journal_path root) = file_text w (journal_path root)"
  using assms only_touches_entry [OF assms(4) assms(5)]
  by (simp_all add: journal_ready_def same_setting_def journal_path_def file_text_def cong: option.case_cong)

lemma smooth_journal:
  assumes "smooth svc (Suc k) texts mark s w" "brief n e" "n \<le> 8"
  shows "wp (journal_append (as_journal svc) e) (\<lambda>r w'. journal_ok r \<and> smooth svc k texts mark s w') w"
proof (rule wpI)
  fix r w' assume run: "run_state (journal_append (as_journal svc) e) w = (r, w')"
  from assms(1) have sep: "separate svc" and calm: "calm svc (Suc k) w" by (simp_all add: smooth_def)
  from brief_loggable [OF assms(2,3)] have log: "loggable e" .
  then have len: "length (format_event e) + 1 \<le> maximum_entry_size" by (simp add: loggable_def)
  have room: "length (file_text w (journal_path (as_journal svc))) + length (format_event e) + 1 \<le> maximum_journal_size"
    using calm len by (simp add: calm_def)
  from journal_append_ready [OF _ log room] calm run have ok: "journal_ok r"
    and ready: "journal_ready (as_journal svc) w'"
    and grown: "file_text w' (journal_path (as_journal svc)) =
        file_text w (journal_path (as_journal svc)) @ format_event e @ [newline]"
    by (simp_all add: calm_def)
  have "wp (journal_append (as_journal svc) e) (\<lambda>r w'. audited (as_journal svc) (if journal_ok r then [e] else []) w w') w"
    by (rule wp_journal_append_audited) simp
  from wpD [OF this run] have aud: "audited (as_journal svc) (if journal_ok r then [e] else []) w w'" .
  then have frame: "same_setting w w'" "only_touches {journal_path (as_journal svc)} w w'"
    by (simp_all add: audited_def)
  have script: "script w' = []" using ready by (simp add: journal_ready_def)
  have "archive_ready (as_revisions svc) w'"
    using calm sep by (intro archive_ready_frame [OF _ frame(1) script frame(2)])
      (auto simp: calm_def separate_def journal_path_def)
  moreover have "store_ready (as_transactions svc) w'"
    using calm sep by (intro store_ready_frame [OF _ frame(1) script frame(2)])
      (auto simp: calm_def separate_def journal_path_def)
  ultimately have "calm svc k w'"
    using calm ready grown len frame(1) by (simp add: calm_def same_setting_def)
  moreover have "firewall_view svc w' = firewall_view svc w" by (rule view_audited [OF sep aud])
  then have "revision_text (as_revisions svc) w' = revision_text (as_revisions svc) w"
    "marker (as_revisions svc) w' = marker (as_revisions svc) w"
    "stored (as_transactions svc) w' = stored (as_transactions svc) w"
    by (simp_all add: firewall_view_def)
  ultimately show "journal_ok r \<and> smooth svc k texts mark s w'"
    using ok assms(1) by (simp add: smooth_def)
qed

lemma smooth_update [simp]:
  "smooth svc k texts mark s (w\<lparr>clock_reads := c\<rparr>) = smooth svc k texts mark s w"
  "smooth svc k texts mark s (w\<lparr>actions := as\<rparr>) = smooth svc k texts mark s w"
  "smooth svc k texts mark s (w\<lparr>processes_run := c\<rparr>) = smooth svc k texts mark s w"
  by (simp_all add: smooth_def calm_def journal_ready_def archive_ready_def store_ready_def file_text_def
      revision_text_def [abs_def] marker_def stored_def cong: option.case_cong)

lemma wp_smooth_audit:
  assumes smooth: "smooth svc (Suc k) texts mark s w"
    and "\<And>t. t \<noteq> [] \<Longrightarrow> length t \<le> 128 \<Longrightarrow> brief n (build t)" "n \<le> 8"
    and "\<And>r' w'. smooth svc k texts mark s w' \<Longrightarrow> Q (True, r') w'"
  shows "wp (act_audit svc build r) Q w"
proof -
  have clock: "clock w (clock_reads w) \<noteq> []" "length (clock w (clock_reads w)) \<le> 128"
    using smooth by (simp_all add: smooth_def calm_def good_clock_def)
  have "smooth svc (Suc k) texts mark s (w\<lparr>clock_reads := Suc (clock_reads w)\<rparr>)"
    using smooth by (simp only: smooth_update)
  from smooth_journal [OF this assms(2) [OF clock] assms(3)] show ?thesis
    unfolding act_audit_def act_append_def
    by (simp only: wp_simp) (erule wp_mono, auto intro: assms(4))
qed

lemma wp_smooth_log:
  assumes "smooth svc (Suc k) texts mark s w" "valid_identifier (aq_operation_id q)"
    and "i \<noteq> []" "length i \<le> 128" "act \<noteq> []" "length act \<le> 128" "outcome \<noteq> []" "length outcome \<le> 128"
    and "length m \<le> 256" "\<forall>(k, v) \<in> set extra. length k \<le> 128 \<and> length v \<le> 128" "length extra \<le> 4"
    and "\<And>r' w'. smooth svc k texts mark s w' \<Longrightarrow> Q (True, r') w'"
  shows "wp (act_log svc q sev i act outcome m num extra r) Q w"
proof -
  have "brief (1 + length extra) (foldl (\<lambda>e (k, v). add_attribute k v e)
      (activation_event t sev i (aq_operation_id q) act outcome m num) extra)"
    if "t \<noteq> []" "length t \<le> 128" for t
    by (rule brief_add_all [OF brief_activation_event]) (simp_all add: assms that)
  then show ?thesis
    unfolding act_log_def using assms(11,12)
    by (intro wp_smooth_audit [OF assms(1), where n = "1 + length extra"]) simp_all
qed

text \<open>The stores and \<open>pfctl\<close> do what they are asked, and leave a smooth world.\<close>

lemma smooth_transactions:
  assumes "smooth svc k texts mark s w" "store_frame (as_transactions svc) w w'"
    and "store_ready (as_transactions svc) w'"
  shows "smooth svc k texts mark (stored (as_transactions svc) w') w'"
proof -
  from assms have sep: "separate svc" and calm: "calm svc k w"
    and frame: "same_setting w w'" "only_touches (in_directory (as_transactions svc)) w w'"
    by (simp_all add: smooth_def store_frame_def)
  have script: "script w' = []" using assms(3) by (rule store_ready_script)
  have "archive_ready (as_revisions svc) w'"
    using calm sep by (intro archive_ready_frame [OF _ frame(1) script frame(2)])
      (auto simp: calm_def separate_def)
  moreover have "journal_ready (as_journal svc) w'"
    "file_text w' (journal_path (as_journal svc)) = file_text w (journal_path (as_journal svc))"
    using calm sep journal_ready_frame [OF _ frame(1) script frame(2), of "as_journal svc"]
    by (auto simp: calm_def separate_def)
  ultimately have "calm svc k w'"
    using calm assms(3) frame(1) by (simp add: calm_def same_setting_def)
  moreover note view_frame_transactions [OF sep assms(2)]
  then have "revision_text (as_revisions svc) w' = revision_text (as_revisions svc) w"
    "marker (as_revisions svc) w' = marker (as_revisions svc) w"
    by (simp_all add: firewall_view_def)
  ultimately show ?thesis using assms(1) by (simp add: smooth_def)
qed

lemma wp_smooth_begin:
  assumes "smooth svc k texts mark Absent w" "valid_transaction t" "txn_phase t = Prepared_for_load"
    and "\<And>w'. smooth svc k texts mark (Pending t) w' \<Longrightarrow>
      Q \<lparr>txn_status = Txn_created, txn_event_id = ''GH-TXN-0001'',
         txn_message = ''Pending activation transaction created durably.'', txn_transaction = Some t\<rparr> w'"
  shows "wp (begin_transaction (as_transactions svc) t) Q w"
proof -
  from assms(1) have "store_ready (as_transactions svc) w" "stored (as_transactions svc) w = Absent"
    by (simp_all add: smooth_def calm_def)
  from begin_succeeds [OF this assms(2,3)] obtain r w' where
    run: "run_state (begin_transaction (as_transactions svc) t) w = (r, w')"
    and r: "r = \<lparr>txn_status = Txn_created, txn_event_id = ''GH-TXN-0001'',
       txn_message = ''Pending activation transaction created durably.'', txn_transaction = Some t\<rparr>"
    and ready: "store_ready (as_transactions svc) w'" by blast
  have e: "transaction_effect (as_transactions svc) (Begin t) r w w'"
    by (rule wpD [OF wp_begin_transaction run])
  then have "stored (as_transactions svc) w' = Pending t"
    by (auto simp: transaction_effect_def reply_contract_def r)
  moreover have "store_frame (as_transactions svc) w w'" using e by (simp add: transaction_effect_def)
  ultimately have "smooth svc k texts mark (Pending t) w'"
    using smooth_transactions [OF assms(1) _ ready] by simp
  from assms(4) [OF this] show ?thesis by (simp add: wp_def run r)
qed

lemma wp_smooth_advance:
  assumes "smooth svc k texts mark (own_record q previous ph) w" "valid_transition ph p"
    and "\<And>t w'. smooth svc k texts mark (own_record q previous p) w' \<Longrightarrow> Pending t = own_record q previous p \<Longrightarrow>
      Q \<lparr>txn_status = Txn_advanced, txn_event_id = ''GH-TXN-0002'',
         txn_message = ''Pending activation transaction advanced durably.'', txn_transaction = Some t\<rparr> w'"
  shows "wp (advance_transaction (as_transactions svc) (aq_operation_id q) p) Q w"
proof -
  obtain t where t: "own_record q previous ph = Pending t" "txn_operation_id t = aq_operation_id q"
    "txn_phase t = ph" "own_record q previous p = Pending (t\<lparr>txn_phase := p\<rparr>)"
    by (auto simp: own_record_def)
  from assms(1) t(1) have "store_ready (as_transactions svc) w" "stored (as_transactions svc) w = Pending t"
    by (simp_all add: smooth_def calm_def)
  from advance_succeeds [OF this t(2), of p] assms(2) t(3) obtain r w' where
    run: "run_state (advance_transaction (as_transactions svc) (aq_operation_id q) p) w = (r, w')"
    and r: "r = \<lparr>txn_status = Txn_advanced, txn_event_id = ''GH-TXN-0002'',
       txn_message = ''Pending activation transaction advanced durably.'',
       txn_transaction = Some (t\<lparr>txn_phase := p\<rparr>)\<rparr>"
    and ready: "store_ready (as_transactions svc) w'" by blast
  have e: "transaction_effect (as_transactions svc) (Advance (aq_operation_id q) p) r w w'"
    by (rule wpD [OF wp_advance_transaction run])
  then have "stored (as_transactions svc) w' = own_record q previous p"
    by (auto simp: transaction_effect_def reply_contract_def r t(4))
  moreover have "store_frame (as_transactions svc) w w'" using e by (simp add: transaction_effect_def)
  ultimately have "smooth svc k texts mark (own_record q previous p) w'"
    using smooth_transactions [OF assms(1) _ ready] by simp
  from assms(3) [OF this] show ?thesis by (simp add: wp_def run r t(4))
qed

lemma wp_smooth_clear:
  assumes "smooth svc k texts mark (own_record q previous ph) w"
    and "\<And>r w'. txn_status r = Txn_cleared \<Longrightarrow> Q r w'"
  shows "wp (clear_transaction (as_transactions svc) (aq_operation_id q)) Q w"
proof -
  obtain t where t: "own_record q previous ph = Pending t" "txn_operation_id t = aq_operation_id q"
    by (auto simp: own_record_def)
  from assms(1) t(1) have "store_ready (as_transactions svc) w" "stored (as_transactions svc) w = Pending t"
    by (simp_all add: smooth_def calm_def)
  from clear_succeeds [OF this t(2)] obtain r w' where
    "run_state (clear_transaction (as_transactions svc) (aq_operation_id q)) w = (r, w')"
    "txn_status r = Txn_cleared" by auto
  then show ?thesis by (simp add: wp_def assms(2))
qed

lemma wp_smooth_read:
  assumes "smooth svc k texts mark s w" "texts num = Some c" "num > 0"
    and "\<And>x. revision_read_ok x \<Longrightarrow> Q x w"
  shows "wp (load_revision (as_revisions svc) num) Q w"
proof -
  from assms(1,2) have "archive_ready (as_revisions svc) w"
    "revision_text (as_revisions svc) w num = Some c"
    by (auto simp: smooth_def calm_def)
  from load_revision_ready [OF this assms(3)] assms(4) show ?thesis by (auto simp: wp_def)
qed

lemma wp_smooth_recall:
  assumes "smooth svc k texts mark s w" "texts mark = Some c" "mark > 0"
    and "\<And>x. last_known_good_ok x \<Longrightarrow> lkg_revision x = Some mark \<Longrightarrow> Q x w"
  shows "wp (last_known_good (as_revisions svc)) Q w"
proof -
  from assms(1,2) have "archive_ready (as_revisions svc) w"
    "marker (as_revisions svc) w = Some mark" "revision_text (as_revisions svc) w mark = Some c"
    by (auto simp: smooth_def calm_def)
  from last_known_good_ready [OF this assms(3)] assms(4) show ?thesis by (auto simp: wp_def)
qed

lemma wp_smooth_mark:
  assumes "smooth svc k texts mark s w" "texts num = Some c" "num > 0"
    and "\<And>w'. smooth svc k texts num s w' \<Longrightarrow>
      Q \<lparr>lkg_status = Rev_marked_last_known_good, lkg_event_id = ''GH-REV-0003'',
         lkg_message = ''Revision marked as last known good.'', lkg_revision = Some num\<rparr> w'"
  shows "wp (mark_last_known_good (as_revisions svc) num) Q w"
proof -
  from assms(1) have sep: "separate svc" and calm: "calm svc k w"
    and view: "revision_text (as_revisions svc) w = texts" "stored (as_transactions svc) w = s"
    by (simp_all add: smooth_def)
  from calm assms(2) view have "archive_ready (as_revisions svc) w"
    "revision_text (as_revisions svc) w num = Some c" by (auto simp: calm_def)
  from mark_ready [OF this assms(3)] obtain r w' where
    run: "run_state (mark_last_known_good (as_revisions svc) num) w = (r, w')"
    and r: "r = \<lparr>lkg_status = Rev_marked_last_known_good, lkg_event_id = ''GH-REV-0003'',
       lkg_message = ''Revision marked as last known good.'', lkg_revision = Some num\<rparr>"
    and ready: "archive_ready (as_revisions svc) w'" by blast
  have e: "mark_effect (as_revisions svc) num r w w'" by (rule wpD [OF wp_mark_last_known_good run])
  then have frame: "same_setting w w'" "only_touches (in_directory (as_revisions svc)) w w'"
    and store: "store_frame (as_revisions svc) w w'"
    and mark: "marker (as_revisions svc) w' = Some num" "revision_text (as_revisions svc) w' = texts"
    by (simp_all add: mark_effect_def store_frame_def r last_known_good_ok_def view)
  have script: "script w' = []" using ready by (simp add: archive_ready_def)
  have "store_ready (as_transactions svc) w'"
    using calm sep by (intro store_ready_frame [OF _ frame(1) script frame(2)])
      (auto simp: calm_def separate_def)
  moreover have "journal_ready (as_journal svc) w'"
    "file_text w' (journal_path (as_journal svc)) = file_text w (journal_path (as_journal svc))"
    using calm sep journal_ready_frame [OF _ frame(1) script frame(2), of "as_journal svc"]
    by (auto simp: calm_def separate_def)
  ultimately have "calm svc k w'"
    using calm ready frame(1) by (simp add: calm_def same_setting_def)
  moreover have "stored (as_transactions svc) w' = s"
    using view_frame_revisions(1) [OF sep store] view by simp
  ultimately have "smooth svc k texts num s w'" using mark sep by (simp add: smooth_def)
  from assms(4) [OF this] show ?thesis by (simp add: wp_def run r)
qed

definition runnable :: "pfctl \<Rightarrow> bool" where
  "runnable v \<longleftrightarrow> is_absolute (pfctl_executable v) \<and> 0 < pfctl_timeout v"

lemma smooth_private:
  assumes "smooth svc k texts mark s w" "texts num = Some c"
  obtains n where "entries w (revision_path (as_revisions svc) num) = Some n"
    "private_regular_file (effective_uid w) n" "script w = []" "is_absolute (as_revisions svc)"
  using assms
  by (auto simp: smooth_def calm_def archive_ready_def revision_text_def revision_view_def
      split: option.splits if_splits)

lemma wp_smooth_check:
  assumes "smooth svc k texts mark s w" "texts num = Some c" "runnable (as_validator svc)"
    and "\<And>p w'. process_accepted p \<Longrightarrow> smooth svc k texts mark s w' \<Longrightarrow> Q (classify_validation p) w'"
  shows "wp (validate_candidate (as_validator svc) (revision_path (as_revisions svc) num)) Q w"
proof (rule smooth_private [OF assms(1,2)])
  fix n assume n: "entries w (revision_path (as_revisions svc) num) = Some n"
    "private_regular_file (effective_uid w) n" "script w = []" "is_absolute (as_revisions svc)"
  have "process_accepted (processes w c exe argv fs)" for c exe argv fs
    using assms(1) by (simp add: smooth_def calm_def)
  with n assms(1,3) show ?thesis
    by (simp add: wp_def validate_candidate_def revision_path_def run_process_def runnable_def not_le
        execute_def Let_def assms(4))
qed

lemma wp_smooth_load:
  assumes "smooth svc k texts mark s w" "texts num = Some c" "runnable (as_loader svc)"
    and "\<And>p w'. process_accepted p \<Longrightarrow> smooth svc k texts mark s w' \<Longrightarrow> Q (classify_load p) w'"
  shows "wp (load_ruleset (as_loader svc) (revision_path (as_revisions svc) num)) Q w"
proof (rule smooth_private [OF assms(1,2)])
  fix n assume n: "entries w (revision_path (as_revisions svc) num) = Some n"
    "private_regular_file (effective_uid w) n" "script w = []" "is_absolute (as_revisions svc)"
  have "process_accepted (processes w c exe argv fs)" for c exe argv fs
    using assms(1) by (simp add: smooth_def calm_def)
  with n assms(1,3) show ?thesis
    by (simp add: wp_def load_ruleset_def revision_path_def run_process_def runnable_def not_le
        execute_def Let_def assms(4))
qed

text \<open>The providers agree, whatever they have seen.\<close>

definition agreeable :: "activation_service \<Rightarrow> bool" where
  "agreeable svc \<longleftrightarrow>
     (\<forall>h op num ref. \<exists>a. as_authorizer svc h op num ref = Some a \<and> auth_ok a \<and> valid_identifier (auth_decision_id a)) \<and>
     (\<forall>h op num t. \<exists>c. as_gate svc h op num t = Some c \<and> conf_ok c \<and> valid_identifier (conf_confirmation_id c)) \<and>
     (\<forall>p \<in> set (as_probes svc). \<forall>h t. \<exists>x. probe_run p h t = Some x \<and> probe_ok x)"

lemma wp_smooth_authorizer:
  assumes "smooth svc k texts mark s w" "agreeable svc"
    and "\<And>x w'. auth_ok x \<Longrightarrow> valid_identifier (auth_decision_id x) \<Longrightarrow> smooth svc k texts mark s w' \<Longrightarrow> Q x w'"
  shows "wp (consult_authorizer svc q) Q w"
proof -
  from assms(2) obtain a where "as_authorizer svc (actions w) (aq_operation_id q) (aq_revision q)
      (aq_authorization_reference q) = Some a" "auth_ok a" "valid_identifier (auth_decision_id a)"
    unfolding agreeable_def by blast
  with assms(1) show ?thesis by (simp add: wp_def consult_authorizer_def assms(3))
qed

lemma wp_smooth_gate:
  assumes "smooth svc k texts mark s w" "agreeable svc"
    and "\<And>x w'. conf_ok x \<Longrightarrow> valid_identifier (conf_confirmation_id x) \<Longrightarrow> smooth svc k texts mark s w' \<Longrightarrow> Q x w'"
  shows "wp (consult_gate svc q) Q w"
proof -
  from assms(2) obtain c where "as_gate svc (actions w) (aq_operation_id q) (aq_revision q)
      (aq_confirmation_timeout q) = Some c" "conf_ok c" "valid_identifier (conf_confirmation_id c)"
    unfolding agreeable_def by blast
  with assms(1) show ?thesis by (simp add: wp_def consult_gate_def assms(3))
qed

lemma wp_smooth_probe:
  assumes "smooth svc k texts mark s w" "agreeable svc" "p \<in> set (as_probes svc)"
    and "\<And>x w'. probe_ok x \<Longrightarrow> smooth svc k texts mark s w' \<Longrightarrow> Q x w'"
  shows "wp (run_probe svc q p) Q w"
proof -
  from assms(2,3) obtain x where "probe_run p (actions w) (aq_probe_timeout q) = Some x" "probe_ok x"
    unfolding agreeable_def by blast
  with assms(1) show ?thesis by (simp add: wp_def run_probe_def assms(4))
qed

section \<open>The events of a committing run\<close>

lemma length_phase_string: "length (phase_string ph) \<le> 128"
  by (cases ph) (simp_all add: phase_string_def)

lemma brief_transaction_event:
  assumes "t \<noteq> []" "length t \<le> 128" "valid_identifier op" "txn_event_id x \<noteq> []"
    "length (txn_event_id x) \<le> 128" "length (txn_message x) \<le> 256" "act \<noteq> []" "length act \<le> 128"
  shows "brief 3 (transaction_event x t op num act)"
proof -
  let ?e = "activation_event t (if transaction_ok x then Info else Error) (txn_event_id x) op act
      (if transaction_ok x then ''succeeded'' else ''failed'') (txn_message x) num"
  have e: "brief 1 ?e" by (rule brief_activation_event) (use assms in simp_all)
  then have more: "brief 3 ?e" by (auto simp: brief_def)
  have "brief (Suc (Suc 1)) (add_attribute ''rollback_revision'' (decimal (unat (txn_rollback_revision p)))
      (add_attribute ''phase'' (phase_string (txn_phase p)) ?e))" for p
    by (intro brief_add e) (simp_all add: length_phase_string length_decimal_short)
  then have added: "brief 3 (add_attribute ''rollback_revision'' (decimal (unat (txn_rollback_revision p)))
      (add_attribute ''phase'' (phase_string (txn_phase p)) ?e))" for p
    by (simp only: numeral_3_eq_3 One_nat_def)
  show ?thesis
    unfolding transaction_event_def Let_def
    by (cases "txn_transaction x") (simp_all only: option.case more added)
qed

lemma length_int_string_small: "0 \<le> n \<Longrightarrow> n < 1000 \<Longrightarrow> length (int_string n) \<le> 128"
proof -
  assume n: "0 \<le> n" "n < 1000"
  then have "length (decimal (nat n)) \<le> 3" using length_decimal [of "nat n" 2] by simp
  with n(1) show "length (int_string n) \<le> 128" by (simp add: int_string_def)
qed

lemma accepted_exit [simp]: "process_accepted p \<Longrightarrow> exit_code p = 0"
  by (simp add: process_accepted_def)

lemma classify_accepted [simp]:
  assumes "process_accepted p"
  shows "nv_event_id (classify_validation p) = ''GH-PF-0001''"
    "nv_message (classify_validation p) = ''Native PF validation accepted the candidate.''"
    "nv_exit_code (classify_validation p) = 0"
    "pl_event_id (classify_load p) = ''GH-PF-0002''"
    "pl_message (classify_load p) = ''Native PF activation loaded the revision.''"
    "pl_exit_code (classify_load p) = 0" "pl_status (classify_load p) = Load_loaded"
    "nv_status (classify_validation p) = Native_valid"
  using assms
  by (auto simp: classify_validation_def classify_load_def native_result_of_def load_result_of_def
      process_accepted_def execution_failed_def)

lemma length_bool_string: "length (bool_string b) \<le> 128"
  by (simp add: bool_string_def)

lemma brief_validation_event:
  assumes "t \<noteq> []" "length t \<le> 128" "valid_identifier op" "process_accepted p"
  shows "brief 3 (make_validation_event (classify_validation p) t op num)"
  using assms
  by (simp add: brief_def make_validation_event_def has_required_fields_def attribute_map_def
      valid_identifier_def native_outcome_def length_int_string_small length_decimal_short
      length_bool_string)

lemma brief_load_event:
  assumes "t \<noteq> []" "length t \<le> 128" "valid_identifier op" "process_accepted p" "act \<noteq> []" "length act \<le> 128"
  shows "brief 3 (load_event (classify_load p) t op num act)"
proof -
  let ?e = "activation_event t Info ''GH-PF-0002'' op act ''succeeded''
      ''Native PF activation loaded the revision.'' num"
  have e: "brief 1 ?e" by (rule brief_activation_event) (use assms in simp_all)
  have "brief (Suc (Suc 1)) (add_attribute ''output_truncated'' (bool_string b)
      (add_attribute ''exit_code'' (int_string 0) ?e))" for b
    by (intro brief_add e) (simp_all add: length_bool_string length_int_string_small)
  then show ?thesis using assms(4) by (simp add: load_event_def Let_def numeral_3_eq_3)
qed

section \<open>The stages\<close>

lemma status_committed [simp]:
  "conclude status i m r = r\<lparr>ar_status := status, ar_event_id := i, ar_message := m\<rparr>"
  by (simp add: conclude_def)

abbreviation committed_result :: "activation_result \<Rightarrow> world \<Rightarrow> bool" where
  "committed_result r w \<equiv> ar_status r = Act_committed"

lemma progress_finish:
  assumes "smooth svc (Suc k) texts mark (own_record q previous Committed) w"
    "valid_identifier (aq_operation_id q)"
  shows "wp (finish_commit svc q True r) committed_result w"
  unfolding finish_commit_def
  using assms by (auto simp: Let_def intro!: wp_smooth_log wp_smooth_clear)

lemma transitions:
  "valid_transition Prepared_for_load Target_loaded" "valid_transition Target_loaded Verified"
  "valid_transition Verified Awaiting_confirmation" "valid_transition Awaiting_confirmation Committing"
  "valid_transition Committing Committed"
  by (simp_all add: valid_transition_def)

lemma progress_commit_transaction:
  assumes "smooth svc (Suc (Suc k)) texts mark (own_record q previous Committing) w"
    "valid_identifier (aq_operation_id q)"
  shows "wp (commit_transaction svc q previous r) committed_result w"
  unfolding commit_transaction_def
  using assms
  by (auto intro!: transitions wp_smooth_advance [where p = Committed] wp_smooth_audit [where n = 3]
      brief_transaction_event progress_finish)

lemma progress_commit_marker:
  assumes "smooth svc (Suc (Suc (Suc (Suc k)))) texts mark (own_record q previous Committing) w"
    "valid_identifier (aq_operation_id q)" "texts (aq_revision q) = Some c" "aq_revision q > 0"
  shows "wp (commit_marker svc q previous r) committed_result w"
  unfolding commit_marker_def
  using assms
  by (auto simp: last_known_good_ok_def
      intro!: wp_smooth_log wp_smooth_mark progress_commit_transaction)

lemma progress_advance:
  assumes "smooth svc (Suc k) texts mark (own_record q previous ph) w" "valid_transition ph p"
    "valid_identifier (aq_operation_id q)"
    and "\<And>r w'. smooth svc k texts mark (own_record q previous p) w' \<Longrightarrow> wp (next_stage r) Q w'"
  shows "wp (advance_or_roll_back svc q previous p r next_stage) Q w"
  unfolding advance_or_roll_back_def
  using assms
  by (auto intro!: wp_smooth_advance [where p = p] wp_smooth_audit [where n = 3] brief_transaction_event)

lemma valid_identifier_short: "valid_identifier s \<Longrightarrow> length s \<le> 128"
  by (simp add: valid_identifier_def)

lemma progress_confirm:
  assumes "smooth svc (Suc (Suc (Suc (Suc (Suc (Suc (Suc k))))))) texts mark (own_record q previous Awaiting_confirmation) w"
    "valid_identifier (aq_operation_id q)" "texts (aq_revision q) = Some c" "aq_revision q > 0"
    and "agreeable svc"
  shows "wp (confirm_stage svc q previous r) committed_result w"
  unfolding confirm_stage_def
  using assms
  by (auto simp: conf_ok_def confirmation_event_id_def valid_identifier_short
      intro!: transitions wp_smooth_log wp_smooth_gate progress_advance [where ph = Awaiting_confirmation]
        progress_commit_marker)

lemma progress_probes:
  assumes "agreeable svc" "valid_identifier (aq_operation_id q)" "set ps \<subseteq> set (as_probes svc)"
    "list_all (\<lambda>p. valid_identifier (probe_id p)) ps"
    and "smooth svc (2 * length ps + k) texts mark s w"
    and "\<And>r w'. smooth svc k texts mark s w' \<Longrightarrow> wp (next_stage r) Q w'"
  shows "wp (probe_stage svc q previous ps next_stage r) Q w"
  using assms(3-)
proof (induction ps arbitrary: r w)
  case (Cons p ps)
  have step: "wp (probe_stage svc q previous ps next_stage r1) Q w1"
    if "smooth svc (2 * length ps + k) texts mark s w1" for r1 w1
    using Cons.prems by (intro Cons.IH that) auto
  have "wp (run_probe svc q p) (\<lambda>result. wp (do {
       (ok, r) \<leftarrow> act_log svc q (if probe_ok result then Info else Error)
         (probe_event_id (probe_status result)) ''pf.health_probe''
         (if probe_ok result then ''succeeded''
          else if probe_status result = Probe_timed_out then ''timed_out'' else ''failed'')
         (if probe_ok result then ''Post-activation health probe passed.''
          else ''Post-activation health probe failed.'') (aq_revision q) [(''probe_id'', probe_id p)]
         (r1\<lparr>ar_probe_results := ar_probe_results r1 @ [result]\<rparr>);
       if \<not> ok then rollback_to_previous svc q previous Act_verification_failed_rolled_back
         (probe_event_id (probe_status result)) (probe_message result) True r
       else if \<not> probe_ok result
       then rollback_to_previous svc q previous Act_verification_failed_rolled_back
         (probe_event_id (probe_status result)) (probe_message result) False r
       else probe_stage svc q previous ps next_stage r
     }) Q) w1" if "smooth svc (Suc (2 * length ps + k)) texts mark s w1" for r1 w1
    using Cons.prems assms(1,2)
    by (intro wp_smooth_probe [OF that])
      (auto simp: probe_ok_def probe_event_id_def valid_identifier_short
        intro!: wp_smooth_log step)
  then show ?case
    using Cons.prems assms(2)
    by (auto simp: valid_identifier_short intro!: wp_smooth_log)
qed simp

lemma progress_verify:
  assumes "smooth svc (Suc (2 * length (as_probes svc) + (Suc (Suc (Suc (Suc (Suc (Suc (Suc (Suc (Suc k))))))))))) texts mark (own_record q previous Prepared_for_load) w"
    "valid_identifier (aq_operation_id q)" "texts (aq_revision q) = Some c" "aq_revision q > 0"
    and "agreeable svc" "list_all (\<lambda>p. valid_identifier (probe_id p)) (as_probes svc)"
  shows "wp (verify_stage svc q previous r) committed_result w"
  unfolding verify_stage_def
  using assms
  by (auto intro!: transitions wp_smooth_advance [where p = Target_loaded] wp_smooth_audit [where n = 3]
        brief_transaction_event progress_probes [where texts = texts and mark = mark and
          s = "own_record q previous Target_loaded" and k = "Suc (Suc (Suc (Suc (Suc (Suc (Suc (Suc (Suc k))))))))"] 
        progress_advance [where ph = Target_loaded and p = Verified]
        progress_advance [where ph = Verified and p = Awaiting_confirmation] progress_confirm)

lemma progress_load:
  assumes "smooth svc (Suc (Suc (Suc (Suc (Suc (Suc (Suc (Suc (Suc (Suc (Suc (Suc (2 * length (as_probes svc) + k))))))))))))) texts mark (own_record q previous Prepared_for_load) w"
    "valid_identifier (aq_operation_id q)" "texts (aq_revision q) = Some c" "aq_revision q > 0"
    and "agreeable svc" "list_all (\<lambda>p. valid_identifier (probe_id p)) (as_probes svc)"
    and "runnable (as_loader svc)" "valid_identifier decision"
  shows "wp (load_stage svc q previous decision r) committed_result w"
  unfolding load_stage_def
  using assms
  by (auto simp: valid_identifier_short length_decimal_short
      intro!: wp_smooth_log wp_smooth_load wp_smooth_audit [where n = 3] brief_load_event progress_verify)

lemma progress_begin:
  assumes "smooth svc (Suc (Suc (Suc (Suc (Suc (Suc (Suc (Suc (Suc (Suc (Suc (Suc (Suc (Suc (2 * length (as_probes svc) + k))))))))))))))) texts previous Absent w"
    "valid_identifier (aq_operation_id q)" "texts (aq_revision q) = Some c" "aq_revision q > 0"
    and "agreeable svc" "list_all (\<lambda>p. valid_identifier (probe_id p)) (as_probes svc)"
    and "runnable (as_loader svc)" "valid_identifier decision" "previous > 0" "previous \<noteq> aq_revision q"
  shows "wp (begin_stage svc q previous decision r) committed_result w"
proof -
  have own: "Pending \<lparr>txn_operation_id = aq_operation_id q, txn_target_revision = aq_revision q,
      txn_rollback_revision = previous, txn_phase = Prepared_for_load\<rparr> =
      own_record q previous Prepared_for_load" by (simp add: own_record_def)
  show ?thesis
    unfolding begin_stage_def
    using assms
    by (auto simp: valid_transaction_def word_gt_0 own intro!: wp_smooth_log wp_smooth_begin
        wp_smooth_audit [where n = 3] brief_transaction_event progress_load)
qed

lemma progress_revalidate:
  assumes "smooth svc (Suc (Suc (Suc (Suc (Suc (Suc (Suc (Suc (Suc (Suc (Suc (Suc (Suc (Suc (Suc (Suc (2 * length (as_probes svc) + k))))))))))))))))) texts previous Absent w"
    "valid_identifier (aq_operation_id q)" "texts (aq_revision q) = Some c" "aq_revision q > 0"
    and "agreeable svc" "list_all (\<lambda>p. valid_identifier (probe_id p)) (as_probes svc)"
    and "runnable (as_loader svc)" "runnable (as_validator svc)" "valid_identifier decision"
    and "previous > 0" "previous \<noteq> aq_revision q"
  shows "wp (revalidate_stage svc q previous decision r) committed_result w"
  unfolding revalidate_stage_def
  using assms
  by (auto intro!: wp_smooth_log wp_smooth_check wp_smooth_audit [where n = 3] brief_validation_event
      progress_begin)

lemma progress_resolve:
  assumes "smooth svc (Suc (Suc (Suc (Suc (Suc (Suc (Suc (Suc (Suc (Suc (Suc (Suc (Suc (Suc (Suc (Suc (2 * length (as_probes svc) + k))))))))))))))))) texts previous Absent w" "texts previous = Some c'"
    "valid_identifier (aq_operation_id q)" "texts (aq_revision q) = Some c" "aq_revision q > 0"
    and "agreeable svc" "list_all (\<lambda>p. valid_identifier (probe_id p)) (as_probes svc)"
    and "runnable (as_loader svc)" "runnable (as_validator svc)" "valid_identifier decision"
    and "previous > 0" "previous \<noteq> aq_revision q"
  shows "wp (resolve_stage svc q decision r) committed_result w"
  unfolding resolve_stage_def
  using assms
  by (auto simp: Let_def intro!: wp_smooth_recall wp_smooth_read progress_revalidate)

lemma progress_authorize:
  assumes "smooth svc (Suc (Suc (Suc (Suc (Suc (Suc (Suc (Suc (Suc (Suc (Suc (Suc (Suc (Suc (Suc (Suc (Suc (2 * length (as_probes svc) + k)))))))))))))))))) texts previous Absent w" "texts previous = Some c'"
    "valid_identifier (aq_operation_id q)" "texts (aq_revision q) = Some c" "aq_revision q > 0"
    and "agreeable svc" "list_all (\<lambda>p. valid_identifier (probe_id p)) (as_probes svc)"
    and "runnable (as_loader svc)" "runnable (as_validator svc)"
    and "previous > 0" "previous \<noteq> aq_revision q"
  shows "wp (authorize_stage svc q r) committed_result w"
  unfolding authorize_stage_def
  using assms
  by (auto simp: auth_ok_def authorization_event_id_def valid_identifier_short
      intro!: wp_smooth_authorizer wp_smooth_log progress_resolve)

lemma request_ok:
  assumes "request_problem svc q = None"
  shows "valid_identifier (aq_operation_id q)" "aq_revision q > 0"
    "list_all (\<lambda>p. valid_identifier (probe_id p)) (as_probes svc)"
  using assms by (auto simp: request_problem_def word_gt_0 split: if_splits)

lemma activate_progress:
  assumes "request_problem svc q = None" "separate svc" "calm svc (18 + 2 * length (as_probes svc)) w"
    and "agreeable svc" "runnable (as_loader svc)" "runnable (as_validator svc)"
    and "stored (as_transactions svc) w = Absent" "marker (as_revisions svc) w = Some previous"
    and "revision_text (as_revisions svc) w previous = Some c'"
    and "revision_text (as_revisions svc) w (aq_revision q) = Some c"
    and "previous > 0" "previous \<noteq> aq_revision q"
  shows "wp (activate svc q) committed_result w"
proof -
  have count: "18 + n = Suc (Suc (Suc (Suc (Suc (Suc (Suc (Suc (Suc (Suc (Suc (Suc (Suc (Suc (Suc (Suc (Suc (Suc (n))))))))))))))))))" for n :: nat by simp
  have "smooth svc (Suc (Suc (Suc (Suc (Suc (Suc (Suc (Suc (Suc (Suc (Suc (Suc (Suc (Suc (Suc (Suc (Suc (Suc (2 * length (as_probes svc)))))))))))))))))))) (revision_text (as_revisions svc) w) previous Absent w"
    using assms by (simp only: smooth_def count)
  then show ?thesis
    unfolding activate_def
    using assms request_ok [OF assms(1)]
    by (auto intro!: wp_smooth_log
        progress_authorize [where k = 0 and texts = "revision_text (as_revisions svc) w" and
          previous = previous and c = c and c' = c', simplified])
qed

text \<open>
  C10. Activation is live: if no system call fails, the stores are in good order, the journal has
  room for the run's events, the clock yields usable timestamps, \<open>pfctl\<close> accepts what it
  is given and every provider agrees, then a well-formed request for an archived revision other than
  the current one ends with the status \<open>committed\<close>.
\<close>

theorem activation_completes:
  assumes "request_problem svc q = None" and "separate svc"
    and "calm svc (18 + 2 * length (as_probes svc)) w"
    and "agreeable svc" and "runnable (as_loader svc)" and "runnable (as_validator svc)"
    and "stored (as_transactions svc) w = Absent" and "marker (as_revisions svc) w = Some previous"
    and "revision_text (as_revisions svc) w previous = Some c'"
    and "revision_text (as_revisions svc) w (aq_revision q) = Some c"
    and "previous > 0" and "previous \<noteq> aq_revision q"
  shows "ar_status (fst (run_state (activate svc q) w)) = Act_committed"
  using activate_progress [OF assms] by (simp add: wp_def split_beta)

section \<open>A concrete committing run\<close>

definition sample_revision :: "string \<Rightarrow> node" where
  "sample_revision s =
     \<lparr>kind = Regular_file, owner = 0, group = 0, mode = 384, links = 1, inode = 7, content = s\<rparr>"

definition sample_world :: world where
  "sample_world =
     put_entry (marker_path ''/r'') (Some (sample_revision (decimal 1 @ [newline])))
       (put_entry (revision_path ''/r'' 1) (Some (sample_revision ''block all''))
         (put_entry (revision_path ''/r'' 2) (Some (sample_revision ''pass all''))
           (idle_world\<lparr>clock := \<lambda>_. ''t''\<rparr>)))"

lemma sample_facts:
  "request_problem sample_activation_service sample_activation_request = None"
  "agreeable sample_activation_service"
  "runnable (as_loader sample_activation_service)" "runnable (as_validator sample_activation_service)"
  by (auto simp: request_problem_def sample_activation_request_def sample_activation_service_def
      agreeable_def runnable_def auth_ok_def conf_ok_def probe_ok_def is_absolute_def valid_identifier_def
      identifier_character_def is_ascii_alphanumeric_def is_ascii_letter_def is_ascii_digit_def)

lemma sample_paths [simp]:
  "journal_path ''/j'' \<noteq> revision_path ''/r'' n" "journal_path ''/j'' \<noteq> marker_path ''/r''"
  "transaction_path ''/t'' \<noteq> revision_path ''/r'' n" "transaction_path ''/t'' \<noteq> marker_path ''/r''"
  by (simp_all add: journal_path_def transaction_path_def revision_path_def marker_path_def)

lemma sample_world_sel [simp]:
  "script sample_world = []" "effective_uid sample_world = 0"
  "dirs sample_world = (\<lambda>_. Some private_directory)" "clock sample_world = (\<lambda>_. ''t'')"
  "processes sample_world = (\<lambda>_ _ _ _. silent_success)"
  "entries sample_world = (\<lambda>_. None)
     (revision_path ''/r'' 2 \<mapsto> sample_revision ''pass all'',
      revision_path ''/r'' 1 \<mapsto> sample_revision ''block all'',
      marker_path ''/r'' \<mapsto> sample_revision (decimal 1 @ [newline]))"
  by (simp_all add: sample_world_def idle_world_def put_entry_def)

lemma sample_private [simp]:
  "private_regular_file 0 (sample_revision s)" "content (sample_revision s) = s"
  by (simp_all add: private_regular_file_def sample_revision_def)

lemma sample_names:
  "marker_temporary_name n \<Longrightarrow> (''/r'', n) \<noteq> revision_path ''/r'' r"
  "marker_temporary_name n \<Longrightarrow> (''/r'', n) \<noteq> marker_path ''/r''"
  "(''/t'', n) \<noteq> revision_path ''/r'' r" "(''/t'', n) \<noteq> marker_path ''/r''"
  by (auto simp: revision_path_def marker_path_def)

lemma sample_room: "calm sample_activation_service 22 sample_world"
proof -
  have "archive_ready ''/r'' sample_world"
    by (auto simp: archive_ready_def is_absolute_def sample_names)
  moreover have "store_ready ''/t'' sample_world"
    by (auto simp: store_ready_def is_absolute_def sample_names)
  moreover have "journal_ready ''/j'' sample_world"
    by (simp add: journal_ready_def is_absolute_def)
  moreover have "file_text sample_world (journal_path ''/j'') = []"
    by (simp add: file_text_def)
  ultimately show ?thesis
    by (simp add: calm_def sample_activation_service_def good_clock_def process_accepted_def
        silent_success_def maximum_entry_size_def maximum_journal_size_def)
qed

lemma sample_stores:
  "calm sample_activation_service 20 sample_world"
  "stored (as_transactions sample_activation_service) sample_world = Absent"
  "marker (as_revisions sample_activation_service) sample_world = Some 1"
  "revision_text (as_revisions sample_activation_service) sample_world 1 = Some ''block all''"
  "revision_text (as_revisions sample_activation_service) sample_world 2 = Some ''pass all''"
proof -
  show "calm sample_activation_service 20 sample_world"
    using sample_room by (simp add: calm_def)
  show "stored (as_transactions sample_activation_service) sample_world = Absent"
    by (simp add: stored_def record_view_def sample_activation_service_def)
  show "marker (as_revisions sample_activation_service) sample_world = Some 1"
    using parse_marker_decimal [of 1]
    by (simp add: marker_def marker_view_def marker_intact_def file_size_def decimal.simps
        sample_activation_service_def)
  show "revision_text (as_revisions sample_activation_service) sample_world 1 = Some ''block all''"
    "revision_text (as_revisions sample_activation_service) sample_world 2 = Some ''pass all''"
    by (simp_all add: revision_text_def revision_view_def file_size_def maximum_revision_size_def
        sample_activation_service_def)
qed

lemma sample_request [simp]:
  "aq_revision sample_activation_request = 2" "length (as_probes sample_activation_service) = 1"
  by (simp_all add: sample_activation_request_def sample_activation_service_def)

lemma activation_completes_witness:
  "ar_status (fst (run_state (activate sample_activation_service sample_activation_request) sample_world)) =
     Act_committed"
  using sample_facts sample_stores
  by (intro activation_completes [where previous = 1 and c = "''pass all''" and c' = "''block all''"])
    simp_all

lemma activation_commit_sound_witness:
  "case run_state (activate sample_activation_service sample_activation_request) sample_world of
     (r, w') \<Rightarrow> activation_ok r \<and> marker (as_revisions sample_activation_service) w' = Some 2"
proof -
  obtain r w' where run: "run_state (activate sample_activation_service sample_activation_request) sample_world = (r, w')"
    by fastforce
  have "wp (activate sample_activation_service sample_activation_request) committed_result sample_world"
    using sample_facts sample_stores
    by (intro activate_progress [where previous = 1 and c = "''pass all''" and c' = "''block all''"])
      simp_all
  from wpD [OF this run] have ok: "activation_ok r" by (simp add: activation_ok_def)
  from activation_commit_sound [OF separate_sample run ok] ok run show ?thesis by auto
qed

end
