(* ===== verification/Timestamps.thy ===== *)
theory Timestamps
  imports Activation_Progress "HOL-Library.List_Lexorder" "HOL-Library.Char_ord"
begin

text \<open>
  The timestamps of the events (\<open>system_utc_timestamp\<close>, one copy in each file that logs): the
  system clock in seconds, broken down by \<open>gmtime_r\<close> and printed by \<open>put_time\<close>. The other theories
  take the strings from the clock of the \<open>world\<close>; here they are computed, and shown to be exact,
  ordered and acceptable to the journal. Times before 1970 are not modelled.
\<close>

section \<open>The calendar\<close>

definition leap_year :: "nat \<Rightarrow> bool" where
  "leap_year y \<longleftrightarrow> 4 dvd y \<and> (\<not> 100 dvd y \<or> 400 dvd y)"

definition year_length :: "nat \<Rightarrow> nat" where
  "year_length y = (if leap_year y then 366 else 365)"

text \<open>Months count from zero, as \<open>tm_mon\<close> does.\<close>

definition month_length :: "nat \<Rightarrow> nat \<Rightarrow> nat" where
  "month_length y m =
     (if m = 1 then (if leap_year y then 29 else 28) else if m \<in> {3, 5, 8, 10} then 30 else 31)"

lemma year_length_positive [simp]: "0 < year_length y" by (simp add: year_length_def)
lemma month_length_positive [simp]: "0 < month_length y m" by (simp add: month_length_def)

function split_year :: "nat \<Rightarrow> nat \<Rightarrow> nat \<times> nat" where
  "split_year y d = (if d < year_length y then (y, d) else split_year (Suc y) (d - year_length y))"
  by pat_completeness auto
termination
  by (relation "measure (\<lambda>(y, d). d)") (auto simp: year_length_def)

function split_month :: "nat \<Rightarrow> nat \<Rightarrow> nat \<Rightarrow> nat \<times> nat" where
  "split_month y m d = (if d < month_length y m then (m, d) else split_month y (Suc m) (d - month_length y m))"
  by pat_completeness auto
termination
  by (relation "measure (\<lambda>(y, m, d). d)") (auto simp: month_length_def split: if_splits)

declare split_year.simps [simp del] split_month.simps [simp del]

record broken_down_time =
  tm_year :: nat
  tm_mon :: nat
  tm_mday :: nat
  tm_hour :: nat
  tm_min :: nat
  tm_sec :: nat

text \<open>\<open>gmtime_r\<close> fails when the year does not fit an \<open>int\<close>.\<close>

definition gmtime_r :: "nat \<Rightarrow> broken_down_time option" where
  "gmtime_r time =
     (case split_year 1970 (time div 86400) of
        (year, yday) \<Rightarrow>
          (case split_month year 0 yday of
             (mon, day) \<Rightarrow>
               (if year - 1900 \<ge> 2 ^ 31 then None
                else Some \<lparr>tm_year = year - 1900, tm_mon = mon, tm_mday = Suc day,
                  tm_hour = time mod 86400 div 3600, tm_min = time mod 3600 div 60, tm_sec = time mod 60\<rparr>)))"

text \<open>\<open>put_time\<close> with \<open>%Y-%m-%dT%H:%M:%SZ\<close>.\<close>

definition two_digits :: "nat \<Rightarrow> string" where
  "two_digits n = [digit_char (n div 10), digit_char (n mod 10)]"

definition put_time :: "broken_down_time \<Rightarrow> string" where
  "put_time tm =
     decimal (tm_year tm + 1900) @ CHR ''-'' # two_digits (Suc (tm_mon tm)) @ CHR ''-'' # two_digits (tm_mday tm) @
     CHR ''T'' # two_digits (tm_hour tm) @ CHR '':'' # two_digits (tm_min tm) @ CHR '':'' # two_digits (tm_sec tm) @
     ''Z''"

definition system_utc_timestamp :: "nat \<Rightarrow> string" where
  "system_utc_timestamp time =
     (case gmtime_r time of None \<Rightarrow> ''1970-01-01T00:00:00Z'' | Some tm \<Rightarrow> put_time tm)"

section \<open>What the calendar computes\<close>

lemma split_year_sum:
  "split_year y d = (y', d') \<Longrightarrow>
     y \<le> y' \<and> d' < year_length y' \<and> d = sum_list (map year_length [y..<y']) + d'"
proof (induction y d rule: split_year.induct)
  case (1 y d)
  show ?case
  proof (cases "d < year_length y")
    case True
    with "1.prems" show ?thesis by (auto simp: split_year.simps [of y d])
  next
    case False
    with 1 have IH: "Suc y \<le> y'" "d' < year_length y'"
      "d - year_length y = sum_list (map year_length [Suc y..<y']) + d'"
      by (auto simp: split_year.simps [of y d])
    then have "[y..<y'] = y # [Suc y..<y']" by (simp add: upt_conv_Cons)
    with IH False show ?thesis by simp
  qed
qed

lemma split_month_sum:
  "split_month y m d = (m', d') \<Longrightarrow>
     m \<le> m' \<and> d' < month_length y m' \<and> d = sum_list (map (month_length y) [m..<m']) + d'"
proof (induction y m d rule: split_month.induct)
  case (1 y m d)
  show ?case
  proof (cases "d < month_length y m")
    case True
    with "1.prems" show ?thesis by (auto simp: split_month.simps [of y m d])
  next
    case False
    with 1 have IH: "Suc m \<le> m'" "d' < month_length y m'"
      "d - month_length y m = sum_list (map (month_length y) [Suc m..<m']) + d'"
      by (auto simp: split_month.simps [of y m d])
    then have "[m..<m'] = m # [Suc m..<m']" by (simp add: upt_conv_Cons)
    with IH False show ?thesis by simp
  qed
qed

text \<open>The twelve months make a year, so the month of a day of the year is one of them.\<close>

lemma months_of_year: "sum_list (map (month_length y) [0..<12]) = year_length y"
  by (simp add: upt_rec month_length_def year_length_def)

lemma split_month_bounded:
  assumes "split_month y 0 d = (m, d')" "d < year_length y"
  shows "m < 12"
proof (rule ccontr)
  assume "\<not> m < 12"
  then have "[0..<m] = [0..<12] @ [12..<m]" by (metis le_add_diff_inverse not_less upt_add_eq_append zero_le)
  with split_month_sum [OF assms(1)] months_of_year [of y] assms(2) show False by simp
qed

text \<open>The seconds since 1970 of a date and time.\<close>

definition seconds_since_1970 :: "broken_down_time \<Rightarrow> nat" where
  "seconds_since_1970 tm =
     (let year = tm_year tm + 1900;
          days = sum_list (map year_length [1970..<year]) + sum_list (map (month_length year) [0..<tm_mon tm]) + tm_mday tm - 1
      in ((days * 24 + tm_hour tm) * 60 + tm_min tm) * 60 + tm_sec tm)"

definition civil_time :: "broken_down_time \<Rightarrow> bool" where
  "civil_time tm \<longleftrightarrow>
     70 \<le> tm_year tm \<and> tm_year tm < 2 ^ 31 \<and> tm_mon tm < 12 \<and>
     1 \<le> tm_mday tm \<and> tm_mday tm \<le> month_length (tm_year tm + 1900) (tm_mon tm) \<and>
     tm_hour tm < 24 \<and> tm_min tm < 60 \<and> tm_sec tm < 60"

lemma clock_fields:
  "(t div 86400 * 24 + t mod 86400 div 3600) * 60 * 60 + t mod 3600 div 60 * 60 + t mod 60 = t" for t :: nat
proof -
  have together: "(q * 24 + h) * 60 * 60 + m * 60 + c = t" if "t = q * 86400 + r" "r = h * 3600 + s" "s = m * 60 + c"
    for q r h s m c :: nat using that by simp
  show ?thesis
  proof (rule together)
    show "t = t div 86400 * 86400 + t mod 86400" by (rule div_mult_mod_eq [symmetric])
    have "t mod 86400 mod 3600 = t mod 3600" by (rule mod_mod_cancel) simp
    then show "t mod 86400 = t mod 86400 div 3600 * 3600 + t mod 3600" by (metis div_mult_mod_eq)
    have "t mod 3600 mod 60 = t mod 60" by (rule mod_mod_cancel) simp
    then show "t mod 3600 = t mod 3600 div 60 * 60 + t mod 60" by (metis div_mult_mod_eq)
  qed
qed

lemma gmtime_civil:
  assumes "gmtime_r time = Some tm"
  shows "civil_time tm \<and> seconds_since_1970 tm = time"
proof -
  obtain year yday where y: "split_year 1970 (time div 86400) = (year, yday)" by fastforce
  obtain mon day where m: "split_month year 0 yday = (mon, day)" by fastforce
  note ys = split_year_sum [OF y] and ms = split_month_sum [OF m]
  from ys have "mon < 12" using split_month_bounded [OF m] by simp
  from assms y m have fits: "year - 1900 < 2 ^ 31" and
    tm: "tm = \<lparr>tm_year = year - 1900, tm_mon = mon, tm_mday = Suc day,
      tm_hour = time mod 86400 div 3600, tm_min = time mod 3600 div 60, tm_sec = time mod 60\<rparr>"
    by (auto simp: gmtime_r_def split: if_splits)
  from ys ms have "seconds_since_1970 tm =
      (time div 86400 * 24 + time mod 86400 div 3600) * 60 * 60 + time mod 3600 div 60 * 60 + time mod 60"
    by (simp add: tm seconds_since_1970_def Let_def algebra_simps)
  then have "seconds_since_1970 tm = time" by (simp only: clock_fields)
  moreover have "time mod 86400 div 3600 < 24" "time mod 3600 div 60 < 60"
    by (simp_all add: less_mult_imp_div_less)
  moreover have "70 \<le> year - 1900" using ys by linarith
  ultimately show ?thesis
    using ys ms fits \<open>mon < 12\<close> by (auto simp: civil_time_def tm)
qed

section \<open>Timestamps are exact\<close>

text \<open>A reader: the numbers of a text, in order, and the time they name.\<close>

fun read_numbers :: "nat \<Rightarrow> string \<Rightarrow> nat list" where
  "read_numbers 0 s = []"
| "read_numbers (Suc k) s =
     decimal_value (takeWhile is_ascii_digit s) # read_numbers k (tl (dropWhile is_ascii_digit s))"

definition read_timestamp :: "string \<Rightarrow> nat" where
  "read_timestamp s =
     (case read_numbers 6 s of
        [year, mon, mday, hour, minute, sec] \<Rightarrow>
          seconds_since_1970 \<lparr>tm_year = year - 1900, tm_mon = mon - 1, tm_mday = mday,
            tm_hour = hour, tm_min = minute, tm_sec = sec\<rparr>
      | _ \<Rightarrow> 0)"

lemma two_digits_value [simp]: "n < 100 \<Longrightarrow> decimal_value (two_digits n) = n"
  by (simp add: two_digits_def decimal_value_def less_mult_imp_div_less)

lemma two_digits_digits [simp]: "n < 100 \<Longrightarrow> list_all is_ascii_digit (two_digits n)"
  by (simp add: two_digits_def less_mult_imp_div_less)

lemma length_two_digits [simp]: "length (two_digits n) = 2" by (simp add: two_digits_def)

lemma read_number:
  "list_all is_ascii_digit d \<Longrightarrow> \<not> is_ascii_digit c \<Longrightarrow>
     read_numbers (Suc k) (d @ c # s) = decimal_value d # read_numbers k s"
  by (simp add: list_all_iff)

lemma separators [simp]: "\<not> is_ascii_digit (CHR ''-'')" "\<not> is_ascii_digit (CHR ''T'')"
  "\<not> is_ascii_digit (CHR '':'')" "\<not> is_ascii_digit (CHR ''Z'')"
  by (simp_all add: is_ascii_digit_code)

lemma month_length_bound: "month_length y m \<le> 31" by (simp add: month_length_def)

lemma read_put_time:
  assumes "civil_time tm"
  shows "read_timestamp (put_time tm) = seconds_since_1970 tm"
proof -
  from assms month_length_bound [of "tm_year tm + 1900" "tm_mon tm"]
  have small: "Suc (tm_mon tm) < 100" "tm_mday tm < 100" "tm_hour tm < 100" "tm_min tm < 100" "tm_sec tm < 100"
    by (auto simp: civil_time_def)
  have six: "(6 :: nat) = Suc (Suc (Suc (Suc (Suc (Suc 0)))))" by simp
  from small have "read_numbers 6 (put_time tm) =
      [tm_year tm + 1900, Suc (tm_mon tm), tm_mday tm, tm_hour tm, tm_min tm, tm_sec tm]"
    unfolding six put_time_def by (simp add: read_number decimal_digits del: read_numbers.simps(2))
  then show ?thesis by (simp add: read_timestamp_def seconds_since_1970_def)
qed

lemma first_years: "time < 10 ^ 15 \<Longrightarrow> gmtime_r time \<noteq> None"
proof -
  obtain year yday where y: "split_year 1970 (time div 86400) = (year, yday)" by fastforce
  have "365 * k \<le> sum_list (map year_length [n..<n + k])" for n k
    by (induction k) (auto simp: year_length_def)
  from this [of "year - 1970" 1970] split_year_sum [OF y]
  have "365 * (year - 1970) \<le> time div 86400" by simp
  moreover assume "time < 10 ^ 15"
  then have "time < 1000000000000000" by simp
  moreover have "time div 86400 * 86400 \<le> time" by simp
  ultimately have "year - 1900 < 2147483648" by linarith
  with y show ?thesis by (simp add: gmtime_r_def split: prod.split)
qed

text \<open>
  A timestamp is exact: read back, it is the second it was taken in, for the next thirty million years.
  Two different seconds have different timestamps.
\<close>

theorem timestamp_roundtrip:
  assumes "time < 10 ^ 15"
  shows "read_timestamp (system_utc_timestamp time) = time"
proof -
  obtain tm where tm: "gmtime_r time = Some tm" using first_years [OF assms] by auto
  from gmtime_civil [OF tm] read_put_time [of tm] tm show ?thesis by (simp add: system_utc_timestamp_def)
qed

text \<open>Whatever the system clock says, the journal accepts the timestamp.\<close>

lemma length_put_time: "civil_time tm \<Longrightarrow> length (put_time tm) \<le> 26"
  using length_decimal [of "tm_year tm + 1900" 9] by (simp add: put_time_def civil_time_def)

theorem system_clock_good: "good_clock (\<lambda>n. system_utc_timestamp (seconds n))"
proof -
  have "system_utc_timestamp t \<noteq> [] \<and> length (system_utc_timestamp t) \<le> 128" for t
  proof (cases "gmtime_r t")
    case (Some tm)
    with gmtime_civil [OF Some] length_put_time [of tm] show ?thesis
      by (simp add: system_utc_timestamp_def) (simp add: put_time_def)
  qed (simp add: system_utc_timestamp_def)
  then show ?thesis by (simp add: good_clock_def)
qed

end
