(* ===== verification/Controller.thy ===== *)
theory Controller
  imports Activation_Progress
begin

text \<open>
  The lifecycle of the privileged controller (\<open>privileged_pf_controller.cpp\<close>): startup
  recovery, dispatch of activations, and the degradation to read-only or blocked. The private
  member \<open>state_\<close> is passed in and out; the lifecycle mutex makes every operation one
  step. The safety property ties the lifecycle to the stores: in the state \<open>ready\<close> nothing
  is pending and PF enforces what the last-known-good marker names.
\<close>

section \<open>States and results\<close>

datatype controller_state = Ctl_created | Ctl_starting | Ctl_ready | Ctl_read_only | Ctl_blocked

definition controller_state_string :: "controller_state \<Rightarrow> string" where
  "controller_state_string s =
     (case s of Ctl_created \<Rightarrow> ''created'' | Ctl_starting \<Rightarrow> ''starting'' | Ctl_ready \<Rightarrow> ''ready''
      | Ctl_read_only \<Rightarrow> ''read_only'' | Ctl_blocked \<Rightarrow> ''blocked'')"

datatype startup_status = Startup_ready | Startup_read_only | Startup_blocked

record startup_result =
  su_status :: startup_status
  su_state :: controller_state
  su_event_id :: string
  su_message :: string
  su_recovery :: "recovery_result option"

definition accepts_activations :: "startup_result \<Rightarrow> bool" where
  "accepts_activations r \<longleftrightarrow> su_status r = Startup_ready \<and> su_state r = Ctl_ready"

datatype dispatch_status = Dispatch_completed | Dispatch_not_ready

record dispatch_result =
  di_status :: dispatch_status
  di_state :: controller_state
  di_event_id :: string
  di_message :: string
  di_activation :: "activation_result option"

definition dispatch_ok :: "dispatch_result \<Rightarrow> bool" where
  "dispatch_ok r \<longleftrightarrow>
     di_status r = Dispatch_completed \<and>
     (case di_activation r of None \<Rightarrow> False | Some a \<Rightarrow> activation_ok a)"

definition requires_read_only :: "activation_status \<Rightarrow> bool" where
  "requires_read_only status =
     (case status of
        Act_transaction_conflict \<Rightarrow> True | Act_transaction_store_failed \<Rightarrow> True
      | Act_committed_with_warning \<Rightarrow> True | Act_committed_cleanup_pending \<Rightarrow> True
      | Act_audit_failed \<Rightarrow> True | Act_audit_failed_rolled_back \<Rightarrow> True
      | _ \<Rightarrow> False)"

definition startup_status_of :: "controller_state \<Rightarrow> startup_status" where
  "startup_status_of s =
     (case s of Ctl_ready \<Rightarrow> Startup_ready | Ctl_read_only \<Rightarrow> Startup_read_only
      | _ \<Rightarrow> Startup_blocked)"

section \<open>Operations\<close>

record controller =
  ctl_service :: activation_service
  ctl_journal :: string

definition controller_event ::
  "string \<Rightarrow> severity \<Rightarrow> string \<Rightarrow> string \<Rightarrow> string \<Rightarrow> string \<Rightarrow> string \<Rightarrow> controller_state \<Rightarrow> event" where
  "controller_event timestamp sev event_id op act outcome m st =
     \<lparr>ev_timestamp = timestamp, ev_severity = sev, ev_event_id = event_id,
      ev_component = ''privileged-pf-controller'', ev_operation_id = op, ev_action = act,
      ev_outcome = outcome, ev_message = m,
      ev_attributes = attribute_map [(''controller_state'', controller_state_string st)]\<rparr>"

definition controller_append ::
  "controller \<Rightarrow> severity \<Rightarrow> string \<Rightarrow> string \<Rightarrow> string \<Rightarrow> string \<Rightarrow> string \<Rightarrow> controller_state \<Rightarrow> bool io" where
  "controller_append c sev event_id op act outcome m st = do {
     timestamp \<leftarrow> read_clock;
     j \<leftarrow> journal_append (ctl_journal c) (controller_event timestamp sev event_id op act outcome m st);
     return (journal_ok j)
   }"

definition controller_start ::
  "controller \<Rightarrow> controller_state \<Rightarrow> (startup_result \<times> controller_state) io" where
  "controller_start c st =
     (if st \<noteq> Ctl_created
      then return (\<lparr>su_status = startup_status_of st, su_state = st, su_event_id = ''GH-CTL-1002'',
        su_message = ''Controller startup has already completed or is blocked.'', su_recovery = None\<rparr>, st)
      else do {
        startup_audited \<leftarrow> controller_append c Info ''GH-CTL-0001'' ''controller-startup''
          ''controller.start'' ''started'' ''Controller startup recovery began.'' Ctl_starting;
        recovery \<leftarrow> recover_pending (ctl_service c);
        if \<not> recovery_ok recovery then do {
          controller_append c Critical ''GH-CTL-2001'' ''controller-startup'' ''controller.start''
            ''blocked'' ''Controller blocked because pending activation recovery failed.'' Ctl_blocked;
          return (\<lparr>su_status = Startup_blocked, su_state = Ctl_blocked, su_event_id = ''GH-CTL-2001'',
            su_message = ''Controller blocked because pending activation recovery failed.'',
            su_recovery = Some recovery\<rparr>, Ctl_blocked)
        }
        else if \<not> startup_audited \<or> rec_status recovery = Recovery_audit_failed_recovered then do {
          controller_append c Error ''GH-CTL-2002'' ''controller-startup'' ''controller.start''
            ''read_only'' ''Recovery completed, but audit durability is unavailable.'' Ctl_read_only;
          return (\<lparr>su_status = Startup_read_only, su_state = Ctl_read_only, su_event_id = ''GH-CTL-2002'',
            su_message = ''Recovery completed, but audit durability is unavailable.'',
            su_recovery = Some recovery\<rparr>, Ctl_read_only)
        }
        else do {
          ready_audit \<leftarrow> controller_append c Info ''GH-CTL-0002'' ''controller-startup''
            ''controller.start'' ''ready''
            ''Controller recovery completed and activation dispatch is enabled.'' Ctl_ready;
          return (if \<not> ready_audit
            then (\<lparr>su_status = Startup_read_only, su_state = Ctl_read_only, su_event_id = ''GH-CTL-2002'',
              su_message = ''Recovery completed, but readiness could not be audited durably.'',
              su_recovery = Some recovery\<rparr>, Ctl_read_only)
            else (\<lparr>su_status = Startup_ready, su_state = Ctl_ready, su_event_id = ''GH-CTL-0002'',
              su_message = ''Controller is ready to dispatch activation requests.'',
              su_recovery = Some recovery\<rparr>, Ctl_ready))
        }
      })"

definition controller_activate ::
  "controller \<Rightarrow> controller_state \<Rightarrow> activation_request \<Rightarrow> (dispatch_result \<times> controller_state) io" where
  "controller_activate c st q =
     (if st \<noteq> Ctl_ready then do {
        controller_append c Warning ''GH-CTL-1001'' ''controller-dispatch'' ''controller.activate''
          ''rejected'' ''Activation dispatch rejected because the controller is not ready.'' st;
        return (\<lparr>di_status = Dispatch_not_ready, di_state = st, di_event_id = ''GH-CTL-1001'',
          di_message = ''Activation dispatch rejected because the controller is not ready.'',
          di_activation = None\<rparr>, st)
      }
      else do {
        activation \<leftarrow> activate (ctl_service c) q;
        if ar_status activation = Act_rollback_failed then do {
          controller_append c Critical ''GH-CTL-2003'' (aq_operation_id q) ''controller.activate''
            ''blocked'' ''Controller blocked after a critical activation rollback failure.'' Ctl_blocked;
          return (\<lparr>di_status = Dispatch_completed, di_state = Ctl_blocked, di_event_id = ''GH-CTL-2003'',
            di_message = ''Controller blocked after a critical activation rollback failure.'',
            di_activation = Some activation\<rparr>, Ctl_blocked)
        }
        else if requires_read_only (ar_status activation) then do {
          controller_append c Error ''GH-CTL-2004'' (aq_operation_id q) ''controller.activate''
            ''read_only'' ''Controller entered read-only mode after activation safety state degraded.''
            Ctl_read_only;
          return (\<lparr>di_status = Dispatch_completed, di_state = Ctl_read_only, di_event_id = ''GH-CTL-2004'',
            di_message = ''Controller entered read-only mode after activation safety state degraded.'',
            di_activation = Some activation\<rparr>, Ctl_read_only)
        }
        else return (\<lparr>di_status = Dispatch_completed, di_state = st, di_event_id = ar_event_id activation,
          di_message = ar_message activation, di_activation = Some activation\<rparr>, st)
      })"

section \<open>The lifecycle as a step relation\<close>

text \<open>
  The main program gives the controller and its activation service the same journal, and three
  different roots to journal, archive and record store.
\<close>

definition wired :: "controller \<Rightarrow> bool" where
  "wired c \<longleftrightarrow> separate (ctl_service c) \<and> ctl_journal c = as_journal (ctl_service c)"

text \<open>
  What may happen between two operations: anything to the files, faults and counters, as long as
  record, marker and archived revisions stay and no process is started. Preparation is such a step.
\<close>

definition outside_step :: "activation_service \<Rightarrow> world \<Rightarrow> world \<Rightarrow> bool" where
  "outside_step svc w w' \<longleftrightarrow>
     effective_uid w' = effective_uid w \<and> loads w' = loads w \<and>
     stored (as_transactions svc) w' = stored (as_transactions svc) w \<and>
     marker (as_revisions svc) w' = marker (as_revisions svc) w \<and>
     (\<forall>num text. revision_text (as_revisions svc) w num = Some text \<longrightarrow>
        revision_text (as_revisions svc) w' num = Some text)"

text \<open>\<open>lifecycle c st0 w0 st w\<close>: a process that was in state \<open>st0\<close> and world
  \<open>w0\<close> can come to \<open>st\<close> and \<open>w\<close>.\<close>

inductive lifecycle :: "controller \<Rightarrow> controller_state \<Rightarrow> world \<Rightarrow> controller_state \<Rightarrow> world \<Rightarrow> bool"
  for c st0 w0 where
  here: "lifecycle c st0 w0 st0 w0"
| start: "lifecycle c st0 w0 st w \<Longrightarrow> run_state (controller_start c st) w = ((r, st'), w') \<Longrightarrow>
    lifecycle c st0 w0 st' w'"
| dispatch: "lifecycle c st0 w0 st w \<Longrightarrow> run_state (controller_activate c st q) w = ((d, st'), w') \<Longrightarrow>
    lifecycle c st0 w0 st' w'"
| outside: "lifecycle c st0 w0 st w \<Longrightarrow> outside_step (ctl_service c) w w' \<Longrightarrow> lifecycle c st0 w0 st w'"

section \<open>A ready controller is consistent\<close>

text \<open>\<open>l\<close> is an accepted load of the revision the marker names, with its archived
  text.\<close>

definition enforces :: "activation_service \<Rightarrow> firewall_view \<Rightarrow> load_record \<Rightarrow> bool" where
  "enforces svc v l \<longleftrightarrow>
     (\<exists>num text. fv_marker v = Some num \<and> fv_texts v num = Some text \<and> ld_texts l num = Some text \<and>
        ld_path l = path_string (revision_path (as_revisions svc) num) \<and> ld_accepted l)"

text \<open>Nothing pending, and the last load beyond the first \<open>n\<close>, if there is one, is in force.\<close>

definition consistent :: "activation_service \<Rightarrow> nat \<Rightarrow> firewall_view \<Rightarrow> bool" where
  "consistent svc n v \<longleftrightarrow>
     fv_pending v = Absent \<and> (n < length (fv_loads v) \<longrightarrow> enforces svc v (last (fv_loads v)))"

definition lifecycle_invariant :: "controller \<Rightarrow> nat \<Rightarrow> controller_state \<Rightarrow> firewall_view \<Rightarrow> bool" where
  "lifecycle_invariant c n st v \<longleftrightarrow>
     (case st of Ctl_created \<Rightarrow> length (fv_loads v) = n | Ctl_ready \<Rightarrow> consistent (ctl_service c) n v
      | Ctl_starting \<Rightarrow> False | _ \<Rightarrow> True)"

lemma lifecycle_invariant_simps [simp]:
  "lifecycle_invariant c n Ctl_created v \<longleftrightarrow> length (fv_loads v) = n"
  "lifecycle_invariant c n Ctl_ready v \<longleftrightarrow> consistent (ctl_service c) n v"
  "lifecycle_invariant c n Ctl_read_only v" "lifecycle_invariant c n Ctl_blocked v"
  "\<not> lifecycle_invariant c n Ctl_starting v"
  by (simp_all add: lifecycle_invariant_def)

lemma wp_controller_append:
  assumes "wired c" "situation (ctl_service c) w0 ms v w"
    and "\<And>ok w'. situation (ctl_service c) w0 ms v w' \<Longrightarrow> Q ok w'"
  shows "wp (controller_append c sev i op act outcome m st) Q w"
  unfolding controller_append_def
  using assms(1,2)
  by (auto simp: wired_def intro!: wp_journal_append_audited assms(3) intro: situation_audited)

lemma wp_controller_append_any:
  "(\<And>ok w'. Q ok w') \<Longrightarrow> wp (controller_append c sev i op act outcome m st) Q w"
  by (simp add: wpI)

lemma consistent_recovered:
  assumes "recovery_conclusion svc w0 v r w" "recovery_ok r" "length (fv_loads v) = n"
  obtains v' where "situation svc w0 [] v' w" "consistent svc n v'"
proof -
  note concl = assms(1) [unfolded recovery_conclusion_def]
  show thesis
  proof (cases "fv_pending v")
    case Absent
    with concl assms(2,3) show thesis by (intro that [of v]) (auto simp: consistent_def)
  next
    case Unreadable
    with concl assms(2) show thesis by simp
  next
    case (Pending t)
    with concl assms(2) have sit: "situation svc w0 [] (recovered_view svc t v) w"
      and archived: "txn_phase t \<noteq> Committed \<longrightarrow> fv_texts v (txn_rollback_revision t) \<noteq> None"
      by (auto simp: recovery_outcome_def)
    from archived assms(3) have "consistent svc n (recovered_view svc t v)"
      by (auto simp: consistent_def recovered_view_def enforces_def rollback_load_def)
    with sit show thesis by (rule that)
  qed
qed

lemma recovery_situation:
  assumes "recovery_conclusion svc w0 v r w"
  obtains v' where "situation svc w0 [] v' w"
  using assms
  by (cases "fv_pending v") (auto simp: recovery_conclusion_def recovery_outcome_def split: if_splits)

text \<open>An activation that leaves the controller ready leaves it consistent.\<close>

lemma consistent_activated:
  assumes "activation_outcome svc w0 q v r w" "consistent svc n v"
    and "ar_status r \<noteq> Act_rollback_failed" "\<not> requires_read_only (ar_status r)"
  obtains v' ms where "situation svc w0 ms v' w" "consistent svc n v'"
proof -
  have settled: "consistent svc n (settled_view (fv_texts v) num Absent (ls @ [l]))"
    if "guarded_load svc q previous (fv_texts v) num True l" "fv_texts v num \<noteq> None" for num l ls previous
    using that by (auto simp: consistent_def enforces_def guarded_load_def)
  from assms(1) consider "untouched svc w0 q v r w"
    | previous chk where "fv_texts v previous \<noteq> None" "fv_texts v (aq_revision q) \<noteq> None"
        "attempted svc w0 q v previous chk r w"
    by (auto simp: activation_outcome_def)
  then show thesis
  proof cases
    case 1
    with assms(4) have "situation svc w0 [] v w"
      by (auto simp: untouched_def requires_read_only_def)
    then show thesis using assms(2) by (rule that)
  next
    case 2
    from 2(3) consider ls where "undone svc w0 q previous [authorization_milestone q, chk] (fv_texts v) ls r w"
      | ms l where "guarded_load svc q previous (fv_texts v) (aq_revision q) True l"
          "committed_run svc w0 q previous ms (fv_texts v) (fv_loads v @ [l]) r w"
      unfolding attempted_def Let_def by blast
    then show thesis
    proof cases
      case (1 ls)
      with assms(3) obtain l where "guarded_load svc q previous (fv_texts v) previous True l"
        "situation svc w0 [authorization_milestone q, chk] (settled_view (fv_texts v) previous Absent (ls @ [l])) w"
        unfolding undone_def by auto
      with settled 2(1) show thesis by (blast intro: that)
    next
      case (2 ms l)
      with assms(4) have "situation svc w0 ms (settled_view (fv_texts v) (aq_revision q) Absent (fv_loads v @ [l])) w"
        by (auto simp: committed_run_def requires_read_only_def)
      with settled 2(1) \<open>fv_texts v (aq_revision q) \<noteq> None\<close> show thesis by (blast intro: that)
    qed
  qed
qed

text \<open>Each operation keeps the invariant; only \<open>firewall_view\<close> of the new world matters.\<close>

definition keeps_invariant :: "controller \<Rightarrow> nat \<Rightarrow> 'r \<times> controller_state \<Rightarrow> world \<Rightarrow> bool" where
  "keeps_invariant c n x w \<longleftrightarrow> lifecycle_invariant c n (snd x) (firewall_view (ctl_service c) w)"

lemma situation_view: "situation svc w0 ms v w \<Longrightarrow> firewall_view svc w = v"
  by (simp add: situation_def)

lemma wp_controller_start:
  assumes "wired c" "lifecycle_invariant c n st (firewall_view (ctl_service c) w)"
  shows "wp (controller_start c st) (keeps_invariant c n) w"
proof (cases "st = Ctl_created")
  case False
  then show ?thesis using assms(2) by (simp add: controller_start_def keeps_invariant_def)
next
  case True
  let ?svc = "ctl_service c"
  have sep: "separate ?svc" using assms(1) by (simp add: wired_def)
  have start: "situation ?svc w [] (firewall_view ?svc w) w" by (rule situation_start)
  have recovered: "wp (recover_pending ?svc) (\<lambda>r w'. (\<exists>v. situation ?svc w1 [] v w') \<and>
      (recovery_ok r \<longrightarrow> (\<exists>v. situation ?svc w1 [] v w' \<and> consistent ?svc n v))) w1"
    if "situation ?svc w [] (firewall_view ?svc w) w1" for w1
  proof (rule wp_mono [OF wp_recover_pending [OF sep]])
    fix r w' assume concl: "recovery_conclusion ?svc w1 (firewall_view ?svc w1) r w'"
    have "length (fv_loads (firewall_view ?svc w1)) = n"
      using situation_view [OF that] assms(2) True by simp
    with concl show "(\<exists>v. situation ?svc w1 [] v w') \<and>
        (recovery_ok r \<longrightarrow> (\<exists>v. situation ?svc w1 [] v w' \<and> consistent ?svc n v))"
      by (blast elim: recovery_situation consistent_recovered)
  qed
  show ?thesis
    unfolding controller_start_def
  proof (simp only: True simp_thms if_False wp_simp, rule wp_controller_append [OF assms(1) start],
      simp only: wp_simp, rule wp_mono [OF recovered], assumption, goal_cases)
    case (1 audited w1 r w2)
    then obtain v where v: "situation ?svc w1 [] v w2" "recovery_ok r \<longrightarrow> consistent ?svc n v"
      by (cases "recovery_ok r") blast+
    show ?case
      using v(2) by (auto simp: keeps_invariant_def simp del: firewall_view_sel dest: situation_view
          intro!: wp_controller_append [OF assms(1) v(1)])
  qed
qed

lemma wp_controller_activate:
  assumes "wired c" "lifecycle_invariant c n st (firewall_view (ctl_service c) w)"
  shows "wp (controller_activate c st q) (keeps_invariant c n) w"
proof -
  let ?svc = "ctl_service c"
  have sep: "separate ?svc" using assms(1) by (simp add: wired_def)
  have start: "situation ?svc w [] (firewall_view ?svc w) w" by (rule situation_start)
  show ?thesis
  proof (cases "st = Ctl_ready")
    case False
    then show ?thesis
      unfolding controller_activate_def
      by (simp only: simp_thms if_True wp_simp, intro wp_controller_append [OF assms(1) start])
        (use assms(2) in \<open>auto simp: keeps_invariant_def dest: situation_view\<close>)
  next
    case True
    show ?thesis
      unfolding controller_activate_def
    proof (simp only: True simp_thms if_False wp_simp, rule wp_mono [OF wp_activate [OF sep]], goal_cases)
      case (1 r w1)
      have "consistent ?svc n (firewall_view ?svc w1)"
        if "ar_status r \<noteq> Act_rollback_failed" "\<not> requires_read_only (ar_status r)"
        by (rule consistent_activated [OF 1 _ that]) (use assms(2) True in \<open>auto dest: situation_view\<close>)
      then show ?case by (auto simp: keeps_invariant_def intro!: wp_controller_append_any)
    qed
  qed
qed

lemma lifecycle_keeps_invariant:
  assumes "lifecycle c st0 w0 st w" "wired c"
    and "lifecycle_invariant c n st0 (firewall_view (ctl_service c) w0)"
  shows "lifecycle_invariant c n st (firewall_view (ctl_service c) w)"
  using assms(1)
proof (induction rule: lifecycle.induct)
  case here
  show ?case by (rule assms(3))
next
  case (start st w r st' w')
  from wpD [OF wp_controller_start [OF assms(2) start.IH] start.hyps(2)]
  show ?case by (simp add: keeps_invariant_def)
next
  case (dispatch st w q d st' w')
  from wpD [OF wp_controller_activate [OF assms(2) dispatch.IH] dispatch.hyps(2)]
  show ?case by (simp add: keeps_invariant_def)
next
  case (outside st w w')
  then have "fv_pending (firewall_view (ctl_service c) w') = fv_pending (firewall_view (ctl_service c) w)"
    "fv_loads (firewall_view (ctl_service c) w') = fv_loads (firewall_view (ctl_service c) w)"
    "enforces (ctl_service c) (firewall_view (ctl_service c) w) l \<Longrightarrow>
       enforces (ctl_service c) (firewall_view (ctl_service c) w') l" for l
    by (auto simp: outside_step_def enforces_def)
  with outside.IH show ?case
    by (auto simp: lifecycle_invariant_def consistent_def split: controller_state.splits simp del: firewall_view_sel)
qed

text \<open>
  C2. Whenever the controller is ready, after any sequence of startups, dispatched activations
  (under any pattern of failing system calls and any answers of the providers) and steps of other
  components, no pending transaction is on disk; and if this process has loaded a rule set at all,
  the last one it loaded was accepted by \<open>pfctl\<close> and is the archived text of the revision that
  the last-known-good marker names.
\<close>

theorem ready_controller_consistent:
  assumes "wired c" and "lifecycle c Ctl_created w0 Ctl_ready w"
  shows "stored (as_transactions (ctl_service c)) w = Absent \<and>
     (length (loads w0) < length (loads w) \<longrightarrow>
        (case last (loads w) of (p, fs, process) \<Rightarrow>
           process_accepted process \<and>
           (\<exists>num text. marker (as_revisions (ctl_service c)) w = Some num \<and>
              p = path_string (revision_path (as_revisions (ctl_service c)) num) \<and>
              revision_text (as_revisions (ctl_service c)) w num = Some text \<and>
              revision_view (effective_uid w) (fs (revision_path (as_revisions (ctl_service c)) num)) = Some text)))"
proof -
  have "consistent (ctl_service c) (length (loads w0)) (firewall_view (ctl_service c) w)"
    using lifecycle_keeps_invariant [OF assms(2,1), of "length (loads w0)"] by simp
  moreover have "last (map f (loads w)) = f (last (loads w))"
    if "length (loads w0) < length (loads w)" for f :: "_ \<Rightarrow> load_record"
    by (rule last_map) (use that in auto)
  ultimately show ?thesis
    by (auto simp: consistent_def enforces_def load_view_def split: prod.splits)
qed

section \<open>Only a ready controller acts\<close>

text \<open>How far a controller has degraded.\<close>

definition degradation :: "controller_state \<Rightarrow> nat" where
  "degradation st =
     (case st of Ctl_created \<Rightarrow> 0 | Ctl_starting \<Rightarrow> 0 | Ctl_ready \<Rightarrow> 1 | Ctl_read_only \<Rightarrow> 2
      | Ctl_blocked \<Rightarrow> 3)"

lemma degradation_simps [simp]:
  "degradation Ctl_created = 0" "degradation Ctl_ready = 1" "degradation Ctl_read_only = 2"
  "degradation Ctl_blocked = 3"
  by (simp_all add: degradation_def)

lemma degradation_ready: "st \<noteq> Ctl_created \<Longrightarrow> st \<noteq> Ctl_starting \<Longrightarrow> 1 \<le> degradation st"
  by (cases st) simp_all

lemma wp_start_degrades:
  "wp (controller_start c st) (\<lambda>x w'. degradation st \<le> degradation (snd x) \<and> (snd x = Ctl_starting \<longrightarrow> st = Ctl_starting)) w"
proof (cases "st = Ctl_created")
  case True
  then show ?thesis
    by (auto simp: controller_start_def wp_def split: prod.splits)
qed (simp add: controller_start_def)

lemma wp_activate_degrades:
  "wp (controller_activate c st q) (\<lambda>x w'. degradation st \<le> degradation (snd x) \<and> (snd x = Ctl_starting \<longrightarrow> st = Ctl_starting)) w"
  by (cases "st = Ctl_ready") (auto simp: controller_activate_def wp_def split: prod.splits)

text \<open>
  Degradation is permanent: within one process a controller that has become read-only or
  blocked never becomes ready again, a blocked one stays blocked, and no operation ends in the
  transient state \<open>starting\<close>.
\<close>

theorem degradation_permanent:
  assumes "lifecycle c st0 w0 st w" and "st0 \<noteq> Ctl_starting"
  shows "degradation st0 \<le> degradation st \<and> st \<noteq> Ctl_starting"
  using assms
proof (induction rule: lifecycle.induct)
  case (start st w r st' w')
  from wpD [OF wp_start_degrades start.hyps(2)] start show ?case by auto
next
  case (dispatch st w q d st' w')
  from wpD [OF wp_activate_degrades dispatch.hyps(2)] dispatch show ?case by auto
qed auto

lemma audited_at_most_one:
  "audited root (if b then [e] else []) w w' \<Longrightarrow> \<exists>es. length es \<le> Suc 0 \<and> audited root es w w'"
  by (rule exI [of _ "if b then [e] else []"]) simp

text \<open>
  A controller that is not ready refuses every activation: it answers
  \<open>controller_not_ready\<close>, keeps its state, consults no provider, starts no process and
  leaves archive, marker and record alone; at most the refusal is logged.
\<close>

theorem dispatch_requires_ready:
  assumes "wired c" and "st \<noteq> Ctl_ready"
    and "run_state (controller_activate c st q) w = ((r, st'), w')"
  shows "st' = st \<and> di_status r = Dispatch_not_ready \<and> di_activation r = None \<and> \<not> dispatch_ok r \<and>
     firewall_view (ctl_service c) w' = firewall_view (ctl_service c) w \<and>
     (\<exists>es. length es \<le> 1 \<and> actions w' = actions w @ map Audited es)"
proof -
  have "wp (controller_activate c st q) (\<lambda>x w'. snd x = st \<and> di_status (fst x) = Dispatch_not_ready \<and>
      di_activation (fst x) = None \<and> \<not> dispatch_ok (fst x) \<and>
      (\<exists>es. length es \<le> 1 \<and> audited (as_journal (ctl_service c)) es w w')) w"
    using assms(1,2)
    by (auto simp: controller_activate_def controller_append_def wired_def dispatch_ok_def
        intro!: wp_journal_append_audited intro: audited_at_most_one)
  from wpD [OF this assms(3)] obtain es where r: "st' = st" "di_status r = Dispatch_not_ready"
    "di_activation r = None" "\<not> dispatch_ok r" and es: "length es \<le> 1"
    "audited (as_journal (ctl_service c)) es w w'"
    by auto
  have "firewall_view (ctl_service c) w' = firewall_view (ctl_service c) w"
    using assms(1) es(2) by (intro view_audited) (auto simp: wired_def)
  moreover have "actions w' = actions w @ map Audited es"
    using es(2) by (simp add: audited_def)
  ultimately show ?thesis using r es(1) by (auto simp del: firewall_view_sel)
qed

section \<open>A controller that serves\<close>

lemma smooth_errno [simp]:
  "smooth svc k texts mark s (w\<lparr>last_errno := e\<rparr>) = smooth svc k texts mark s w"
  by (simp add: smooth_def calm_def journal_ready_def archive_ready_def store_ready_def cong: option.case_cong)

lemma wp_smooth_no_pending:
  assumes "smooth svc k texts mark Absent w"
    and "\<And>r w'. rec_status r = Recovery_no_pending \<Longrightarrow> smooth svc k texts mark Absent w' \<Longrightarrow> Q r w'"
  shows "wp (recover_pending svc) Q w"
proof -
  from assms(1) have w: "script w = []" "is_absolute (as_transactions svc)"
    "\<exists>d. dirs w (as_transactions svc) = Some d \<and> safe_directory (effective_uid w) d"
    "entries w (transaction_path (as_transactions svc)) = None"
    by (auto simp: smooth_def calm_def store_ready_def stored_def record_view_def
        split: option.splits if_splits)
  then obtain d where d: "dirs w (as_transactions svc) = Some d" "safe_directory (effective_uid w) d"
    by blast
  then have "kind d = Directory" by (simp add: safe_directory_def)
  with w d have "\<exists>r. run_state (load_transaction (as_transactions svc)) w = (r, w\<lparr>last_errno := ENOENT\<rparr>) \<and>
      txn_status r = Txn_no_pending"
    by (simp add: load_transaction_def open_safe_root_def saved_errno_def)
  then show ?thesis
    unfolding recover_pending_def by (auto simp: wp_def intro!: assms(2)) (simp_all add: assms(1))
qed

lemma wp_smooth_controller_append:
  assumes "wired c" "smooth (ctl_service c) (Suc k) texts mark s w"
    and "i \<noteq> []" "length i \<le> 128" "valid_identifier op" "act \<noteq> []" "length act \<le> 128" "outcome \<noteq> []"
    and "length outcome \<le> 128" "length m \<le> 256"
    and "\<And>w'. smooth (ctl_service c) k texts mark s w' \<Longrightarrow> Q True w'"
  shows "wp (controller_append c sev i op act outcome m st) Q w"
proof -
  let ?w = "w\<lparr>clock_reads := Suc (clock_reads w)\<rparr>"
  have clock: "clock w (clock_reads w) \<noteq> []" "length (clock w (clock_reads w)) \<le> 128"
    using assms(2) by (simp_all add: smooth_def calm_def good_clock_def)
  have "length (controller_state_string st) \<le> 128"
    by (cases st) (simp_all add: controller_state_string_def)
  with clock assms(3-10) have "brief 1 (controller_event (clock w (clock_reads w)) sev i op act outcome m st)"
    by (simp add: brief_def controller_event_def has_required_fields_def valid_identifier_def attribute_map_def)
  moreover have "smooth (ctl_service c) (Suc k) texts mark s ?w" using assms(2) by simp
  ultimately have "wp (journal_append (ctl_journal c) (controller_event (clock w (clock_reads w)) sev i op act outcome m st))
      (\<lambda>r w'. journal_ok r \<and> smooth (ctl_service c) k texts mark s w') ?w"
    using assms(1) smooth_journal by (fastforce simp: wired_def)
  then show ?thesis
    unfolding controller_append_def by (simp only: wp_simp) (erule wp_mono, auto intro: assms(11))
qed

lemma progress_start:
  assumes "wired c" "smooth (ctl_service c) (Suc (Suc k)) texts mark Absent w"
  shows "wp (controller_start c Ctl_created)
    (\<lambda>(r, st) w'. accepts_activations r \<and> st = Ctl_ready \<and> smooth (ctl_service c) k texts mark Absent w') w"
  unfolding controller_start_def
  using assms
  by (auto simp: accepts_activations_def recovery_ok_def valid_identifier_def identifier_character_def
      is_ascii_alphanumeric_def is_ascii_letter_def
      intro!: wp_smooth_controller_append wp_smooth_no_pending)

text \<open>
  C9. The controller is live: from stores in good order with nothing pending, room in the journal,
  no failing call and agreeing providers, a fresh controller starts, accepts activations, and
  commits a well-formed request for an archived revision other than the current one; it is still
  ready afterwards.
\<close>

theorem controller_serves:
  assumes "wired c" and "request_problem (ctl_service c) q = None"
    and "calm (ctl_service c) (20 + 2 * length (as_probes (ctl_service c))) w"
    and "agreeable (ctl_service c)" and "runnable (as_loader (ctl_service c))"
    and "runnable (as_validator (ctl_service c))"
    and "stored (as_transactions (ctl_service c)) w = Absent"
    and "marker (as_revisions (ctl_service c)) w = Some previous"
    and "revision_text (as_revisions (ctl_service c)) w previous = Some c'"
    and "revision_text (as_revisions (ctl_service c)) w (aq_revision q) = Some c''"
    and "previous > 0" and "previous \<noteq> aq_revision q"
  shows "case run_state (do { (started, st) \<leftarrow> controller_start c Ctl_created;
        (answer, st') \<leftarrow> controller_activate c st q; return (started, answer, st') }) w of
     ((started, answer, st'), w') \<Rightarrow>
       accepts_activations started \<and> dispatch_ok answer \<and> st' = Ctl_ready \<and>
       map_option ar_status (di_activation answer) = Some Act_committed"
proof -
  let ?svc = "ctl_service c" and ?k = "18 + 2 * length (as_probes (ctl_service c))"
  have sep: "separate ?svc" using assms(1) by (simp add: wired_def)
  have "smooth ?svc (Suc (Suc ?k)) (revision_text (as_revisions ?svc) w) previous Absent w"
    using assms(3,7,8) sep by (simp add: smooth_def)
  from progress_start [OF assms(1) this]
  have "wp (do { (started, st) \<leftarrow> controller_start c Ctl_created;
        (answer, st') \<leftarrow> controller_activate c st q; return (started, answer, st') })
      (\<lambda>(started, answer, st') w'. accepts_activations started \<and> dispatch_ok answer \<and> st' = Ctl_ready \<and>
         map_option ar_status (di_activation answer) = Some Act_committed) w"
  proof (simp only: wp_simp, elim wp_mono, goal_cases)
    case (1 x w1)
    then obtain started where x: "x = (started, Ctl_ready)" "accepts_activations started"
      and smooth: "smooth ?svc ?k (revision_text (as_revisions ?svc) w) previous Absent w1" by auto
    have "wp (activate ?svc q) committed_result w1"
      by (rule activate_progress) (use smooth assms in \<open>simp_all add: smooth_def\<close>)
    then have "wp (controller_activate c Ctl_ready q) (\<lambda>(answer, st') w'. dispatch_ok answer \<and> st' = Ctl_ready \<and>
        map_option ar_status (di_activation answer) = Some Act_committed) w1"
      by (simp add: controller_activate_def) (erule wp_mono,
        simp add: requires_read_only_def dispatch_ok_def activation_ok_def)
    then show ?case
      by (simp add: x split_beta) (erule wp_mono, simp add: x split_beta)
  qed
  then show ?thesis by (simp add: wp_def split_beta)
qed

section \<open>Concrete instances\<close>

definition sample_controller :: controller where
  "sample_controller = \<lparr>ctl_service = sample_activation_service, ctl_journal = ''/j''\<rparr>"

lemma sample_controller_sel [simp]:
  "ctl_service sample_controller = sample_activation_service" "wired sample_controller"
  by (simp_all add: sample_controller_def wired_def) (simp add: sample_activation_service_def)

lemma controller_serves_witness:
  "case run_state (do { (started, st) \<leftarrow> controller_start sample_controller Ctl_created;
        (answer, st') \<leftarrow> controller_activate sample_controller st sample_activation_request;
        return (started, answer, st') }) sample_world of
     ((started, answer, st'), w') \<Rightarrow> dispatch_ok answer \<and> st' = Ctl_ready"
  using controller_serves [of sample_controller sample_activation_request sample_world 1 "''block all''" "''pass all''"]
    sample_facts sample_stores sample_room
  by (simp add: split_beta)

lemma sample_starts:
  obtains r w where "run_state (controller_start sample_controller Ctl_created) sample_world = ((r, Ctl_ready), w)"
proof -
  have "smooth sample_activation_service (Suc (Suc 20)) (revision_text (as_revisions sample_activation_service) sample_world)
      1 Absent sample_world"
    using sample_stores sample_room by (simp add: smooth_def)
  then have "wp (controller_start sample_controller Ctl_created)
      (\<lambda>(r, st) w'. accepts_activations r \<and> st = Ctl_ready \<and>
         smooth sample_activation_service 20 (revision_text (as_revisions sample_activation_service) sample_world) 1 Absent w')
      sample_world"
    using progress_start [of sample_controller] by simp
  then show thesis by (auto simp: wp_def split: prod.splits intro: that)
qed

lemma ready_controller_consistent_witness:
  "\<exists>r w. run_state (controller_start sample_controller Ctl_created) sample_world = ((r, Ctl_ready), w) \<and>
     stored (as_transactions sample_activation_service) w = Absent"
proof -
  obtain r w where run: "run_state (controller_start sample_controller Ctl_created) sample_world = ((r, Ctl_ready), w)"
    by (rule sample_starts)
  have "lifecycle sample_controller Ctl_created sample_world Ctl_ready w"
    by (rule lifecycle.start [OF lifecycle.here run])
  from ready_controller_consistent [OF _ this] run show ?thesis by auto
qed

lemma degradation_permanent_witness:
  "\<exists>w. lifecycle sample_controller Ctl_created sample_world Ctl_ready w \<and>
     degradation Ctl_created \<le> degradation Ctl_ready"
proof -
  obtain r w where run: "run_state (controller_start sample_controller Ctl_created) sample_world = ((r, Ctl_ready), w)"
    by (rule sample_starts)
  have "lifecycle sample_controller Ctl_created sample_world Ctl_ready w"
    by (rule lifecycle.start [OF lifecycle.here run])
  with degradation_permanent [OF this] show ?thesis by auto
qed

lemma dispatch_requires_ready_witness:
  "case run_state (controller_activate sample_controller Ctl_created sample_activation_request) sample_world of
     ((r, st'), w') \<Rightarrow> di_status r = Dispatch_not_ready"
proof -
  obtain r st' w' where run: "run_state (controller_activate sample_controller Ctl_created sample_activation_request) sample_world =
      ((r, st'), w')" by (metis surj_pair)
  from dispatch_requires_ready [OF _ _ run] show ?thesis by (simp add: run)
qed

end
