(* ===== verification/Protocol_Codec.thy ===== *)
theory Protocol_Codec
  imports Controller
begin

text \<open>
  The wire format of the local controller protocol (the pure part of
  \<open>local_protocol.cpp\<close>): length-prefixed frames over a byte stream that may deliver them in
  any pieces, the line-oriented requests and the responses. Requests are checked against their
  documented text: exactly the documented texts are parsed, and every admissible request has one.
\<close>

section \<open>Requests\<close>

datatype request_operation = Operation_status | Operation_activate

record parsed_request =
  pq_operation :: request_operation
  pq_request_id :: string
  pq_activation :: "activation_request option"

record parse_result =
  pa_valid :: bool
  pa_event_id :: string
  pa_message :: string
  pa_request :: "parsed_request option"

definition minimum_probe_timeout :: nat where "minimum_probe_timeout = 100"
definition maximum_probe_timeout :: nat where "maximum_probe_timeout = 60000"
definition minimum_confirmation_timeout :: nat where "minimum_confirmation_timeout = 1000"
definition maximum_confirmation_timeout :: nat where "maximum_confirmation_timeout = 600000"

definition malformed :: parse_result where
  "malformed = \<lparr>pa_valid = False, pa_event_id = ''GH-IPC-1002'',
     pa_message = ''Controller protocol request is malformed.'', pa_request = None\<rparr>"

definition parse_unsigned :: "string \<Rightarrow> u64 option" where
  "parse_unsigned value =
     (if value = [] \<or> hd value = CHR ''+'' \<or> hd value = CHR ''-'' then None
      else (case from_chars uint64_max value of
              (err, n, rest) \<Rightarrow>
                (if err \<noteq> Conversion_ok \<or> rest \<noteq> [] then None else Some (word_of_nat n))))"

definition field_value :: "string \<Rightarrow> string \<Rightarrow> string option" where
  "field_value line key =
     (if \<not> prefix key line \<or> length line \<le> length key \<or> line ! length key \<noteq> CHR ''='' then None
      else Some (drop (length key + 1) line))"

definition good_line :: "string \<Rightarrow> bool" where
  "good_line line \<longleftrightarrow> line \<noteq> [] \<and> CHR 0x0D \<notin> set line \<and> CHR 0x00 \<notin> set line"

text \<open>The loop of \<open>split_lines\<close>, from the current offset on.\<close>

function split_from :: "string \<Rightarrow> string list option" where
  "split_from [] = Some []"
| "split_from (c # s) =
     (let line = takeWhile (\<lambda>c. c \<noteq> newline) (c # s); rest = dropWhile (\<lambda>c. c \<noteq> newline) (c # s)
      in if rest = [] \<or> \<not> good_line line then None
         else map_option (Cons line) (split_from (tl rest)))"
  by pat_completeness auto
termination
proof (relation "measure length", goal_cases)
  case (2 c s line rest)
  then show ?case
    using length_dropWhile_le [of "\<lambda>c. c \<noteq> newline" "c # s"] by (cases rest) auto
qed simp

definition split_lines :: "string \<Rightarrow> string list option" where
  "split_lines payload =
     (if payload = [] \<or> last payload \<noteq> newline then None else split_from payload)"

definition parse_activation :: "string \<Rightarrow> string list \<Rightarrow> parse_result" where
  "parse_activation request_id ls =
     (case (field_value (ls ! 3) ''operation_id'', field_value (ls ! 4) ''revision'',
        field_value (ls ! 5) ''authorization_reference'', field_value (ls ! 6) ''probe_timeout_ms'',
        field_value (ls ! 7) ''confirmation_timeout_ms'') of
        (Some operation_id, Some revision, Some reference, Some probe_timeout, Some confirmation_timeout) \<Rightarrow>
          (if \<not> valid_identifier operation_id \<or> \<not> valid_identifier reference then malformed
           else (case (parse_unsigned revision, parse_unsigned probe_timeout,
                   parse_unsigned confirmation_timeout) of
             (Some num, Some probe, Some confirmation) \<Rightarrow>
               (if num = 0 \<or> unat probe < minimum_probe_timeout \<or> unat probe > maximum_probe_timeout \<or>
                   unat confirmation < minimum_confirmation_timeout \<or>
                   unat confirmation > maximum_confirmation_timeout then malformed
                else \<lparr>pa_valid = True, pa_event_id = ''GH-IPC-0003'',
                  pa_message = ''Controller activation request parsed.'',
                  pa_request = Some \<lparr>pq_operation = Operation_activate, pq_request_id = request_id,
                    pq_activation = Some \<lparr>aq_operation_id = operation_id, aq_revision = num,
                      aq_authorization_reference = reference, aq_probe_timeout = int (unat probe),
                      aq_confirmation_timeout = int (unat confirmation)\<rparr>\<rparr>\<rparr>)
           | _ \<Rightarrow> malformed))
      | _ \<Rightarrow> malformed)"

definition parse_request :: "string \<Rightarrow> parse_result" where
  "parse_request payload =
     (case split_lines payload of
        None \<Rightarrow> malformed
      | Some ls \<Rightarrow>
          if length ls < 3 then malformed
          else if ls ! 0 \<noteq> ''gatehold-controller-v1''
          then malformed\<lparr>pa_event_id := ''GH-IPC-1003'',
            pa_message := ''Controller protocol version is unsupported.''\<rparr>
          else (case (field_value (ls ! 1) ''request_id'', field_value (ls ! 2) ''operation'') of
            (Some request_id, Some operation) \<Rightarrow>
              (if \<not> valid_identifier request_id then malformed
               else if operation = ''status''
               then (if length ls \<noteq> 3 then malformed
                     else \<lparr>pa_valid = True, pa_event_id = ''GH-IPC-0002'',
                       pa_message = ''Controller status request parsed.'',
                       pa_request = Some \<lparr>pq_operation = Operation_status, pq_request_id = request_id,
                         pq_activation = None\<rparr>\<rparr>)
               else if operation \<noteq> ''activate''
               then malformed\<lparr>pa_event_id := ''GH-IPC-1003'',
                 pa_message := ''Controller protocol operation is unsupported.''\<rparr>
               else if length ls \<noteq> 8 then malformed
               else parse_activation request_id ls)
          | _ \<Rightarrow> malformed))"

section \<open>Responses\<close>

definition activation_status_string :: "activation_status \<Rightarrow> string" where
  "activation_status_string s =
     (case s of
        Act_committed \<Rightarrow> ''committed''
      | Act_invalid_request \<Rightarrow> ''invalid_request''
      | Act_authorization_denied \<Rightarrow> ''authorization_denied''
      | Act_authorization_error \<Rightarrow> ''authorization_error''
      | Act_last_known_good_unavailable \<Rightarrow> ''last_known_good_unavailable''
      | Act_target_unavailable \<Rightarrow> ''target_unavailable''
      | Act_native_revalidation_failed \<Rightarrow> ''native_revalidation_failed''
      | Act_activation_failed \<Rightarrow> ''activation_failed''
      | Act_verification_failed_rolled_back \<Rightarrow> ''verification_failed_rolled_back''
      | Act_confirmation_failed_rolled_back \<Rightarrow> ''confirmation_failed_rolled_back''
      | Act_commit_failed_rolled_back \<Rightarrow> ''commit_failed_rolled_back''
      | Act_transaction_conflict \<Rightarrow> ''transaction_conflict''
      | Act_transaction_store_failed \<Rightarrow> ''transaction_store_failed''
      | Act_committed_with_warning \<Rightarrow> ''committed_with_warning''
      | Act_committed_cleanup_pending \<Rightarrow> ''committed_cleanup_pending''
      | Act_audit_failed \<Rightarrow> ''audit_failed''
      | Act_audit_failed_rolled_back \<Rightarrow> ''audit_failed_rolled_back''
      | Act_rollback_failed \<Rightarrow> ''rollback_failed'')"

definition response_payload ::
  "string \<Rightarrow> string \<Rightarrow> controller_state \<Rightarrow> string \<Rightarrow> string \<Rightarrow> string option \<Rightarrow> string" where
  "response_payload request_id outcome st event_id m activation =
     ''gatehold-controller-v1'' @ [newline] @ ''request_id='' @ request_id @
     [newline] @ ''result='' @ outcome @ [newline] @ ''controller_state='' @ controller_state_string st @
     [newline] @ ''event_id='' @ event_id @ [newline] @ ''message='' @ m @ [newline] @
     (case activation of None \<Rightarrow> []
      | Some a \<Rightarrow> ''activation_status='' @ a @ [newline])"

section \<open>The documented requests\<close>

definition text_lines :: "string list \<Rightarrow> string" where
  "text_lines ls = concat (map (\<lambda>l. l @ [newline]) ls)"

text \<open>A decimal numeral, leading zeros allowed, of a 64-bit value.\<close>

definition numeral_of :: "string \<Rightarrow> u64 \<Rightarrow> bool" where
  "numeral_of d x \<longleftrightarrow> d \<noteq> [] \<and> list_all is_ascii_digit d \<and> decimal_value d = unat x"

definition status_lines :: "string \<Rightarrow> string list" where
  "status_lines request_id =
     [''gatehold-controller-v1'', ''request_id='' @ request_id, ''operation=status'']"

definition activation_lines ::
  "string \<Rightarrow> string \<Rightarrow> string \<Rightarrow> string \<Rightarrow> string \<Rightarrow> string \<Rightarrow> string list" where
  "activation_lines request_id operation_id revision reference probe confirmation =
     [''gatehold-controller-v1'', ''request_id='' @ request_id, ''operation=activate'',
      ''operation_id='' @ operation_id, ''revision='' @ revision,
      ''authorization_reference='' @ reference, ''probe_timeout_ms='' @ probe,
      ''confirmation_timeout_ms='' @ confirmation]"

definition admissible_activation :: "activation_request \<Rightarrow> bool" where
  "admissible_activation q \<longleftrightarrow>
     valid_identifier (aq_operation_id q) \<and> aq_revision q \<noteq> 0 \<and>
     valid_identifier (aq_authorization_reference q) \<and>
     100 \<le> aq_probe_timeout q \<and> aq_probe_timeout q \<le> 60000 \<and>
     1000 \<le> aq_confirmation_timeout q \<and> aq_confirmation_timeout q \<le> 600000"

definition documented_request :: "string \<Rightarrow> parsed_request \<Rightarrow> bool" where
  "documented_request p rq \<longleftrightarrow>
     valid_identifier (pq_request_id rq) \<and>
     (case (pq_operation rq, pq_activation rq) of
        (Operation_status, None) \<Rightarrow> p = text_lines (status_lines (pq_request_id rq))
      | (Operation_activate, Some q) \<Rightarrow>
          admissible_activation q \<and>
          (\<exists>revision probe confirmation x y.
             p = text_lines (activation_lines (pq_request_id rq) (aq_operation_id q) revision
               (aq_authorization_reference q) probe confirmation) \<and>
             numeral_of revision (aq_revision q) \<and>
             numeral_of probe x \<and> aq_probe_timeout q = int (unat x) \<and>
             numeral_of confirmation y \<and> aq_confirmation_timeout q = int (unat y))
      | _ \<Rightarrow> False)"

lemma field_value_iff: "field_value line key = Some v \<longleftrightarrow> line = key @ ''='' @ v"
proof
  assume "field_value line key = Some v"
  then have "prefix key line" "length key < length line" "line ! length key = CHR ''=''"
    "v = drop (length key + 1) line"
    by (auto simp: field_value_def split: if_splits)
  then show "line = key @ ''='' @ v"
    by (auto simp: prefix_def nth_append) (metis drop_0 drop_Suc_Cons list.size(3) neq_Nil_conv nth_Cons_0 less_irrefl)
qed (simp add: field_value_def)

lemma parse_unsigned_iff: "parse_unsigned d = Some x \<longleftrightarrow> numeral_of d x"
proof
  assume "parse_unsigned d = Some x"
  then obtain n where n: "from_chars uint64_max d = (Conversion_ok, n, [])" "x = word_of_nat n"
    by (auto simp: parse_unsigned_def split: if_splits prod.splits)
  from from_chars_whole [OF n(1)] from_chars_ok [OF n(1)] n(2) show "numeral_of d x"
    by (simp add: numeral_of_def unat_of_nat)
next
  assume d: "numeral_of d x"
  have "d = takeWhile is_ascii_digit d" "dropWhile is_ascii_digit d = []"
    using d by (auto simp: numeral_of_def list_all_iff takeWhile_eq_all_conv [THEN iffD2])
  moreover have "unat x \<le> uint64_max" by (rule unat_u64_le)
  moreover have "is_ascii_digit (hd d)" using d by (cases d) (simp_all add: numeral_of_def)
  then have "hd d \<noteq> CHR ''+''" "hd d \<noteq> CHR ''-''" by (auto simp: is_ascii_digit_def)
  ultimately show "parse_unsigned d = Some x"
    using d by (simp add: parse_unsigned_def from_chars_def Let_def numeral_of_def)
qed

text \<open>Lines as \<open>split_lines\<close> accepts them.\<close>

definition proper_line :: "string \<Rightarrow> bool" where
  "proper_line l \<longleftrightarrow> good_line l \<and> newline \<notin> set l"

lemma takeWhile_line:
  "newline \<notin> set l \<Longrightarrow> takeWhile (\<lambda>c. c \<noteq> newline) (l @ newline # s) = l"
  "newline \<notin> set l \<Longrightarrow> dropWhile (\<lambda>c. c \<noteq> newline) (l @ newline # s) = newline # s"
  by (induction l) auto

lemma split_from_line:
  "proper_line l \<Longrightarrow> split_from (l @ newline # s) = map_option (Cons l) (split_from s)"
proof -
  assume l: "proper_line l"
  then obtain c r where cr: "l @ newline # s = c # r"
    by (cases l) (auto simp: proper_line_def good_line_def)
  have "split_from (c # r) = (let line = takeWhile (\<lambda>c. c \<noteq> newline) (c # r); rest = dropWhile (\<lambda>c. c \<noteq> newline) (c # r)
      in if rest = [] \<or> \<not> good_line line then None else map_option (Cons line) (split_from (tl rest)))"
    by (rule split_from.simps)
  then show ?thesis
    using l unfolding cr [symmetric] by (simp add: takeWhile_line proper_line_def del: split_from.simps)
qed

lemma split_from_text: "\<forall>l \<in> set ls. proper_line l \<Longrightarrow> split_from (text_lines ls) = Some ls"
  by (induction ls) (simp_all add: text_lines_def split_from_line)

lemma split_from_sound:
  "split_from p = Some ls \<Longrightarrow> p = text_lines ls \<and> (\<forall>l \<in> set ls. proper_line l)"
proof (induction p arbitrary: ls rule: split_from.induct)
  case 1
  then show ?case by (simp add: text_lines_def)
next
  case (2 c s)
  define line where "line = takeWhile (\<lambda>c. c \<noteq> newline) (c # s)"
  define rest where "rest = dropWhile (\<lambda>c. c \<noteq> newline) (c # s)"
  have step: "split_from (c # s) = (if rest = [] \<or> \<not> good_line line then None
      else map_option (Cons line) (split_from (tl rest)))"
    unfolding line_def rest_def by (simp only: split_from.simps Let_def)
  with 2(2) obtain ls' where ok: "rest \<noteq> []" "good_line line" and ls: "ls = line # ls'"
    and more: "split_from (tl rest) = Some ls'"
    by (auto split: if_splits simp del: split_from.simps)
  have "hd rest = newline" using hd_dropWhile [of "\<lambda>c. c \<noteq> newline" "c # s"] ok(1) by (simp add: rest_def)
  then have "c # s = line @ newline # tl rest"
    using ok(1) takeWhile_dropWhile_id [of "\<lambda>c. c \<noteq> newline" "c # s"]
    unfolding line_def [symmetric] rest_def [symmetric] by (metis list.collapse)
  moreover have "newline \<notin> set line" by (auto simp: line_def dest: set_takeWhileD)
  moreover have "tl rest = text_lines ls' \<and> (\<forall>l \<in> set ls'. proper_line l)"
    using "2.IH" [OF line_def rest_def] ok more by simp
  ultimately show ?case using ls ok(2) by (simp add: text_lines_def proper_line_def)
qed

lemma last_text_lines: "ls \<noteq> [] \<Longrightarrow> text_lines ls \<noteq> [] \<and> last (text_lines ls) = newline"
  by (induction ls) (auto simp: text_lines_def)

lemma split_lines_iff:
  "split_lines p = Some ls \<longleftrightarrow> p = text_lines ls \<and> ls \<noteq> [] \<and> (\<forall>l \<in> set ls. proper_line l)"
proof
  assume a: "split_lines p = Some ls"
  then have "split_from p = Some ls" "p \<noteq> []" by (auto simp: split_lines_def split: if_splits)
  with split_from_sound [OF this(1)] show "p = text_lines ls \<and> ls \<noteq> [] \<and> (\<forall>l \<in> set ls. proper_line l)"
    by (auto simp: text_lines_def)
next
  assume "p = text_lines ls \<and> ls \<noteq> [] \<and> (\<forall>l \<in> set ls. proper_line l)"
  then show "split_lines p = Some ls"
    using last_text_lines [of ls] by (simp add: split_lines_def split_from_text)
qed

lemma proper_line_field:
  "key \<noteq> [] \<Longrightarrow> newline \<notin> set key \<Longrightarrow> CHR 0x0D \<notin> set key \<Longrightarrow> CHR 0x00 \<notin> set key \<Longrightarrow>
     valid_identifier v \<or> list_all is_ascii_digit v \<Longrightarrow> proper_line (key @ v)"
  by (auto simp: proper_line_def good_line_def valid_identifier_def list_all_iff is_ascii_digit_def
      dest: identifier_character_not_control)

lemma parse_activation_iff:
  "pa_request (parse_activation i [l0, l1, l2, l3, l4, l5, l6, l7]) = Some rq \<longleftrightarrow>
     pq_operation rq = Operation_activate \<and> pq_request_id rq = i \<and>
     (\<exists>q revision probe confirmation x y. pq_activation rq = Some q \<and> admissible_activation q \<and>
        l3 = ''operation_id='' @ aq_operation_id q \<and> l4 = ''revision='' @ revision \<and>
        l5 = ''authorization_reference='' @ aq_authorization_reference q \<and>
        l6 = ''probe_timeout_ms='' @ probe \<and> l7 = ''confirmation_timeout_ms='' @ confirmation \<and>
        numeral_of revision (aq_revision q) \<and> numeral_of probe x \<and> aq_probe_timeout q = int (unat x) \<and>
        numeral_of confirmation y \<and> aq_confirmation_timeout q = int (unat y))" (is "?parsed \<longleftrightarrow> ?documented")
proof
  assume ?parsed
  then obtain op num ref pr co n x y where fields: "field_value l3 ''operation_id'' = Some op"
      "field_value l4 ''revision'' = Some num" "field_value l5 ''authorization_reference'' = Some ref"
      "field_value l6 ''probe_timeout_ms'' = Some pr" "field_value l7 ''confirmation_timeout_ms'' = Some co"
    and ids: "valid_identifier op" "valid_identifier ref"
    and numbers: "parse_unsigned num = Some n" "parse_unsigned pr = Some x" "parse_unsigned co = Some y"
      "n \<noteq> 0" "minimum_probe_timeout \<le> unat x" "unat x \<le> maximum_probe_timeout"
      "minimum_confirmation_timeout \<le> unat y" "unat y \<le> maximum_confirmation_timeout"
    and rq: "rq = \<lparr>pq_operation = Operation_activate, pq_request_id = i,
       pq_activation = Some \<lparr>aq_operation_id = op, aq_revision = n, aq_authorization_reference = ref,
         aq_probe_timeout = int (unat x), aq_confirmation_timeout = int (unat y)\<rparr>\<rparr>"
    by (auto simp: parse_activation_def malformed_def not_less split: option.splits if_splits)
  let ?q = "\<lparr>aq_operation_id = op, aq_revision = n, aq_authorization_reference = ref,
     aq_probe_timeout = int (unat x), aq_confirmation_timeout = int (unat y)\<rparr>"
  note facts = fields [unfolded field_value_iff] numbers [unfolded parse_unsigned_iff]
  have "admissible_activation ?q"
    using ids facts
    by (simp add: admissible_activation_def minimum_probe_timeout_def maximum_probe_timeout_def
        minimum_confirmation_timeout_def maximum_confirmation_timeout_def del: of_nat_unat)
  with facts have "l3 = ''operation_id='' @ aq_operation_id ?q \<and> l4 = ''revision='' @ num \<and>
      l5 = ''authorization_reference='' @ aq_authorization_reference ?q \<and>
      l6 = ''probe_timeout_ms='' @ pr \<and> l7 = ''confirmation_timeout_ms='' @ co \<and>
      numeral_of num (aq_revision ?q) \<and> numeral_of pr x \<and> aq_probe_timeout ?q = int (unat x) \<and>
      numeral_of co y \<and> aq_confirmation_timeout ?q = int (unat y)" by simp
  moreover have "pq_operation rq = Operation_activate \<and> pq_request_id rq = i \<and> pq_activation rq = Some ?q"
    by (simp add: rq)
  ultimately show ?documented using \<open>admissible_activation ?q\<close> by blast
next
  assume ?documented
  then obtain q revision probe confirmation x y where q: "pq_activation rq = Some q" "admissible_activation q"
    and fields: "field_value l3 ''operation_id'' = Some (aq_operation_id q)"
      "field_value l4 ''revision'' = Some revision"
      "field_value l5 ''authorization_reference'' = Some (aq_authorization_reference q)"
      "field_value l6 ''probe_timeout_ms'' = Some probe"
      "field_value l7 ''confirmation_timeout_ms'' = Some confirmation"
    and numbers: "parse_unsigned revision = Some (aq_revision q)" "parse_unsigned probe = Some x"
      "parse_unsigned confirmation = Some y"
    and t: "aq_probe_timeout q = int (unat x)" "aq_confirmation_timeout q = int (unat y)"
    and rest: "pq_operation rq = Operation_activate" "pq_request_id rq = i"
    unfolding field_value_iff parse_unsigned_iff by auto
  then have "rq = \<lparr>pq_operation = Operation_activate, pq_request_id = i, pq_activation = Some q\<rparr>"
    "q = \<lparr>aq_operation_id = aq_operation_id q, aq_revision = aq_revision q,
       aq_authorization_reference = aq_authorization_reference q,
       aq_probe_timeout = int (unat x), aq_confirmation_timeout = int (unat y)\<rparr>"
    by (cases rq; cases q; simp)+
  moreover from q(2) t have "minimum_probe_timeout \<le> unat x" "unat x \<le> maximum_probe_timeout"
    "minimum_confirmation_timeout \<le> unat y" "unat y \<le> maximum_confirmation_timeout" "aq_revision q \<noteq> 0"
    "valid_identifier (aq_operation_id q)" "valid_identifier (aq_authorization_reference q)"
    by (simp_all add: admissible_activation_def minimum_probe_timeout_def maximum_probe_timeout_def
        minimum_confirmation_timeout_def maximum_confirmation_timeout_def del: of_nat_unat)
  ultimately show ?parsed
    using fields numbers by (simp add: parse_activation_def not_less)
qed

lemma parse_request_iff:
  "pa_request (parse_request p) = Some rq \<longleftrightarrow> documented_request p rq"
proof
  assume "pa_request (parse_request p) = Some rq"
  then obtain ls i op where ls: "split_lines p = Some ls" "3 \<le> length ls" "ls ! 0 = ''gatehold-controller-v1''"
    and i: "field_value (ls ! 1) ''request_id'' = Some i" "valid_identifier i"
    and op: "field_value (ls ! 2) ''operation'' = Some op"
    and cases: "op = ''status'' \<and> length ls = 3 \<and>
        rq = \<lparr>pq_operation = Operation_status, pq_request_id = i, pq_activation = None\<rparr> \<or>
      op = ''activate'' \<and> length ls = 8 \<and> pa_request (parse_activation i ls) = Some rq"
    by (auto simp: parse_request_def malformed_def not_less split: option.splits if_splits)
  have p: "p = text_lines ls" using ls(1) by (simp add: split_lines_iff)
  from cases show "documented_request p rq"
  proof (elim disjE conjE)
    assume a: "op = ''status''" "length ls = 3"
      "rq = \<lparr>pq_operation = Operation_status, pq_request_id = i, pq_activation = None\<rparr>"
    from a(2) obtain l0 l1 l2 where "ls = [l0, l1, l2]"
      by (auto simp: length_Suc_conv numeral_eq_Suc)
    with a ls i op p show ?thesis
      by (simp add: documented_request_def status_lines_def field_value_iff)
  next
    assume a: "op = ''activate''" "length ls = 8" "pa_request (parse_activation i ls) = Some rq"
    from a(2) obtain l0 l1 l2 l3 l4 l5 l6 l7 where l: "ls = [l0, l1, l2, l3, l4, l5, l6, l7]"
      by (auto simp: length_Suc_conv numeral_eq_Suc)
    from a(3) [unfolded l parse_activation_iff] obtain q revision probe confirmation x y where
      q: "pq_operation rq = Operation_activate" "pq_request_id rq = i" "pq_activation rq = Some q"
        "admissible_activation q" "l3 = ''operation_id='' @ aq_operation_id q" "l4 = ''revision='' @ revision"
        "l5 = ''authorization_reference='' @ aq_authorization_reference q"
        "l6 = ''probe_timeout_ms='' @ probe" "l7 = ''confirmation_timeout_ms='' @ confirmation"
        "numeral_of revision (aq_revision q)" "numeral_of probe x" "aq_probe_timeout q = int (unat x)"
        "numeral_of confirmation y" "aq_confirmation_timeout q = int (unat y)"
      by blast
    have "ls = activation_lines i (aq_operation_id q) revision (aq_authorization_reference q) probe confirmation"
      using ls(3) i(1) op a(1) q(5-9) by (simp add: l activation_lines_def field_value_iff)
    with p q(2) have "p = text_lines (activation_lines (pq_request_id rq) (aq_operation_id q) revision
        (aq_authorization_reference q) probe confirmation)" by simp
    then show ?thesis
      using q(1-4,10-) i(2) unfolding documented_request_def by (simp del: of_nat_unat) blast
  qed
next
  assume d: "documented_request p rq"
  note id_line = proper_line_field [of "''request_id=''" "pq_request_id rq"]
  have fields: "field_value (''request_id='' @ pq_request_id rq) ''request_id'' = Some (pq_request_id rq)"
    "field_value ''operation=status'' ''operation'' = Some ''status''"
    "field_value ''operation=activate'' ''operation'' = Some ''activate''"
    by (simp_all add: field_value_iff)
  show "pa_request (parse_request p) = Some rq"
  proof (cases "pq_operation rq")
    case Operation_status
    with d have i: "valid_identifier (pq_request_id rq)" and none: "pq_activation rq = None"
      and p: "p = text_lines (status_lines (pq_request_id rq))"
      by (auto simp: documented_request_def split: option.splits)
    have "\<forall>l \<in> set (status_lines (pq_request_id rq)). proper_line l"
      using i id_line by (simp add: status_lines_def) (simp add: proper_line_def good_line_def)
    then have "split_lines p = Some (status_lines (pq_request_id rq))"
      using p split_lines_iff [of p "status_lines (pq_request_id rq)"] by (simp add: status_lines_def)
    then show ?thesis
      using i none Operation_status fields(1,2) by (cases rq) (simp add: parse_request_def status_lines_def)
  next
    case Operation_activate
    with d obtain q revision probe confirmation x y where i: "valid_identifier (pq_request_id rq)"
      and q: "pq_activation rq = Some q" "admissible_activation q" "numeral_of revision (aq_revision q)"
        "numeral_of probe x" "aq_probe_timeout q = int (unat x)" "numeral_of confirmation y"
        "aq_confirmation_timeout q = int (unat y)"
      and p: "p = text_lines (activation_lines (pq_request_id rq) (aq_operation_id q) revision
         (aq_authorization_reference q) probe confirmation)"
      by (auto simp: documented_request_def split: option.splits)
    let ?ls = "activation_lines (pq_request_id rq) (aq_operation_id q) revision
         (aq_authorization_reference q) probe confirmation"
    have ids: "valid_identifier (aq_operation_id q)" "valid_identifier (aq_authorization_reference q)"
      using q(2) by (simp_all add: admissible_activation_def)
    have "\<forall>l \<in> set ?ls. proper_line l"
      using i ids q(3,4,6) id_line proper_line_field [of "''operation_id=''" "aq_operation_id q"]
        proper_line_field [of "''revision=''" revision]
        proper_line_field [of "''authorization_reference=''" "aq_authorization_reference q"]
        proper_line_field [of "''probe_timeout_ms=''" probe]
        proper_line_field [of "''confirmation_timeout_ms=''" confirmation]
      by (simp add: activation_lines_def numeral_of_def) (simp add: proper_line_def good_line_def)
    then have "split_lines p = Some ?ls"
      using p split_lines_iff [of p ?ls] by (simp add: activation_lines_def)
    moreover have "pa_request (parse_activation (pq_request_id rq) ?ls) = Some rq"
      unfolding activation_lines_def parse_activation_iff
      using Operation_activate q by auto
    ultimately show ?thesis
      using i fields(1,3) by (simp add: parse_request_def activation_lines_def)
  qed
qed

text \<open>
  C23. The parser accepts exactly the documented texts: the version line, then the fields in the
  documented order, each once and nothing else, identifiers from the constrained alphabet, a non-zero
  64-bit revision and the two timeouts within their limits; and it reads the documented meaning.
\<close>

theorem request_parsed_iff_documented:
  "pa_request (parse_request p) = Some rq \<longleftrightarrow> documented_request p rq"
  by (rule parse_request_iff)

section \<open>Frames\<close>

datatype io_status = Io_completed | Io_timed_out | Io_closed | Io_invalid_size | Io_failed

definition maximum_payload_size :: nat where
  "maximum_payload_size = 4096"

text \<open>
  \<open>read_exact\<close>: the poll-and-receive loop until \<open>size\<close> bytes are there. A chunk that
  is longer than wanted stays in the socket; when no event is left, the deadline passes.
\<close>

fun read_exact :: "nat \<Rightarrow> socket_event list \<Rightarrow> io_status \<times> string \<times> socket_event list" where
  "read_exact count [] = ((if count = 0 then Io_completed else Io_timed_out), [], [])"
| "read_exact count (e # es) =
     (if count = 0 then (Io_completed, [], e # es)
      else (case e of
              Received s \<Rightarrow>
                (if s = [] then (Io_closed, [], es)
                 else if length s \<le> count
                 then (case read_exact (count - length s) es of (st, out, es') \<Rightarrow> (st, s @ out, es'))
                 else (Io_completed, take count s, Received (drop count s) # es))
            | Would_block \<Rightarrow> read_exact count es
            | Interrupted \<Rightarrow> read_exact count es
            | Timed_out \<Rightarrow> (Io_timed_out, [], es)
            | Broken \<Rightarrow> (Io_failed, [], es)))"

definition byte :: "char \<Rightarrow> u32" where
  "byte c = word_of_nat (of_char c)"

definition decode_size :: "string \<Rightarrow> u32" where
  "decode_size header =
     push_bit 24 (byte (header ! 0)) OR push_bit 16 (byte (header ! 1)) OR
     push_bit 8 (byte (header ! 2)) OR byte (header ! 3)"

definition receive_frame :: "socket_event list \<Rightarrow> io_status \<times> string \<times> socket_event list" where
  "receive_frame es =
     (case read_exact 4 es of
        (status, header, es) \<Rightarrow>
          if status \<noteq> Io_completed then (status, [], es)
          else
            (let count = unat (decode_size header)
             in if count = 0 \<or> count > maximum_payload_size then (Io_invalid_size, [], es)
                else (case read_exact count es of
                        (status, payload, es) \<Rightarrow>
                          (status, (if status = Io_completed then payload else []), es))))"

definition read_frame :: "(io_status \<times> string) io" where
  "read_frame = State (\<lambda>w.
     case receive_frame (inbound w) of (status, payload, es) \<Rightarrow> ((status, payload), w\<lparr>inbound := es\<rparr>))"

text \<open>
  \<open>write_exact\<close> against the outcomes of its sends: \<open>ETIMEDOUT\<close> stands for the
  deadline, \<open>EAGAIN\<close> and \<open>EINTR\<close> for a retry.
\<close>

fun write_exact :: "outcome list \<Rightarrow> string \<Rightarrow> io_status \<times> string \<times> outcome list" where
  "write_exact rs [] = (Io_completed, [], rs)"
| "write_exact [] (c # s) = (Io_completed, c # s, [])"
| "write_exact (r # rs) (c # s) =
     (case r of
        Fine \<Rightarrow> (Io_completed, c # s, rs)
      | Short n \<Rightarrow>
          (if n = 0 then (Io_failed, [], rs)
           else (case write_exact rs (drop n (c # s)) of
                   (st, out, rs') \<Rightarrow> (st, take n (c # s) @ out, rs')))
      | Fault e \<Rightarrow>
          (if e = EINTR \<or> e = EAGAIN then write_exact rs (c # s)
           else ((if e = ETIMEDOUT then Io_timed_out else Io_failed), [], rs)))"

definition encode_size :: "u32 \<Rightarrow> string" where
  "encode_size count =
     [char_of (unat (drop_bit 24 count AND 0xFF)), char_of (unat (drop_bit 16 count AND 0xFF)),
      char_of (unat (drop_bit 8 count AND 0xFF)), char_of (unat (count AND 0xFF))]"

definition send_frame :: "outcome list \<Rightarrow> string \<Rightarrow> io_status \<times> string \<times> outcome list" where
  "send_frame rs payload =
     (if payload = [] \<or> length payload > maximum_payload_size then (Io_invalid_size, [], rs)
      else (case write_exact rs (encode_size (word_of_nat (length payload))) of
              (status, header, rs) \<Rightarrow>
                if status \<noteq> Io_completed then (status, header, rs)
                else (case write_exact rs payload of
                        (status, out, rs) \<Rightarrow> (status, header @ out, rs))))"

definition write_frame :: "string \<Rightarrow> io_status io" where
  "write_frame payload = State (\<lambda>w.
     case send_frame (send_events w) payload of
       (status, out, rs) \<Rightarrow> (status, w\<lparr>send_events := rs, outbound := outbound w @ out\<rparr>))"

section \<open>Frames survive fragmentation\<close>

lemma unat_and_byte: "unat (x AND 0xFF :: u32) < 256"
  using word_and_le1 [of "x" "0xFF"] by (simp add: word_le_nat_alt)

lemma byte_char_of: "byte (char_of (unat (x AND 0xFF :: u32))) = x AND 0xFF"
  using unat_and_byte [of x] by (simp add: byte_def)

lemma decode_encode: "decode_size (encode_size x) = x"
proof -
  have "decode_size (encode_size x) =
      push_bit 24 (drop_bit 24 x AND mask 8) OR push_bit 16 (drop_bit 16 x AND mask 8) OR
      push_bit 8 (drop_bit 8 x AND mask 8) OR (x AND mask 8)"
    by (simp add: decode_size_def encode_size_def byte_char_of mask_eq_exp_minus_1)
  also have "\<dots> = x"
  proof (rule bit_word_eqI)
    fix n :: nat
    assume "n < LENGTH(32)"
    then consider "n < 8" | "8 \<le> n" "n < 16" | "16 \<le> n" "n < 24" | "24 \<le> n" "n < 32" by force
    then show "bit (push_bit 24 (drop_bit 24 x AND mask 8) OR push_bit 16 (drop_bit 16 x AND mask 8) OR
        push_bit 8 (drop_bit 8 x AND mask 8) OR (x AND mask 8)) n = bit x n"
      by cases (auto simp: bit_simps)
  qed
  finally show ?thesis .
qed

definition frame_bytes :: "string \<Rightarrow> string" where
  "frame_bytes payload = encode_size (word_of_nat (length payload)) @ payload"

definition frameable :: "string \<Rightarrow> bool" where
  "frameable payload \<longleftrightarrow> 1 \<le> length payload \<and> length payload \<le> maximum_payload_size"

text \<open>All bytes that arrive before the stream ends, breaks or times out.\<close>

fun stream_bytes :: "socket_event list \<Rightarrow> string" where
  "stream_bytes [] = []"
| "stream_bytes (Received s # es) = (if s = [] then [] else s @ stream_bytes es)"
| "stream_bytes (Would_block # es) = stream_bytes es"
| "stream_bytes (Interrupted # es) = stream_bytes es"
| "stream_bytes (_ # es) = []"

lemma read_exact_stream:
  "read_exact count es = (st, out, es') \<Longrightarrow>
     (if count \<le> length (stream_bytes es)
      then st = Io_completed \<and> out = take count (stream_bytes es) \<and> stream_bytes es' = drop count (stream_bytes es)
      else st \<noteq> Io_completed)"
proof (induction count es arbitrary: st out es' rule: read_exact.induct)
  case (2 count e es)
  show ?case
  proof (cases "count = 0")
    case False
    show ?thesis
    proof (cases e)
      case (Received s)
      with 2 False show ?thesis
        by (auto split: prod.splits if_splits)
    qed (use 2 False in auto)
  qed (use 2 in auto)
qed (auto split: if_splits)

lemma length_encode [simp]: "length (encode_size x) = 4"
  by (simp add: encode_size_def)

lemma unat_byte: "unat (byte e) = of_char e"
proof -
  have "of_char e < (256 :: nat)" by simp
  then show ?thesis by (simp add: byte_def unat_of_nat del: nat_of_char_less_256)
qed

lemma char_byte: "char_of (unat (byte e)) = e"
  by (simp add: unat_byte)

lemma bit_byte: "bit (byte e) n \<Longrightarrow> n < 8"
proof (rule ccontr)
  assume set: "bit (byte e) n" "\<not> n < 8"
  have "(of_char e :: nat) < 2 ^ 8" by simp
  then have "take_bit 8 (byte e) = byte e"
    by (intro word_unat_eq_iff [THEN iffD2])
      (simp add: unsigned_take_bit_eq unat_byte take_bit_nat_eq_self del: nat_of_char_less_256)
  with set show False by (metis bit_take_bit_iff)
qed

lemma encode_decode: "length h = 4 \<Longrightarrow> encode_size (decode_size h) = h"
proof -
  assume "length h = 4"
  then obtain a b c d where h: "h = [a, b, c, d]" by (auto simp: length_Suc_conv numeral_eq_Suc)
  have parts: "drop_bit 24 (decode_size h) AND mask 8 = byte a" "drop_bit 16 (decode_size h) AND mask 8 = byte b"
    "drop_bit 8 (decode_size h) AND mask 8 = byte c" "decode_size h AND mask 8 = byte d"
    by (rule bit_word_eqI, auto simp: decode_size_def h bit_simps dest: bit_byte)+
  then show "encode_size (decode_size h) = h"
    by (simp add: encode_size_def mask_eq_exp_minus_1 char_byte h)
qed

lemma frame_count: "length p \<le> maximum_payload_size \<Longrightarrow> unat (word_of_nat (length p) :: u32) = length p"
  by (simp add: unat_of_nat maximum_payload_size_def)

lemma receive_frame_sound:
  assumes "receive_frame es = (Io_completed, p, es')"
  shows "frameable p" "stream_bytes es = frame_bytes p @ stream_bytes es'"
proof -
  from assms obtain h es1 where header: "read_exact 4 es = (Io_completed, h, es1)"
    and count: "unat (decode_size h) \<noteq> 0" "unat (decode_size h) \<le> maximum_payload_size"
    and payload: "read_exact (unat (decode_size h)) es1 = (Io_completed, p, es')"
    by (auto simp: receive_frame_def Let_def split: prod.splits if_splits)
  from read_exact_stream [OF header] have h: "4 \<le> length (stream_bytes es)" "h = take 4 (stream_bytes es)"
    "stream_bytes es1 = drop 4 (stream_bytes es)" by (auto split: if_splits)
  from read_exact_stream [OF payload] have p: "unat (decode_size h) \<le> length (stream_bytes es1)"
    "p = take (unat (decode_size h)) (stream_bytes es1)"
    "stream_bytes es' = drop (unat (decode_size h)) (stream_bytes es1)" by (auto split: if_splits)
  then have length: "length p = unat (decode_size h)" by simp
  with count show "frameable p" by (simp add: frameable_def)
  have "word_of_nat (length p) = decode_size h" by (simp add: length)
  moreover have "encode_size (decode_size h) = h" using h(1,2) by (intro encode_decode) simp
  ultimately have "frame_bytes p = h @ p" by (simp add: frame_bytes_def)
  then show "stream_bytes es = frame_bytes p @ stream_bytes es'"
    using h(2,3) p(2,3) by (metis append.assoc append_take_drop_id)
qed

lemma receive_frame_complete:
  assumes "frameable p" "stream_bytes es = frame_bytes p @ tail"
  shows "\<exists>es'. receive_frame es = (Io_completed, p, es')"
proof -
  obtain st h es1 where header: "read_exact 4 es = (st, h, es1)" by (metis surj_pair)
  from read_exact_stream [OF header] assms(2) have h: "st = Io_completed"
    "h = encode_size (word_of_nat (length p))" "stream_bytes es1 = p @ tail"
    by (auto simp: frame_bytes_def)
  have count: "unat (decode_size h) = length p"
    using assms(1) by (simp add: h(2) decode_encode frame_count frameable_def)
  obtain st2 out es2 where payload: "read_exact (length p) es1 = (st2, out, es2)" by (metis surj_pair)
  from read_exact_stream [OF payload] h(3) have "st2 = Io_completed" "out = p" by auto
  with header payload h(1) count assms(1) show ?thesis
    by (cases p) (simp_all add: receive_frame_def frameable_def)
qed

lemma write_exact_prefix:
  "write_exact rs s = (st, out, rs') \<Longrightarrow> (if st = Io_completed then out = s else prefix out s)"
proof (induction rs s arbitrary: st out rs' rule: write_exact.induct)
  case (3 r rs c s)
  show ?case
  proof (cases r)
    case (Short n)
    show ?thesis
    proof (cases "n = 0")
      case False
      with 3(3) Short obtain out1 where rest: "write_exact rs (drop n (c # s)) = (st, out1, rs')"
        and out: "out = take n (c # s) @ out1"
        by (auto split: prod.splits)
      from 3(1) [OF Short False rest] have "if st = Io_completed then out1 = drop n (c # s) else prefix out1 (drop n (c # s))" .
      then show ?thesis
        using append_take_drop_id [of n "c # s"] unfolding out by (metis same_prefix_prefix)
    qed (use 3 Short in auto)
  qed (use 3 in \<open>auto split: if_splits\<close>)
qed auto

lemma send_frame_prefix:
  assumes "send_frame rs p = (st, out, rs')"
  shows "if st = Io_completed then frameable p \<and> out = frame_bytes p else prefix out (frame_bytes p)"
proof (cases "p = [] \<or> length p > maximum_payload_size")
  case True
  with assms show ?thesis by (auto simp: send_frame_def)
next
  case False
  obtain st1 h rs1 where header: "write_exact rs (encode_size (word_of_nat (length p))) = (st1, h, rs1)"
    by (metis surj_pair)
  obtain st2 o2 rs2 where payload: "write_exact rs1 p = (st2, o2, rs2)" by (metis surj_pair)
  from False have "frameable p" by (cases p) (auto simp: frameable_def)
  then show ?thesis
    using assms False header payload write_exact_prefix [OF header] write_exact_prefix [OF payload]
    by (auto simp: send_frame_def frame_bytes_def split: if_splits intro: prefix_order.trans)
qed

text \<open>
  C24. Frames survive fragmentation: a sent frame is received as the same payload, whatever pieces,
  retries and partial transfers the two sockets deal it out in, and whatever follows it in the
  stream. Both sides bound the payload by 1 to 4096 bytes.
\<close>

theorem frame_roundtrip:
  assumes "send_frame rs p = (Io_completed, out, rs')" and "prefix out (stream_bytes es)"
  shows "\<exists>es'. receive_frame es = (Io_completed, p, es') \<and> 1 \<le> length p \<and> length p \<le> 4096"
proof -
  from send_frame_prefix [OF assms(1)] have p: "frameable p" "out = frame_bytes p" by simp_all
  with assms(2) obtain tail where "stream_bytes es = frame_bytes p @ tail" by (auto simp: prefix_def)
  from receive_frame_complete [OF p(1) this] p(1) show ?thesis
    by (auto simp: frameable_def maximum_payload_size_def)
qed

lemma frame_roundtrip_witness:
  "\<exists>es'. receive_frame [Received [CHR 0x00], Would_block, Received [CHR 0x00, CHR 0x00], Interrupted,
     Received [CHR 0x02, CHR ''h''], Received ''i!''] = (Io_completed, ''hi'', es')"
proof -
  have bytes: "encode_size 2 = [CHR 0x00, CHR 0x00, CHR 0x00, CHR 0x02]"
    by (simp add: encode_size_def char_of_def bit_Suc bit_0)
  then have "send_frame [Fault EINTR, Short 3] ''hi'' = (Io_completed, [CHR 0x00, CHR 0x00, CHR 0x00, CHR 0x02, CHR ''h'', CHR ''i''], [])"
    by (simp add: send_frame_def maximum_payload_size_def)
  from frame_roundtrip [OF this, of "[Received [CHR 0x00], Would_block, Received [CHR 0x00, CHR 0x00], Interrupted,
     Received [CHR 0x02, CHR ''h''], Received ''i!'']"] show ?thesis by auto
qed

text \<open>
  Only whole frames are received: a frame is complete exactly when its header and the
  announced number of bytes, between 1 and 4096, have arrived at the front of the stream.
\<close>

theorem frame_received_iff:
  "(\<exists>es'. receive_frame es = (Io_completed, p, es')) \<longleftrightarrow>
     1 \<le> length p \<and> length p \<le> 4096 \<and> prefix (frame_bytes p) (stream_bytes es)"
  using receive_frame_sound [of es p] receive_frame_complete [of p es]
  by (auto simp: prefix_def frameable_def maximum_payload_size_def)

end
