(* ===== verification/Local_Protocol.thy ===== *)
theory Local_Protocol
  imports Protocol_Codec
begin

text \<open>
  One session of the local controller protocol (\<open>ControllerProtocolSession::serve\<close> of
  \<open>local_protocol.cpp\<close>): identify the peer, audit it, read one frame, audit the dispatch,
  answer with one frame. The controller's lifecycle state is passed in and out. The safety
  properties say what a peer can cause: nothing without the allowed credentials, and an activation
  only after two audit entries and with a well-formed request.
\<close>

section \<open>Peers and results\<close>

text \<open>An accepted socket: its descriptor and what the kernel says about the other end.\<close>

record connection =
  cn_descriptor :: int
  cn_credentials :: "(nat \<times> nat) option"

record peer_credentials =
  pc_available :: bool
  pc_user_id :: nat
  pc_group_id :: nat
  pc_event_id :: string
  pc_message :: string

definition read_credentials :: "connection \<Rightarrow> peer_credentials" where
  "read_credentials conn =
     (case cn_credentials conn of
        Some (uid, gid) \<Rightarrow>
          \<lparr>pc_available = True, pc_user_id = uid, pc_group_id = gid, pc_event_id = ''GH-IPC-0001'',
           pc_message = ''Unix peer credentials were verified.''\<rparr>
      | None \<Rightarrow>
          \<lparr>pc_available = False, pc_user_id = 0, pc_group_id = 0, pc_event_id = ''GH-IPC-2001'',
           pc_message = ''Unix peer credentials could not be verified.''\<rparr>)"

record peer_policy =
  pp_user_id :: nat
  pp_group_id :: "nat option"

definition policy_allows :: "peer_policy \<Rightarrow> peer_credentials \<Rightarrow> bool" where
  "policy_allows p c \<longleftrightarrow>
     pc_available c \<and> pc_user_id c = pp_user_id p \<and>
     (case pp_group_id p of None \<Rightarrow> True | Some g \<Rightarrow> pc_group_id c = g)"

datatype session_status =
  Session_completed | Session_peer_rejected | Session_timed_out | Session_invalid_request
| Session_audit_failed | Session_io_error

record session_result =
  sr_status :: session_status
  sr_event_id :: string
  sr_message :: string
  sr_peer_user_id :: "nat option"
  sr_peer_group_id :: "nat option"

definition session_ok :: "session_result \<Rightarrow> bool" where
  "session_ok r \<longleftrightarrow> sr_status r = Session_completed"

definition session_result_of ::
  "session_status \<Rightarrow> string \<Rightarrow> string \<Rightarrow> peer_credentials option \<Rightarrow> session_result" where
  "session_result_of status event_id m credentials =
     \<lparr>sr_status = status, sr_event_id = event_id, sr_message = m,
      sr_peer_user_id = (case credentials of None \<Rightarrow> None
        | Some c \<Rightarrow> if pc_available c then Some (pc_user_id c) else None),
      sr_peer_group_id = (case credentials of None \<Rightarrow> None
        | Some c \<Rightarrow> if pc_available c then Some (pc_group_id c) else None)\<rparr>"

definition io_failure :: "peer_credentials \<Rightarrow> session_result" where
  "io_failure peer = session_result_of Session_io_error ''GH-IPC-2003''
     ''Controller protocol response could not be transferred.'' (Some peer)"

definition protocol_event ::
  "string \<Rightarrow> severity \<Rightarrow> string \<Rightarrow> string \<Rightarrow> string \<Rightarrow> string \<Rightarrow> peer_credentials option \<Rightarrow> event" where
  "protocol_event timestamp sev event_id op outcome m credentials =
     \<lparr>ev_timestamp = timestamp, ev_severity = sev, ev_event_id = event_id,
      ev_component = ''controller-local-protocol'', ev_operation_id = op,
      ev_action = ''controller.protocol'', ev_outcome = outcome, ev_message = m,
      ev_attributes = (case credentials of None \<Rightarrow> []
        | Some c \<Rightarrow>
            (if pc_available c
             then attribute_map [(''peer_uid'', decimal (pc_user_id c)), (''peer_gid'', decimal (pc_group_id c))]
             else []))\<rparr>"

section \<open>The session\<close>

record protocol_session =
  ps_controller :: controller
  ps_journal :: string
  ps_policy :: peer_policy

definition maximum_io_timeout :: int where "maximum_io_timeout = 60000"

definition configure_socket :: "bool io" where
  "configure_socket = do {
     got_flags \<leftarrow> plain_call;
     if \<not> got_flags then return False
     else do {
       set_flags \<leftarrow> plain_call;
       if \<not> set_flags then return False
       else do {
         got_descriptor_flags \<leftarrow> plain_call;
         if \<not> got_descriptor_flags then return False else plain_call
       }
     }
   }"

definition session_append :: "protocol_session \<Rightarrow> (string \<Rightarrow> event) \<Rightarrow> bool io" where
  "session_append s build = do {
     timestamp \<leftarrow> read_clock;
     j \<leftarrow> journal_append (ps_journal s) (build timestamp);
     return (journal_ok j)
   }"

text \<open>Write a response; the session ends with the given result, or as an I/O failure.\<close>

definition respond :: "string \<Rightarrow> peer_credentials \<Rightarrow> session_result \<Rightarrow> session_result io" where
  "respond response peer result = do {
     status \<leftarrow> write_frame response;
     return (if status \<noteq> Io_completed then io_failure peer else result)
   }"

text \<open>Log, then respond: the common shape of the refusals.\<close>

definition refuse_session ::
  "protocol_session \<Rightarrow> controller_state \<Rightarrow> peer_credentials \<Rightarrow> (string \<Rightarrow> event) \<Rightarrow> string \<Rightarrow> string \<Rightarrow>
     session_result \<Rightarrow> session_result io" where
  "refuse_session s st peer build event_id m result = do {
     session_append s build;
     respond (response_payload ''protocol-request'' ''rejected'' st event_id m None) peer result
   }"

definition serve_status ::
  "protocol_session \<Rightarrow> controller_state \<Rightarrow> peer_credentials \<Rightarrow> string \<Rightarrow> session_result io" where
  "serve_status s st peer request_id = do {
     status \<leftarrow> write_frame (response_payload request_id ''completed'' st ''GH-IPC-0002''
       ''Controller status returned.'' None);
     if status \<noteq> Io_completed then do {
       session_append s (\<lambda>t. protocol_event t Error ''GH-IPC-2003'' request_id ''failed''
         ''Controller status response could not be transferred.'' (Some peer));
       return (io_failure peer)
     }
     else return (session_result_of Session_completed ''GH-IPC-0002''
       ''Controller status request completed.'' (Some peer))
   }"

definition serve_activation ::
  "protocol_session \<Rightarrow> controller_state \<Rightarrow> peer_credentials \<Rightarrow> string \<Rightarrow> activation_request \<Rightarrow>
     (session_result \<times> controller_state) io" where
  "serve_activation s st peer request_id q = do {
     (answer, st) \<leftarrow> controller_activate (ps_controller s) st q;
     let operation_status = (case di_activation answer of None \<Rightarrow> ''not_dispatched''
       | Some a \<Rightarrow> activation_status_string (ar_status a));
     status \<leftarrow> write_frame (response_payload request_id
       (if di_status answer = Dispatch_completed then ''completed'' else ''rejected'') (di_state answer)
       (di_event_id answer)
       (if di_status answer = Dispatch_completed then ''Activation request completed.''
        else ''Activation request was not dispatched.'') (Some operation_status));
     if status \<noteq> Io_completed then do {
       session_append s (\<lambda>t. protocol_event t Error ''GH-IPC-2003'' request_id ''failed''
         ''Controller activation response could not be transferred.'' (Some peer));
       return (io_failure peer, st)
     }
     else return (session_result_of Session_completed (di_event_id answer)
       ''Controller activation request completed.'' (Some peer), st)
   }"

definition dispatch_event :: "parsed_request \<Rightarrow> peer_credentials \<Rightarrow> string \<Rightarrow> event" where
  "dispatch_event rq peer timestamp =
     (let status = (pq_operation rq = Operation_status);
          intent = protocol_event timestamp Info (if status then ''GH-IPC-0002'' else ''GH-IPC-0003'')
            (pq_request_id rq) ''dispatching''
            (if status then ''Controller status request is being dispatched.''
             else ''Controller activation request is being dispatched.'') (Some peer);
          intent = add_attribute ''operation'' (if status then ''status'' else ''activate'') intent
      in (case pq_activation rq of None \<Rightarrow> intent
          | Some q \<Rightarrow> add_attribute ''revision'' (decimal (unat (aq_revision q))) intent))"

definition serve_request ::
  "protocol_session \<Rightarrow> controller_state \<Rightarrow> peer_credentials \<Rightarrow> parsed_request \<Rightarrow>
     (session_result \<times> controller_state) io" where
  "serve_request s st peer rq = do {
     audited \<leftarrow> session_append s (dispatch_event rq peer);
     if \<not> audited then do {
       r \<leftarrow> respond (response_payload (pq_request_id rq) ''error'' st ''GH-IPC-2004''
           ''Controller request dispatch could not be audited.'' None) peer
         (session_result_of Session_audit_failed ''GH-IPC-2004''
           ''Controller request dispatch could not be audited.'' (Some peer));
       return (r, st)
     }
     else (case (pq_operation rq, pq_activation rq) of
         (Operation_activate, Some q) \<Rightarrow> serve_activation s st peer (pq_request_id rq) q
       | _ \<Rightarrow> do { r \<leftarrow> serve_status s st peer (pq_request_id rq); return (r, st) })
   }"

text \<open>From the peer's frame to the end.\<close>

definition serve_frame ::
  "protocol_session \<Rightarrow> controller_state \<Rightarrow> peer_credentials \<Rightarrow> (session_result \<times> controller_state) io" where
  "serve_frame s st peer = do {
     (status, payload) \<leftarrow> read_frame;
     if status \<noteq> Io_completed then
       (let late = (status = Io_timed_out);
            invalid = (status = Io_invalid_size \<or> status = Io_closed);
            event_id = (if late then ''GH-IPC-2002'' else if invalid then ''GH-IPC-1002'' else ''GH-IPC-2003'');
            protocol_status = (if late then Session_timed_out
              else if invalid then Session_invalid_request else Session_io_error);
            m = (if late then ''Controller protocol request timed out.''
              else ''Controller protocol frame is invalid.'')
        in do {
          r \<leftarrow> refuse_session s st peer (\<lambda>t. protocol_event t (if late then Warning else Error) event_id
              ''controller-protocol'' (if late then ''timed_out'' else ''rejected'')
              (if late then ''Controller protocol request timed out.''
               else ''Controller protocol frame could not be read.'') (Some peer))
            event_id m (session_result_of protocol_status event_id m (Some peer));
          return (r, st)
        })
     else
       (let parsed = parse_request payload
        in case (if pa_valid parsed then pa_request parsed else None) of
             None \<Rightarrow> do {
               r \<leftarrow> refuse_session s st peer (\<lambda>t. protocol_event t Warning (pa_event_id parsed)
                   ''controller-protocol'' ''rejected'' (pa_message parsed) (Some peer))
                 (pa_event_id parsed) (pa_message parsed)
                 (session_result_of Session_invalid_request (pa_event_id parsed) (pa_message parsed) (Some peer));
               return (r, st)
             }
           | Some rq \<Rightarrow> serve_request s st peer rq)
   }"

definition serve ::
  "protocol_session \<Rightarrow> connection \<Rightarrow> int \<Rightarrow> controller_state \<Rightarrow> (session_result \<times> controller_state) io" where
  "serve s conn io_timeout st = do {
     usable \<leftarrow> (if cn_descriptor conn < 0 \<or> io_timeout \<le> 0 \<or> io_timeout > maximum_io_timeout
       then return False else configure_socket);
     let peer = read_credentials conn;
     if \<not> usable
     then return (session_result_of Session_io_error ''GH-IPC-2003''
       ''Controller protocol socket or timeout is invalid.'' None, st)
     else if \<not> pc_available peer then do {
       r \<leftarrow> refuse_session s st peer (\<lambda>t. protocol_event t Error (pc_event_id peer) ''controller-protocol''
           ''failed'' (pc_message peer) None)
         (pc_event_id peer) ''Peer credentials could not be verified.''
         (session_result_of Session_peer_rejected (pc_event_id peer) (pc_message peer) (Some peer));
       return (r, st)
     }
     else if \<not> policy_allows (ps_policy s) peer then do {
       r \<leftarrow> refuse_session s st peer (\<lambda>t. protocol_event t Warning ''GH-IPC-1001'' ''controller-protocol''
           ''rejected'' ''Unix peer is not allowed to use the controller protocol.'' (Some peer))
         ''GH-IPC-1001'' ''Peer is not authorized for the controller protocol.''
         (session_result_of Session_peer_rejected ''GH-IPC-1001''
           ''Unix peer is not allowed to use the controller protocol.'' (Some peer));
       return (r, st)
     }
     else do {
       audited \<leftarrow> session_append s (\<lambda>t. protocol_event t Info ''GH-IPC-0001'' ''controller-protocol''
         ''authenticated'' ''Unix peer credentials were accepted.'' (Some peer));
       if \<not> audited then do {
         r \<leftarrow> respond (response_payload ''protocol-request'' ''error'' st ''GH-IPC-2004''
             ''Controller protocol audit is unavailable.'' None) peer
           (session_result_of Session_audit_failed ''GH-IPC-2004''
             ''Peer authentication could not be audited.'' (Some peer));
         return (r, st)
       }
       else serve_frame s st peer
     }
   }"

section \<open>What a session does\<close>

lemma wp_return_eta [simp]: "wp (State_Monad.return a) Q = Q a"
  by (rule ext) simp

text \<open>The main program gives session, controller and activation service one journal.\<close>

definition session_wired :: "protocol_session \<Rightarrow> bool" where
  "session_wired s \<longleftrightarrow> wired (ps_controller s) \<and> ps_journal s = ctl_journal (ps_controller s)"

abbreviation session_service :: "protocol_session \<Rightarrow> activation_service" where
  "session_service s \<equiv> ctl_service (ps_controller s)"

text \<open>
  From \<open>w0\<close> to \<open>w\<close> only the events \<open>es\<close> were logged and the bytes
  \<open>out\<close> were sent; unless \<open>rd\<close> holds, nothing was read from the peer.
\<close>

definition session_effect ::
  "activation_service \<Rightarrow> bool \<Rightarrow> event list \<Rightarrow> string \<Rightarrow> world \<Rightarrow> world \<Rightarrow> bool" where
  "session_effect svc rd es out w0 w \<longleftrightarrow>
     actions w = actions w0 @ map Audited es \<and> firewall_view svc w = firewall_view svc w0 \<and>
     outbound w = outbound w0 @ out \<and> (\<not> rd \<longrightarrow> inbound w = inbound w0)"

lemma session_effect_start: "session_effect svc False [] [] w w"
  by (simp add: session_effect_def)

lemma session_effect_settle [simp]:
  "session_effect svc rd es out w0 (w\<lparr>script := rs\<rparr>) = session_effect svc rd es out w0 w"
  "session_effect svc rd es out w0 (w\<lparr>last_errno := e\<rparr>) = session_effect svc rd es out w0 w"
  by (simp_all add: session_effect_def firewall_view_def)

lemma wp_configure_socket:
  "session_effect svc rd es out w0 w \<Longrightarrow> (\<And>ok w'. session_effect svc rd es out w0 w' \<Longrightarrow> Q ok w') \<Longrightarrow>
     wp configure_socket Q w"
  unfolding configure_socket_def by (auto intro!: wp_plain_call)

lemma wp_session_append:
  assumes "session_wired s" "session_effect (session_service s) rd es out w0 w"
    and "\<And>ok t w'. session_effect (session_service s) rd (es @ (if ok then [build t] else [])) out w0 w' \<Longrightarrow> Q ok w'"
  shows "wp (session_append s build) Q w"
  unfolding session_append_def
proof (simp only: wp_simp, rule wp_journal_append_audited)
  let ?w = "w\<lparr>clock_reads := Suc (clock_reads w)\<rparr>" and ?e = "build (clock w (clock_reads w))"
  fix r w' assume aud: "audited (ps_journal s) (if journal_ok r then [?e] else []) ?w w'"
  have "firewall_view (session_service s) w' = firewall_view (session_service s) ?w"
    using assms(1) aud by (intro view_audited) (auto simp: session_wired_def wired_def)
  then have "session_effect (session_service s) rd (es @ (if journal_ok r then [?e] else [])) out w0 w'"
    using assms(2) aud by (auto simp: session_effect_def audited_def same_setting_def simp del: firewall_view_sel)
  then show "wp (return (journal_ok r)) Q w'" by (simp add: assms(3))
qed

lemma wp_write_frame:
  assumes "session_effect svc rd es out w0 w"
    and "\<And>status part w'. session_effect svc rd es (out @ part) w0 w' \<Longrightarrow> prefix part (frame_bytes p) \<Longrightarrow>
      (status = Io_completed \<Longrightarrow> part = frame_bytes p) \<Longrightarrow> Q status w'"
  shows "wp (write_frame p) Q w"
proof -
  obtain status part rs where send: "send_frame (send_events w) p = (status, part, rs)" by (metis surj_pair)
  have "session_effect svc rd es (out @ part) w0 (w\<lparr>send_events := rs, outbound := outbound w @ part\<rparr>)"
    using assms(1)
    by (auto simp: session_effect_def firewall_view_def revision_text_def [abs_def] marker_def stored_def)
  then show ?thesis
    using send send_frame_prefix [OF send]
    by (auto simp: wp_def write_frame_def split: if_splits intro: assms(2))
qed

lemma wp_read_frame:
  assumes "session_effect svc False es out w0 w"
    and "\<And>status p w'. session_effect svc True es out w0 w' \<Longrightarrow>
      (status = Io_completed \<Longrightarrow> prefix (frame_bytes p) (stream_bytes (inbound w0))) \<Longrightarrow> Q (status, p) w'"
  shows "wp read_frame Q w"
proof -
  obtain status p es' where receive: "receive_frame (inbound w) = (status, p, es')" by (metis surj_pair)
  have "session_effect svc True es out w0 (w\<lparr>inbound := es'\<rparr>)" "inbound w = inbound w0"
    using assms(1)
    by (auto simp: session_effect_def firewall_view_def revision_text_def [abs_def] marker_def stored_def)
  then show ?thesis
    using receive receive_frame_sound(2) [of "inbound w" p es']
    by (auto simp: wp_def read_frame_def intro!: assms(2))
qed

text \<open>At most one frame was sent, and a whole one unless the session reports an I/O error.\<close>

definition one_response :: "session_result \<Rightarrow> string \<Rightarrow> bool" where
  "one_response r out \<longleftrightarrow>
     (\<exists>p. prefix out (frame_bytes p) \<and> (sr_status r \<noteq> Session_io_error \<longrightarrow> out = frame_bytes p))"

lemma session_result_of_sel [simp]:
  "sr_status (session_result_of status i m c) = status"
  "sr_status (io_failure peer) = Session_io_error"
  by (simp_all add: session_result_of_def io_failure_def)

definition quiet_session ::
  "protocol_session \<Rightarrow> controller_state \<Rightarrow> world \<Rightarrow> session_result \<times> controller_state \<Rightarrow> world \<Rightarrow> bool" where
  "quiet_session s st w0 x w \<longleftrightarrow>
     snd x = st \<and> (\<exists>rd es out. session_effect (session_service s) rd es out w0 w \<and> one_response (fst x) out)"

lemma quiet_sessionI:
  "session_effect (session_service s) rd es out w0 w \<Longrightarrow> one_response r out \<Longrightarrow> quiet_session s st w0 (r, st) w"
  unfolding quiet_session_def by auto

lemma wp_respond:
  assumes "session_effect svc rd es [] w0 w"
    and "\<And>r out w'. session_effect svc rd es out w0 w' \<Longrightarrow> one_response r out \<Longrightarrow>
      r = result \<or> sr_status r = Session_io_error \<Longrightarrow> Q r w'"
  shows "wp (respond response peer result) Q w"
  unfolding respond_def
  by (simp only: wp_simp, rule wp_write_frame [OF assms(1)])
    (auto simp: one_response_def intro!: assms(2))

lemma wp_refuse_session:
  assumes "session_wired s" "session_effect (session_service s) rd es [] w0 w"
    and "\<And>r out es' w'. session_effect (session_service s) rd es' out w0 w' \<Longrightarrow> one_response r out \<Longrightarrow>
      length es' \<le> Suc (length es) \<Longrightarrow> r = result \<or> sr_status r = Session_io_error \<Longrightarrow> Q r w'"
  shows "wp (refuse_session s st peer build i m result) Q w"
  unfolding refuse_session_def
proof (simp only: wp_simp, rule wp_session_append [OF assms(1,2)], goal_cases)
  case (1 ok t w1)
  then show ?case by (rule wp_respond) (rule assms(3), auto)
qed

lemma wp_serve_status:
  assumes "session_wired s" "session_effect (session_service s) rd es [] w0 w"
    and "\<And>r out es' w'. session_effect (session_service s) rd es' out w0 w' \<Longrightarrow> one_response r out \<Longrightarrow> Q r w'"
  shows "wp (serve_status s st peer i) Q w"
  unfolding serve_status_def
proof (simp only: wp_simp, rule wp_write_frame [OF assms(2)], goal_cases)
  case (1 status part w1)
  then show ?case
    by (cases "status = Io_completed")
      (auto simp: one_response_def intro!: wp_session_append [OF assms(1)] assms(3))
qed

lemma outcome_situation:
  "activation_outcome svc w0 q v r w \<Longrightarrow> \<exists>ms v'. situation svc w0 ms v' w"
  by (auto simp: activation_outcome_def untouched_def attempted_def Let_def undone_def committed_run_def
      split: if_splits)

text \<open>A dispatched activation neither reads from the peer nor answers it.\<close>

lemma wp_controller_activate_situation:
  assumes "wired c"
  shows "wp (controller_activate c st q) (\<lambda>x w'. \<exists>ms v. situation (ctl_service c) w ms v w') w"
proof -
  let ?svc = "ctl_service c"
  have sep: "separate ?svc" using assms by (simp add: wired_def)
  have append: "wp (controller_append c sev i op act outcome m st') (\<lambda>_ w'. \<exists>ms v. situation ?svc w ms v w') w1"
    if "situation ?svc w ms v w1" for sev i op act outcome m st' ms v w1
    by (rule wp_controller_append [OF assms that]) blast
  show ?thesis
  proof (cases "st = Ctl_ready")
    case False
    then show ?thesis
      unfolding controller_activate_def
      by (simp only: simp_thms if_True wp_simp, intro wp_mono [OF append [OF situation_start]]) simp
  next
    case True
    show ?thesis
      unfolding controller_activate_def
    proof (simp only: True simp_thms if_False wp_simp, rule wp_mono [OF wp_activate [OF sep]], goal_cases)
      case (1 r w1)
      then obtain ms v where sit: "situation ?svc w ms v w1" using outcome_situation by blast
      then show ?case by (auto intro!: wp_mono [OF append [OF sit]])
    qed
  qed
qed

lemma wp_controller_refuses:
  assumes "session_wired s" "st \<noteq> Ctl_ready" "session_effect (session_service s) rd es out w0 w"
    and "\<And>x es' w'. snd x = st \<Longrightarrow> session_effect (session_service s) rd es' out w0 w' \<Longrightarrow> Q x w'"
  shows "wp (controller_activate (ps_controller s) st q) Q w"
proof -
  have same: "controller_append (ps_controller s) sev i op act outcome m st' =
      session_append s (\<lambda>t. controller_event t sev i op act outcome m st')" for sev i op act outcome m st'
    using assms(1) by (simp add: controller_append_def session_append_def session_wired_def)
  show ?thesis
    using assms(2) unfolding controller_activate_def same
    by (auto intro!: wp_session_append [OF assms(1,3)] assms(4))
qed

text \<open>
  A session that dispatched the activation \<open>q\<close>: the allowed peer sent a frame with this
  request, its identity and the dispatch were logged first, and then the controller acted.
\<close>

definition authentication_event :: "peer_credentials \<Rightarrow> string \<Rightarrow> event" where
  "authentication_event peer t = protocol_event t Info ''GH-IPC-0001'' ''controller-protocol''
     ''authenticated'' ''Unix peer credentials were accepted.'' (Some peer)"

definition dispatched_session ::
  "protocol_session \<Rightarrow> connection \<Rightarrow> world \<Rightarrow> session_result \<times> controller_state \<Rightarrow> world \<Rightarrow> bool" where
  "dispatched_session s conn w0 x w \<longleftrightarrow>
     (\<exists>payload rq q t1 t2 xs out.
        policy_allows (ps_policy s) (read_credentials conn) \<and>
        prefix (frame_bytes payload) (stream_bytes (inbound w0)) \<and>
        documented_request payload rq \<and> pq_activation rq = Some q \<and>
        actions w = actions w0 @ Audited (authentication_event (read_credentials conn) t1) #
          Audited (dispatch_event rq (read_credentials conn) t2) # xs \<and>
        outbound w = outbound w0 @ out \<and> one_response (fst x) out)"

lemma wp_serve_activation_ready:
  assumes "session_wired s" "session_effect (session_service s) rd es [] w0 w"
    and "\<And>r st' xs out w'. actions w' = actions w0 @ map Audited es @ xs \<Longrightarrow> outbound w' = outbound w0 @ out \<Longrightarrow>
      one_response r out \<Longrightarrow> Q (r, st') w'"
  shows "wp (serve_activation s st peer i q) Q w"
proof -
  have wired: "wired (ps_controller s)" using assms(1) by (simp add: session_wired_def)
  show ?thesis
    unfolding serve_activation_def Let_def
  proof (simp only: split_beta wp_simp, rule wp_mono [OF wp_controller_activate_situation [OF wired]], goal_cases)
    case (1 x w1)
    then obtain ms v xs where sit: "situation (session_service s) w ms v w1" and xs: "actions w1 = actions w @ xs"
      by (auto simp: situation_def)
    have start: "session_effect (session_service s) True [] [] w1 w1" by (simp add: session_effect_def)
    have "outbound w1 = outbound w0" "actions w1 = actions w0 @ map Audited es @ xs"
      using sit xs assms(2) by (auto simp: situation_def same_setting_def session_effect_def)
    then have later: "Q (r, snd x) w'"
      if "session_effect (session_service s) True fs part w1 w'" "one_response r part" for r fs part w'
      using that by (intro assms(3) [where xs = "xs @ map Audited fs" and out = part]) (auto simp: session_effect_def)
    show ?case
    proof (simp only: wp_simp, rule wp_write_frame [OF start], goal_cases)
      case (1 status part w2)
      have one: "one_response r part" if "sr_status r = Session_io_error \<or> status = Io_completed" for r
        using 1(2,3) that unfolding one_response_def by blast
      show ?case
      proof (cases "status = Io_completed")
        case True
        with 1(1) one show ?thesis by (auto intro: later)
      next
        case False
        then show ?thesis
          using one by (simp only: if_True simp_thms wp_simp, intro wp_session_append [OF assms(1) 1(1)])
            (auto intro: later)
      qed
    qed
  qed
qed

text \<open>Every way a session can end.\<close>

definition session_outcome ::
  "protocol_session \<Rightarrow> connection \<Rightarrow> controller_state \<Rightarrow> world \<Rightarrow> session_result \<times> controller_state \<Rightarrow>
     world \<Rightarrow> bool" where
  "session_outcome s conn st w0 x w \<longleftrightarrow>
     quiet_session s st w0 x w \<or> st = Ctl_ready \<and> dispatched_session s conn w0 x w"

lemma wp_serve_activation_refused:
  assumes "session_wired s" "st \<noteq> Ctl_ready" "session_effect (session_service s) rd es [] w0 w"
  shows "wp (serve_activation s st peer i q) (quiet_session s st w0) w"
  unfolding serve_activation_def Let_def
proof (simp only: split_beta wp_simp, rule wp_controller_refuses [OF assms(1,2,3)], goal_cases)
  case (1 x es1 w1)
  show ?case
  proof (simp only: wp_simp, rule wp_write_frame [OF 1(2)], goal_cases)
    case (1 status part w2)
    have one: "one_response r part" if "sr_status r = Session_io_error \<or> status = Io_completed" for r
      using 1(2,3) that unfolding one_response_def by blast
    have effect: "session_effect (session_service s) rd es1 part w0 w2" using 1(1) by simp
    show ?case
    proof (cases "status = Io_completed")
      case True
      with effect one \<open>snd x = st\<close> show ?thesis by (auto intro: quiet_sessionI)
    next
      case False
      then show ?thesis
        using one \<open>snd x = st\<close>
        by (simp only: if_True simp_thms wp_simp, intro wp_session_append [OF assms(1) effect])
          (auto intro: quiet_sessionI)
    qed
  qed
qed

lemma wp_serve_request:
  assumes "session_wired s" "policy_allows (ps_policy s) (read_credentials conn)"
    and "session_effect (session_service s) True [authentication_event (read_credentials conn) t1] [] w0 w"
    and "prefix (frame_bytes payload) (stream_bytes (inbound w0))" "documented_request payload rq"
  shows "wp (serve_request s st (read_credentials conn) rq) (session_outcome s conn st w0) w"
  unfolding serve_request_def
proof (simp only: wp_simp, rule wp_session_append [OF assms(1,3)], goal_cases)
  case (1 ok t w1)
  show ?case
  proof (cases ok)
    case False
    with 1 show ?thesis
      by (auto simp: session_outcome_def intro!: wp_respond intro: quiet_sessionI)
  next
    case True
    let ?peer = "read_credentials conn"
    from 1 True have effect: "session_effect (session_service s) True
        [authentication_event ?peer t1, dispatch_event rq ?peer t] [] w0 w1" by simp
    have quiet: "wp (serve_status s st ?peer (pq_request_id rq)) (\<lambda>r. session_outcome s conn st w0 (r, st)) w1"
      by (rule wp_serve_status [OF assms(1) effect]) (auto simp: session_outcome_def intro: quiet_sessionI)
    have act: "wp (serve_activation s st ?peer (pq_request_id rq) q) (session_outcome s conn st w0) w1"
      if "pq_activation rq = Some q" for q
    proof (cases "st = Ctl_ready")
      case True
      show ?thesis
      proof (rule wp_serve_activation_ready [OF assms(1) effect], goal_cases)
        case (1 r st' xs out w')
        then have "dispatched_session s conn w0 (r, st') w'"
          unfolding dispatched_session_def using assms(2,4,5) that by auto
        with True show ?case by (simp add: session_outcome_def)
      qed
    next
      case False
      show ?thesis
        by (rule wp_mono [OF wp_serve_activation_refused [OF assms(1) False effect]])
          (simp add: session_outcome_def)
    qed
    show ?thesis
      using True quiet act
      by (auto split: request_operation.split option.split)
  qed
qed

lemma wp_serve_frame:
  assumes "session_wired s" "policy_allows (ps_policy s) (read_credentials conn)"
    and "session_effect (session_service s) False [authentication_event (read_credentials conn) t] [] w0 w"
  shows "wp (serve_frame s st (read_credentials conn)) (session_outcome s conn st w0) w"
  unfolding serve_frame_def Let_def
proof (simp only: split_beta wp_simp, rule wp_read_frame [OF assms(3)], goal_cases)
  case (1 status payload w1)
  let ?rq = "if pa_valid (parse_request payload) then pa_request (parse_request payload) else None"
  show ?case
  proof (cases "status = Io_completed \<and> ?rq \<noteq> None")
    case False
    have refused: "wp (refuse_session s st (read_credentials conn) build i m result)
        (\<lambda>r. session_outcome s conn st w0 (r, st)) w1" for build i m result
      by (rule wp_refuse_session [OF assms(1) 1(1)]) (auto simp: session_outcome_def intro: quiet_sessionI)
    with False show ?thesis by (auto split: option.split)
  next
    case True
    then obtain rq where rq: "?rq = Some rq" by blast
    then have "documented_request payload rq"
      using parse_request_iff [of payload rq] by (auto split: if_splits)
    with True 1 rq show ?thesis
      by (auto intro!: wp_serve_request [OF assms(1,2)])
  qed
qed

lemma wp_serve:
  assumes "session_wired s"
  shows "wp (serve s conn io_timeout st) (session_outcome s conn st w) w"
proof -
  let ?peer = "read_credentials conn" and ?svc = "session_service s"
  have configured: "wp (if cn_descriptor conn < 0 \<or> io_timeout \<le> 0 \<or> io_timeout > maximum_io_timeout
      then return False else configure_socket) (\<lambda>_ w'. session_effect ?svc False [] [] w w') w"
    by (auto intro: wp_configure_socket session_effect_start)
  have silent: "one_response (session_result_of Session_io_error i m c) []" for i m c
    by (simp add: one_response_def)
  show ?thesis
    unfolding serve_def Let_def
  proof (simp only: wp_bind, rule wp_mono [OF configured], goal_cases)
    case (1 usable w1)
    have refused: "wp (refuse_session s st ?peer build i m result) (\<lambda>r. session_outcome s conn st w (r, st)) w1"
      for build i m result
      by (rule wp_refuse_session [OF assms 1]) (auto simp: session_outcome_def intro: quiet_sessionI)
    have allowed: "wp (session_append s (authentication_event ?peer)) (\<lambda>ok w'.
        if ok then \<exists>t. session_effect ?svc False [authentication_event ?peer t] [] w w'
        else session_effect ?svc False [] [] w w') w1"
      by (rule wp_session_append [OF assms 1]) (auto split: if_splits)
    have event: "(\<lambda>t. protocol_event t Info ''GH-IPC-0001'' ''controller-protocol'' ''authenticated''
        ''Unix peer credentials were accepted.'' (Some ?peer)) = authentication_event ?peer"
      by (simp add: authentication_event_def fun_eq_iff)
    have served: "wp (session_append s (authentication_event ?peer)) (\<lambda>audited. wp (if \<not> audited then do {
         r \<leftarrow> respond (response_payload ''protocol-request'' ''error'' st ''GH-IPC-2004''
             ''Controller protocol audit is unavailable.'' None) ?peer
           (session_result_of Session_audit_failed ''GH-IPC-2004''
             ''Peer authentication could not be audited.'' (Some ?peer));
         return (r, st)
       }
       else serve_frame s st ?peer) (session_outcome s conn st w)) w1"
      if "policy_allows (ps_policy s) ?peer"
    proof (rule wp_mono [OF allowed], goal_cases)
      case (1 audited w2)
      show ?case
      proof (cases audited)
        case True
        with 1 show ?thesis by (auto intro: wp_serve_frame [OF assms that])
      next
        case False
        with 1 show ?thesis
          by (auto simp: session_outcome_def intro!: wp_respond intro: quiet_sessionI)
      qed
    qed
    have "session_outcome s conn st w (session_result_of Session_io_error i m c, st) w1" for i m c
      using quiet_sessionI [OF 1 silent] by (simp add: session_outcome_def)
    with refused served show ?case by (auto simp: event)
  qed
qed

section \<open>What a peer can cause\<close>

lemma serve_outcome:
  "session_wired s \<Longrightarrow> run_state (serve s conn io_timeout st) w = ((r, st'), w') \<Longrightarrow>
     session_outcome s conn st w (r, st') w'"
  by (rule wpD [OF wp_serve])

text \<open>
  C22. An activation is dispatched only for the allowed peer, only on a well-formed request, only by a
  ready controller and only after two audit entries. Every other session leaves the lifecycle state,
  archive, marker and pending record alone and visibly does nothing but log.
\<close>

theorem dispatch_is_authenticated:
  assumes "session_wired s" and "run_state (serve s conn io_timeout st) w = ((r, st'), w')"
  shows "(st' = st \<and> firewall_view (session_service s) w' = firewall_view (session_service s) w \<and>
      (\<exists>es. actions w' = actions w @ map Audited es)) \<or>
     (st = Ctl_ready \<and> policy_allows (ps_policy s) (read_credentials conn) \<and>
      (\<exists>payload rq q t1 t2 xs.
         prefix (frame_bytes payload) (stream_bytes (inbound w)) \<and>
         documented_request payload rq \<and> pq_activation rq = Some q \<and>
         actions w' = actions w @ Audited (authentication_event (read_credentials conn) t1) #
           Audited (dispatch_event rq (read_credentials conn) t2) # xs))"
  using serve_outcome [OF assms]
  unfolding session_outcome_def quiet_session_def dispatched_session_def session_effect_def fst_conv snd_conv
  by blast

text \<open>
  One connection gets at most one response: what is sent is a prefix of a single frame, and the
  whole frame unless the session reports an I/O error.
\<close>

theorem one_response_per_session:
  assumes "session_wired s" and "run_state (serve s conn io_timeout st) w = ((r, st'), w')"
  shows "\<exists>p out. outbound w' = outbound w @ out \<and> prefix out (frame_bytes p) \<and>
     (sr_status r \<noteq> Session_io_error \<longrightarrow> out = frame_bytes p)"
  using serve_outcome [OF assms]
  by (auto simp: session_outcome_def quiet_session_def dispatched_session_def session_effect_def
      one_response_def)

lemma wp_serve_stranger:
  assumes "session_wired s" "\<not> policy_allows (ps_policy s) (read_credentials conn)"
  shows "wp (serve s conn io_timeout st) (\<lambda>x w'. snd x = st \<and>
     (\<exists>es out. session_effect (session_service s) False es out w w' \<and> length es \<le> 1) \<and>
     sr_status (fst x) \<in> {Session_peer_rejected, Session_io_error}) w"
proof -
  let ?Q = "\<lambda>x w'. snd x = st \<and>
     (\<exists>es out. session_effect (session_service s) False es out w w' \<and> length es \<le> 1) \<and>
     sr_status (fst x) \<in> {Session_peer_rejected, Session_io_error}"
  have configured: "wp (if cn_descriptor conn < 0 \<or> io_timeout \<le> 0 \<or> io_timeout > maximum_io_timeout
      then return False else configure_socket) (\<lambda>_ w'. session_effect (session_service s) False [] [] w w') w"
    by (auto intro: wp_configure_socket session_effect_start)
  show ?thesis
    unfolding serve_def Let_def
  proof (simp only: wp_bind, rule wp_mono [OF configured], goal_cases)
    case (1 usable w1)
    have refused: "wp (refuse_session s st (read_credentials conn) build i m
        (session_result_of Session_peer_rejected i' m' c)) (\<lambda>r. ?Q (r, st)) w1" for build i m i' m' c
      by (rule wp_refuse_session [OF assms(1) 1]) (auto intro: exI)
    have "?Q (session_result_of Session_io_error i m c, st) w1" for i m c
      using 1 by (auto intro!: exI [of _ "[]"])
    with refused assms(2) show ?case by auto
  qed
qed

text \<open>
  A peer without the allowed credentials has no effect: not a byte of its request is read, no
  state changes, at most one line is logged, and it is never told that its request completed.
\<close>

theorem stranger_has_no_effect:
  assumes "session_wired s" and "\<not> policy_allows (ps_policy s) (read_credentials conn)"
    and "run_state (serve s conn io_timeout st) w = ((r, st'), w')"
  shows "st' = st \<and> inbound w' = inbound w \<and>
     firewall_view (session_service s) w' = firewall_view (session_service s) w \<and>
     (\<exists>es. length es \<le> 1 \<and> actions w' = actions w @ map Audited es) \<and>
     sr_status r \<in> {Session_peer_rejected, Session_io_error}"
  using wpD [OF wp_serve_stranger [OF assms(1,2)] assms(3)]
  unfolding session_effect_def fst_conv snd_conv by blast

section \<open>A concrete session\<close>

definition sample_session :: protocol_session where
  "sample_session = \<lparr>ps_controller = sample_controller, ps_journal = ''/j'',
     ps_policy = \<lparr>pp_user_id = 1000, pp_group_id = Some 100\<rparr>\<rparr>"

definition sample_peer :: "nat \<Rightarrow> connection" where
  "sample_peer uid = \<lparr>cn_descriptor = 7, cn_credentials = Some (uid, 100)\<rparr>"

lemma sample_session_wired [simp]: "session_wired sample_session"
  by (simp add: session_wired_def sample_session_def) (simp add: sample_controller_def)

lemma sample_policy [simp]:
  "policy_allows (ps_policy sample_session) (read_credentials (sample_peer uid)) \<longleftrightarrow> uid = 1000"
  by (simp add: policy_allows_def read_credentials_def sample_peer_def sample_session_def)

lemma dispatch_is_authenticated_witness:
  "case run_state (serve sample_session (sample_peer 1001) 1000 Ctl_ready) sample_world of
     ((r, st'), w') \<Rightarrow> st' = Ctl_ready \<and> (\<exists>es. actions w' = actions sample_world @ map Audited es)"
proof -
  obtain r st' w' where run:
    "run_state (serve sample_session (sample_peer 1001) 1000 Ctl_ready) sample_world = ((r, st'), w')"
    by (metis surj_pair)
  from dispatch_is_authenticated [OF sample_session_wired run] show ?thesis by (auto simp: run)
qed

lemma one_response_per_session_witness:
  "case run_state (serve sample_session (sample_peer 1000) 1000 Ctl_ready) sample_world of
     ((r, st'), w') \<Rightarrow> \<exists>p out. outbound w' = outbound sample_world @ out \<and> prefix out (frame_bytes p)"
proof -
  obtain r st' w' where run:
    "run_state (serve sample_session (sample_peer 1000) 1000 Ctl_ready) sample_world = ((r, st'), w')"
    by (metis surj_pair)
  from one_response_per_session [OF sample_session_wired run] show ?thesis by (auto simp: run)
qed

lemma stranger_has_no_effect_witness:
  "case run_state (serve sample_session (sample_peer 1001) 1000 Ctl_ready) sample_world of
     ((r, st'), w') \<Rightarrow> st' = Ctl_ready \<and> sr_status r \<in> {Session_peer_rejected, Session_io_error}"
proof -
  obtain r st' w' where run:
    "run_state (serve sample_session (sample_peer 1001) 1000 Ctl_ready) sample_world = ((r, st'), w')"
    by (metis surj_pair)
  from stranger_has_no_effect [OF sample_session_wired _ run] show ?thesis by (simp add: run)
qed

end
