(* ===== verification/Rate_Limiter.thy ===== *)
theory Rate_Limiter
  imports Prelude
begin

text \<open>
  The admission rate limiter (\<open>admission_rate_limiter.cpp\<close>): a bounded list of recent
  admissions, pruned on every call. It is checked against a reference limiter that remembers every
  admission, and the sliding-window bound is proved for the reference. Time points of the steady
  clock are counts of nanoseconds, the configured window is in milliseconds; both are integers here,
  the differences that the code forms stay far inside 64 bits.
\<close>

section \<open>The limiter\<close>

record rate_config =
  rc_maximum_admissions :: nat
  rc_window :: int

record rate_decision =
  rd_admitted :: bool
  rd_retry_after :: int

record rate_limiter =
  rl_config :: rate_config
  rl_admissions :: "int list"
  rl_last_observation :: int
  rl_has_observation :: bool

definition maximum_admission_limit :: nat where "maximum_admission_limit = 1024"
definition minimum_window :: int where "minimum_window = 100"
definition maximum_window :: int where "maximum_window = 3600000"

definition rate_config_valid :: "rate_config \<Rightarrow> bool" where
  "rate_config_valid c \<longleftrightarrow>
     rc_maximum_admissions c > 0 \<and> rc_maximum_admissions c \<le> maximum_admission_limit \<and>
     rc_window c \<ge> minimum_window \<and> rc_window c \<le> maximum_window"

definition new_rate_limiter :: "rate_config \<Rightarrow> rate_limiter" where
  "new_rate_limiter c =
     \<lparr>rl_config = c, rl_admissions = [], rl_last_observation = 0, rl_has_observation = False\<rparr>"

text \<open>Nanoseconds in a millisecond, and \<open>duration_cast\<close> between the two, which
  truncates towards zero.\<close>

definition millisecond :: int where "millisecond = 1000000"

definition to_milliseconds :: "int \<Rightarrow> int" where
  "to_milliseconds d = (if d < 0 then - ((- d) div millisecond) else d div millisecond)"

definition window_of :: "rate_limiter \<Rightarrow> int" where
  "window_of l = rc_window (rl_config l) * millisecond"

definition try_admit :: "int \<Rightarrow> rate_limiter \<Rightarrow> rate_decision \<times> rate_limiter" where
  "try_admit now l =
     (if \<not> rate_config_valid (rl_config l)
      then (\<lparr>rd_admitted = False, rd_retry_after = rc_window (rl_config l)\<rparr>, l)
      else if rl_has_observation l \<and> now < rl_last_observation l
      then (\<lparr>rd_admitted = False, rd_retry_after = rc_window (rl_config l)\<rparr>, l)
      else
        (let active = dropWhile (\<lambda>admitted. \<not> now - admitted < window_of l) (rl_admissions l);
             l = l\<lparr>rl_last_observation := now, rl_has_observation := True, rl_admissions := active\<rparr>
         in if length active \<ge> rc_maximum_admissions (rl_config l)
            then
              (let remaining = window_of l - (now - hd active);
                   retry_after = to_milliseconds remaining
               in (\<lparr>rd_admitted = False,
                    rd_retry_after = (if retry_after * millisecond < remaining then retry_after + 1
                      else retry_after)\<rparr>, l))
            else (\<lparr>rd_admitted = True, rd_retry_after = 0\<rparr>, l\<lparr>rl_admissions := active @ [now]\<rparr>)))"

definition reset_limiter :: "rate_limiter \<Rightarrow> rate_limiter" where
  "reset_limiter l =
     l\<lparr>rl_admissions := [], rl_last_observation := 0, rl_has_observation := False\<rparr>"

section \<open>What a sliding-window limiter promises\<close>

text \<open>The admissions of the last \<open>w\<close> time units before \<open>now\<close>.\<close>

definition recent :: "int \<Rightarrow> int \<Rightarrow> int list \<Rightarrow> int list" where
  "recent w now history = filter (\<lambda>admitted. now - admitted < w) history"

text \<open>The admissions of a sequence of calls.\<close>

fun admit_all :: "(int \<Rightarrow> 's \<Rightarrow> bool \<times> 's) \<Rightarrow> 's \<Rightarrow> int list \<Rightarrow> int list \<times> 's" where
  "admit_all admit s [] = ([], s)"
| "admit_all admit s (now # ts) =
     (case admit now s of (ok, s1) \<Rightarrow>
        (case admit_all admit s1 ts of (admitted, s2) \<Rightarrow> ((if ok then now # admitted else admitted), s2)))"

text \<open>The reference limiter keeps the whole history and the last observation.\<close>

definition reference_admit ::
  "nat \<Rightarrow> int \<Rightarrow> int \<Rightarrow> int list \<times> int option \<Rightarrow> bool \<times> int list \<times> int option" where
  "reference_admit limit w now s =
     (case s of (history, latest) \<Rightarrow>
        if (case latest of None \<Rightarrow> False | Some t \<Rightarrow> now < t) then (False, history, latest)
        else if length (recent w now history) < limit then (True, history @ [now], Some now)
        else (False, history, Some now))"

text \<open>
  \<open>tracks s history latest\<close>: the limiter in state \<open>s\<close> has admitted
  \<open>history\<close> and last looked at the clock at \<open>latest\<close>. A call is refused when the
  clock runs backwards, and otherwise admitted exactly while fewer than \<open>limit\<close> admissions
  are recent.
\<close>

locale sliding_window =
  fixes limit :: nat and w :: int
    and admit :: "int \<Rightarrow> 's \<Rightarrow> bool \<times> 's"
    and tracks :: "'s \<Rightarrow> int list \<Rightarrow> int option \<Rightarrow> bool"
  assumes law: "tracks s history latest \<Longrightarrow> admit now s = (ok, s') \<Longrightarrow>
      (if (case latest of None \<Rightarrow> False | Some t \<Rightarrow> now < t)
       then \<not> ok \<and> tracks s' history latest
       else (ok \<longleftrightarrow> length (recent w now history) < limit) \<and>
            tracks s' (if ok then history @ [now] else history) (Some now))"
begin

lemma recent_bounded:
  "sorted history \<Longrightarrow> \<forall>a \<in> set history. a \<le> now \<Longrightarrow> length (recent w now history) < limit \<Longrightarrow>
     \<forall>t. length (filter (\<lambda>a. t \<le> a \<and> a < t + w) history) \<le> limit \<Longrightarrow>
     length (filter (\<lambda>a. t \<le> a \<and> a < t + w) (history @ [now])) \<le> limit"
proof -
  assume now: "\<forall>a \<in> set history. a \<le> now" and few: "length (recent w now history) < limit"
    and before: "\<forall>t. length (filter (\<lambda>a. t \<le> a \<and> a < t + w) history) \<le> limit"
  show ?thesis
  proof (cases "t \<le> now \<and> now < t + w")
    case False
    then show ?thesis using before by auto
  next
    case True
    have "filter (\<lambda>a. t \<le> a \<and> a < t + w) history = filter (\<lambda>a. t \<le> a) (recent w now history)"
      using now True unfolding recent_def by (induction history) auto
    then have "length (filter (\<lambda>a. t \<le> a \<and> a < t + w) history) < limit"
      using le_less_trans [OF length_filter_le few] by simp
    then show ?thesis using True by simp
  qed
qed

lemma window_bound:
  assumes "tracks s history latest" "sorted history"
    and "\<And>a. a \<in> set history \<Longrightarrow> \<exists>t. latest = Some t \<and> a \<le> t"
    and "\<And>t. length (filter (\<lambda>a. t \<le> a \<and> a < t + w) history) \<le> limit"
  shows "length (filter (\<lambda>a. t \<le> a \<and> a < t + w) (history @ fst (admit_all admit s ts))) \<le> limit"
  using assms
proof (induction ts arbitrary: s history latest)
  case (Cons now ts)
  obtain ok s1 where step: "admit now s = (ok, s1)" by fastforce
  note law' = law [OF Cons.prems(1) step]
  show ?case
  proof (cases "case latest of None \<Rightarrow> False | Some t \<Rightarrow> now < t")
    case True
    with law' have "\<not> ok" "tracks s1 history latest" by simp_all
    with Cons.IH [of s1 history latest] Cons.prems step show ?thesis by (simp add: split_beta)
  next
    case False
    with law' have ok: "ok \<longleftrightarrow> length (recent w now history) < limit"
      and track: "tracks s1 (if ok then history @ [now] else history) (Some now)" by auto
    have le: "a \<le> now" if "a \<in> set history" for a
      using Cons.prems(3) [OF that] False by (auto split: option.splits)
    show ?thesis
    proof (cases ok)
      case True
      with track have "tracks s1 (history @ [now]) (Some now)" by simp
      then have "length (filter (\<lambda>a. t \<le> a \<and> a < t + w) ((history @ [now]) @ fst (admit_all admit s1 ts))) \<le> limit"
        using True ok Cons.prems(2,4) le recent_bounded [of history now]
        by (intro Cons.IH [where latest = "Some now"]) (auto simp: sorted_append)
      with True step show ?thesis by (simp add: split_beta)
    next
      case refused: False
      with track have "tracks s1 history (Some now)" by simp
      then have "length (filter (\<lambda>a. t \<le> a \<and> a < t + w) (history @ fst (admit_all admit s1 ts))) \<le> limit"
        using Cons.prems(2,4) le by (intro Cons.IH [where latest = "Some now"]) auto
      with refused step show ?thesis by (simp add: split_beta)
    qed
  qed
qed simp

lemma same_as_reference:
  assumes "tracks s history latest"
  shows "fst (admit_all admit s ts) = fst (admit_all (reference_admit limit w) (history, latest) ts)"
    "\<exists>history latest. tracks (snd (admit_all admit s ts)) history latest"
  using assms
proof (induction ts arbitrary: s history latest)
  case (Cons now ts)
  case 1
  obtain ok s1 where step: "admit now s = (ok, s1)" by fastforce
  from law [OF 1 step] Cons.IH(1) [of s1] step show ?case
    by (auto simp: reference_admit_def split_beta split: if_splits)
next
  case (Cons now ts)
  case 2
  obtain ok s1 where step: "admit now s = (ok, s1)" by fastforce
  from law [OF 2 step] have "\<exists>history latest. tracks s1 history latest"
    by (auto split: if_splits)
  with Cons.IH(2) [of s1] step show ?case by (auto simp: split_beta)
qed auto

end

section \<open>The limiter is a sliding window\<close>

definition limiter_admit :: "int \<Rightarrow> rate_limiter \<Rightarrow> bool \<times> rate_limiter" where
  "limiter_admit now l = map_prod rd_admitted id (try_admit now l)"

text \<open>The limiter's own list holds the admissions that were recent at its last look at the clock.\<close>

definition limiter_tracks :: "rate_config \<Rightarrow> rate_limiter \<Rightarrow> int list \<Rightarrow> int option \<Rightarrow> bool" where
  "limiter_tracks c l history latest \<longleftrightarrow>
     rl_config l = c \<and> sorted history \<and>
     (case latest of
        None \<Rightarrow> \<not> rl_has_observation l \<and> history = [] \<and> rl_admissions l = []
      | Some t \<Rightarrow> rl_has_observation l \<and> rl_last_observation l = t \<and> (\<forall>a \<in> set history. a \<le> t) \<and>
          rl_admissions l = recent (window_of l) t history \<and>
          length (rl_admissions l) \<le> rc_maximum_admissions c)"

lemma dropWhile_recent:
  "sorted history \<Longrightarrow> dropWhile (\<lambda>a. \<not> now - a < w) history = recent w now history"
proof (induction history)
  case (Cons a history)
  show ?case
  proof (cases "now - a < w")
    case True
    with Cons.prems have "\<forall>x \<in> set (a # history). now - x < w" by auto
    then have "recent w now (a # history) = a # history" by (simp add: recent_def filter_id_conv del: filter.simps)
    with True show ?thesis by simp
  qed (use Cons in \<open>simp add: recent_def\<close>)
qed (simp add: recent_def)

lemma recent_later: "t \<le> now \<Longrightarrow> recent w now (recent w t history) = recent w now history"
  unfolding recent_def by (induction history) auto

lemma sorted_recent: "sorted history \<Longrightarrow> sorted (recent w now history)"
  unfolding recent_def by (induction history) auto

lemma window_positive: "rate_config_valid (rl_config l) \<Longrightarrow> 0 < window_of l"
  by (simp add: rate_config_valid_def window_of_def minimum_window_def millisecond_def)

lemma limiter_law:
  assumes "limiter_tracks c l history latest" "rate_config_valid c" "limiter_admit now l = (ok, l')"
  shows "if (case latest of None \<Rightarrow> False | Some t \<Rightarrow> now < t)
     then \<not> ok \<and> limiter_tracks c l' history latest
     else (ok \<longleftrightarrow> length (recent (rc_window c * millisecond) now history) < rc_maximum_admissions c) \<and>
       limiter_tracks c l' (if ok then history @ [now] else history) (Some now)"
proof -
  from assms(1) have c: "rl_config l = c" and sorted: "sorted history"
    and cases: "case latest of None \<Rightarrow> \<not> rl_has_observation l \<and> history = [] \<and> rl_admissions l = []
      | Some t \<Rightarrow> rl_has_observation l \<and> rl_last_observation l = t \<and> (\<forall>a \<in> set history. a \<le> t) \<and>
          rl_admissions l = recent (window_of l) t history"
    by (auto simp: limiter_tracks_def split: option.splits)
  have w: "window_of l = rc_window c * millisecond" by (simp add: window_of_def c)
  show ?thesis
  proof (cases "case latest of None \<Rightarrow> False | Some t \<Rightarrow> now < t")
    case True
    with cases assms c have "ok = False" "l' = l"
      by (auto simp: limiter_admit_def try_admit_def split: option.splits)
    with True assms(1) show ?thesis by simp
  next
    case False
    then have order: "\<forall>a \<in> set history. a \<le> now" and "\<not> (rl_has_observation l \<and> now < rl_last_observation l)"
      using cases by (auto split: option.splits)
    moreover have active: "dropWhile (\<lambda>a. \<not> now - a < window_of l) (rl_admissions l) = recent (window_of l) now history"
      using cases sorted False
      by (auto simp: dropWhile_recent sorted_recent recent_later split: option.splits) (simp add: recent_def)
    moreover have "length (recent (window_of l) now history) \<le> rc_maximum_admissions c"
      using assms(1) length_dropWhile_le [of "\<lambda>a. \<not> now - a < window_of l" "rl_admissions l"]
      unfolding active by (auto simp: limiter_tracks_def recent_def split: option.splits)
    moreover have "0 < window_of l" using assms(2) c by (intro window_positive) simp
    ultimately show ?thesis
      using assms(2,3) False c sorted
      by (auto simp: limiter_admit_def try_admit_def Let_def limiter_tracks_def w window_of_def recent_def
          sorted_append split: if_splits)
  qed
qed

text \<open>The provider's side of the contract, for a configuration the limiter accepts.\<close>

interpretation limiter: sliding_window "rc_maximum_admissions c" "rc_window c * millisecond" limiter_admit
    "\<lambda>l history latest. rate_config_valid c \<and> limiter_tracks c l history latest"
  for c
proof
  fix l history latest now ok l'
  assume "rate_config_valid c \<and> limiter_tracks c l history latest" "limiter_admit now l = (ok, l')"
  then show "if (case latest of None \<Rightarrow> False | Some t \<Rightarrow> now < t)
     then \<not> ok \<and> rate_config_valid c \<and> limiter_tracks c l' history latest
     else (ok \<longleftrightarrow> length (recent (rc_window c * millisecond) now history) < rc_maximum_admissions c) \<and>
       rate_config_valid c \<and> limiter_tracks c l' (if ok then history @ [now] else history) (Some now)"
    using limiter_law [of c l history latest now ok l'] by (auto split: if_splits)
qed

lemma fresh_tracks: "limiter_tracks c (new_rate_limiter c) [] None"
  by (simp add: limiter_tracks_def new_rate_limiter_def)

lemma invalid_config: "\<not> rate_config_valid (rl_config l) \<Longrightarrow> snd (admit_all limiter_admit l ts) = l"
  by (induction ts) (auto simp: limiter_admit_def try_admit_def split_beta)

lemma reached_tracks:
  "rate_config_valid c \<Longrightarrow>
     \<exists>history latest. limiter_tracks c (snd (admit_all limiter_admit (new_rate_limiter c) ts)) history latest"
  using limiter.same_as_reference(2) [of c "new_rate_limiter c" "[]" None ts] fresh_tracks by blast

section \<open>What the limiter guarantees\<close>

text \<open>
  C25. However the calls are spread, no interval of the configured window length contains more
  admissions than the configured maximum, also when the clock runs backwards between calls.
\<close>

theorem admissions_bounded:
  assumes "rate_config_valid c"
  shows "length (filter (\<lambda>a. t \<le> a \<and> a < t + rc_window c * millisecond)
     (fst (admit_all limiter_admit (new_rate_limiter c) ts))) \<le> rc_maximum_admissions c"
  using limiter.window_bound [of c "new_rate_limiter c" "[]" None t ts] fresh_tracks assms by simp

lemma admissions_bounded_witness:
  "length (filter (\<lambda>a. 5 \<le> a \<and> a < 5 + 100 * millisecond)
     (fst (admit_all limiter_admit (new_rate_limiter \<lparr>rc_maximum_admissions = 2, rc_window = 100\<rparr>)
        [7, 8, 9, 200000000]))) \<le> 2"
  using admissions_bounded [of "\<lparr>rc_maximum_admissions = 2, rc_window = 100\<rparr>" 5 "[7, 8, 9, 200000000]"]
  by (simp add: rate_config_valid_def minimum_window_def maximum_window_def maximum_admission_limit_def)

text \<open>
  The pruned list loses nothing: the limiter admits exactly what a limiter that remembers every
  admission would admit.
\<close>

theorem limiter_matches_reference:
  assumes "rate_config_valid c"
  shows "fst (admit_all limiter_admit (new_rate_limiter c) ts) =
     fst (admit_all (reference_admit (rc_maximum_admissions c) (rc_window c * millisecond)) ([], None) ts)"
  using limiter.same_as_reference(1) [of c "new_rate_limiter c" "[]" None ts] fresh_tracks assms by simp

lemma limiter_matches_reference_witness:
  "fst (admit_all limiter_admit (new_rate_limiter \<lparr>rc_maximum_admissions = 1, rc_window = 100\<rparr>) [7, 8, 100000007]) =
     [7, 100000007]"
  using limiter_matches_reference [of "\<lparr>rc_maximum_admissions = 1, rc_window = 100\<rparr>" "[7, 8, 100000007]"]
  by (simp add: rate_config_valid_def minimum_window_def maximum_window_def maximum_admission_limit_def
      reference_admit_def recent_def millisecond_def)

text \<open>
  The list never outgrows the storage the constructor reserves, so no call reallocates: at most
  the configured maximum, itself at most 1024, and nothing at all for an invalid configuration.
\<close>

theorem limiter_storage_bounded:
  "length (rl_admissions (snd (admit_all limiter_admit (new_rate_limiter c) ts))) \<le>
     (if rate_config_valid c then min (rc_maximum_admissions c) maximum_admission_limit else 0)"
proof (cases "rate_config_valid c")
  case True
  with reached_tracks [OF True, of ts] show ?thesis
    by (auto simp: limiter_tracks_def rate_config_valid_def split: option.splits)
qed (simp add: invalid_config new_rate_limiter_def)

lemma to_milliseconds_up:
  assumes "0 < d"
  defines "m \<equiv> (if to_milliseconds d * millisecond < d then to_milliseconds d + 1 else to_milliseconds d)"
  shows "0 < m" "d \<le> m * millisecond" "(m - 1) * millisecond < d"
proof -
  have "d = d div millisecond * millisecond + d mod millisecond" "0 \<le> d mod millisecond" "d mod millisecond < millisecond"
    by (simp_all add: millisecond_def)
  then show "0 < m" "d \<le> m * millisecond" "(m - 1) * millisecond < d"
    using assms(1) by (auto simp: m_def to_milliseconds_def millisecond_def algebra_simps)
qed

text \<open>A refusal by a full window: what the limiter remembers, and why.\<close>

lemma refused_full:
  assumes "limiter_tracks c l history latest" "rate_config_valid c"
    and "rl_has_observation l \<longrightarrow> rl_last_observation l \<le> now"
    and "try_admit now l = (d, l')" "\<not> rd_admitted d"
  obtains a older where "l' = l\<lparr>rl_last_observation := now, rl_has_observation := True, rl_admissions := a # older\<rparr>"
    "rl_config l = c" "length (a # older) = rc_maximum_admissions c" "a \<le> now" "now - a < window_of l"
    "rd_retry_after d = (let r = to_milliseconds (window_of l - (now - a)) in
       if r * millisecond < window_of l - (now - a) then r + 1 else r)"
proof -
  define active where "active = dropWhile (\<lambda>admitted. \<not> now - admitted < window_of l) (rl_admissions l)"
  from assms(1) have c: "rl_config l = c" and length: "length (rl_admissions l) \<le> rc_maximum_admissions c"
    and past: "\<forall>a \<in> set (rl_admissions l). a \<le> now"
    using assms(3) by (auto simp: limiter_tracks_def recent_def split: option.splits)
  have "set active \<subseteq> set (rl_admissions l)" unfolding active_def by (auto dest: set_dropWhileD)
  moreover have "length active \<le> rc_maximum_admissions c"
    using length length_dropWhile_le [of "\<lambda>admitted. \<not> now - admitted < window_of l" "rl_admissions l"]
    unfolding active_def by linarith
  moreover from assms(2-5) c have full: "rc_maximum_admissions c \<le> length active"
    and l': "l' = l\<lparr>rl_last_observation := now, rl_has_observation := True, rl_admissions := active\<rparr>"
    and d: "rd_retry_after d = (let r = to_milliseconds (window_of l - (now - hd active)) in
       if r * millisecond < window_of l - (now - hd active) then r + 1 else r)"
    by (auto simp: try_admit_def Let_def active_def window_of_def split: if_splits)
  moreover from full assms(2) obtain a older where "active = a # older"
    by (cases active) (auto simp: rate_config_valid_def)
  moreover have "now - hd active < window_of l" if "active \<noteq> []"
    using hd_dropWhile [of "\<lambda>admitted. \<not> now - admitted < window_of l" "rl_admissions l"] that
    by (simp add: active_def)
  ultimately show thesis using past c by (intro that [of a older]) auto
qed

text \<open>
  The retry hint is exact. When a call is refused because the window is full, a call made the
  returned number of milliseconds later is admitted, and one made any whole number of milliseconds
  earlier than that is still refused.
\<close>

theorem retry_hint_exact:
  assumes "rate_config_valid c" and "l = snd (admit_all limiter_admit (new_rate_limiter c) ts)"
    and "rl_has_observation l \<longrightarrow> rl_last_observation l \<le> now"
    and "try_admit now l = (d, l')" and "\<not> rd_admitted d"
  shows "0 < rd_retry_after d \<and> rd_retry_after d \<le> rc_window c \<and>
     rd_admitted (fst (try_admit (now + rd_retry_after d * millisecond) l')) \<and>
     (\<forall>k. 0 \<le> k \<and> k < rd_retry_after d \<longrightarrow> \<not> rd_admitted (fst (try_admit (now + k * millisecond) l')))"
proof -
  from reached_tracks [OF assms(1), of ts] assms(2) obtain history latest
    where "limiter_tracks c l history latest" by blast
  from refused_full [OF this assms(1,3,4,5)] obtain a older where
    l': "l' = l\<lparr>rl_last_observation := now, rl_has_observation := True, rl_admissions := a # older\<rparr>"
    and c: "rl_config l = c" and full: "length (a # older) = rc_maximum_admissions c"
    and a: "a \<le> now" "now - a < window_of l"
    and d: "rd_retry_after d = (let r = to_milliseconds (window_of l - (now - a)) in
       if r * millisecond < window_of l - (now - a) then r + 1 else r)"
    by blast
  let ?d = "rd_retry_after d" and ?w = "rc_window c * millisecond"
  have w: "window_of l = ?w" "window_of l' = ?w" by (simp_all add: window_of_def c l')
  note up = to_milliseconds_up [of "window_of l - (now - a)"]
  from up a(2) have exact: "0 < ?d" "window_of l - (now - a) \<le> ?d * millisecond"
    "(?d - 1) * millisecond < window_of l - (now - a)"
    unfolding d Let_def by auto
  have "(?d - 1) * millisecond < rc_window c * millisecond" using exact(3) a(1) w by linarith
  then have "?d \<le> rc_window c" by (simp add: millisecond_def)
  have valid: "rate_config_valid (rl_config l')" using assms(1) c l' by simp
  have later: "rd_admitted (fst (try_admit (now + k * millisecond) l')) \<longleftrightarrow> \<not> now + k * millisecond - a < ?w"
    if "0 \<le> k" for k
  proof -
    have "\<not> now + k * millisecond < now" using that by (simp add: millisecond_def)
    moreover have "length (dropWhile (\<lambda>x. \<not> now + k * millisecond - x < ?w) older) < rc_maximum_admissions c"
      using full length_dropWhile_le [of "\<lambda>x. \<not> now + k * millisecond - x < ?w" older] by simp
    ultimately show ?thesis
      using valid full c by (simp add: try_admit_def window_of_def l' Let_def)
  qed
  have "\<not> rd_admitted (fst (try_admit (now + k * millisecond) l'))" if "0 \<le> k" "k < ?d" for k
  proof -
    have "k * millisecond \<le> (?d - 1) * millisecond" using that(2) by (simp add: millisecond_def)
    with exact(3) w later [OF that(1)] show ?thesis by linarith
  qed
  moreover have "rd_admitted (fst (try_admit (now + ?d * millisecond) l'))"
    using later [of ?d] exact(1,2) w by simp
  ultimately show ?thesis using exact(1) \<open>?d \<le> rc_window c\<close> by blast
qed

lemma retry_hint_exact_witness:
  "case try_admit 8 (snd (admit_all limiter_admit (new_rate_limiter \<lparr>rc_maximum_admissions = 1, rc_window = 100\<rparr>) [7])) of
     (d, l') \<Rightarrow> rd_retry_after d = 100 \<and> rd_admitted (fst (try_admit (8 + 100 * millisecond) l'))"
proof -
  let ?c = "\<lparr>rc_maximum_admissions = 1, rc_window = 100\<rparr>"
  let ?l = "snd (admit_all limiter_admit (new_rate_limiter ?c) [7])"
  have valid: "rate_config_valid ?c"
    by (simp add: rate_config_valid_def minimum_window_def maximum_window_def maximum_admission_limit_def)
  obtain d l' where run: "try_admit 8 ?l = (d, l')" by fastforce
  then have d: "\<not> rd_admitted d \<and> rd_retry_after d = 100"
    using valid by (auto simp: limiter_admit_def try_admit_def new_rate_limiter_def window_of_def
        millisecond_def to_milliseconds_def)
  have "rl_has_observation ?l \<longrightarrow> rl_last_observation ?l \<le> 8"
    using valid by (simp add: limiter_admit_def try_admit_def new_rate_limiter_def window_of_def)
  from retry_hint_exact [OF valid refl this run] d run show ?thesis by simp
qed

end
