(* ===== verification/Paths.thy ===== *)
theory Paths
  imports Posix "HOL-Library.Sublist"
begin

text \<open>
  \<open>std::filesystem::path\<close> on POSIX, as far as the daemon uses it: a path is its native
  string, and comparison, normal form and ancestry are those of its sequence of elements. Shared by
  the daemon configuration, the sandbox policy and the listener.
\<close>

section \<open>Elements\<close>

abbreviation slash :: char where "slash \<equiv> CHR ''/''"

text \<open>
  The names of a relative path: runs of separators count once, and a trailing one gives a last,
  empty name.
\<close>

fun split_at_slash :: "string \<Rightarrow> string list" where
  "split_at_slash [] = [[]]"
| "split_at_slash (c # s) =
     (if c = slash then [] # split_at_slash s
      else (case split_at_slash s of [] \<Rightarrow> [[c]] | name # names \<Rightarrow> (c # name) # names))"

definition path_names :: "string \<Rightarrow> string list" where
  "path_names s =
     (if s = [] then []
      else filter (\<lambda>name. name \<noteq> []) (butlast (split_at_slash s)) @ [last (split_at_slash s)])"

definition relative_part :: "string \<Rightarrow> string" where
  "relative_part p = dropWhile (\<lambda>c. c = slash) p"

definition path_elements :: "string \<Rightarrow> string list" where
  "path_elements p = (if is_absolute p then [''/''] else []) @ path_names (relative_part p)"

text \<open>\<open>operator==\<close> compares element by element.\<close>

definition path_equal :: "string \<Rightarrow> string \<Rightarrow> bool" where
  "path_equal p q \<longleftrightarrow> path_elements p = path_elements q"

definition path_filename :: "string \<Rightarrow> string" where
  "path_filename p =
     (case path_names (relative_part p) of [] \<Rightarrow> [] | ns \<Rightarrow> last ns)"

text \<open>\<open>parent_path\<close>: without the last name and the separators before it.\<close>

definition without_last_name :: "string \<Rightarrow> string" where
  "without_last_name p = rev (dropWhile (\<lambda>c. c \<noteq> slash) (rev p))"

definition parent_path :: "string \<Rightarrow> string" where
  "parent_path p =
     (if relative_part p = [] then p
      else (let stem = without_last_name p; parent = rev (dropWhile (\<lambda>c. c = slash) (rev stem))
            in if parent = [] \<and> stem \<noteq> [] then ''/'' else parent))"

section \<open>Normal form\<close>

text \<open>
  \<open>lexically_normal\<close>, as the sequence of its elements. The first component of the pair is
  the reversed sequence so far, the second tells whether it ends in a separator.
\<close>

definition normal_step :: "string \<Rightarrow> string list \<times> bool \<Rightarrow> string list \<times> bool" where
  "normal_step name stack_trailing =
     (case stack_trailing of (stack, trailing) \<Rightarrow>
        if name = [] \<or> name = ''.'' then (stack, True)
        else if name = ''..'' then
          (case stack of
             [] \<Rightarrow> ([''..''], False)
           | final # below \<Rightarrow>
               (if final = ''/'' then (stack, True)
                else if final = ''..'' then (''..'' # stack, False)
                else (below, True)))
        else (name # stack, False))"

definition lexically_normal :: "string \<Rightarrow> string list" where
  "lexically_normal p =
     (if p = [] then []
      else case fold normal_step (path_names (relative_part p))
                  (if is_absolute p then [''/''] else [], False) of
             (stack, trailing) \<Rightarrow>
               (case stack of
                  [] \<Rightarrow> [''.'']
                | final # below \<Rightarrow>
                    rev stack @ (if trailing \<and> final \<noteq> ''/'' \<and> final \<noteq> ''..'' then [[]] else [])))"

text \<open>\<open>lexically_normal() == path\<close>\<close>

definition is_normal :: "string \<Rightarrow> bool" where
  "is_normal p \<longleftrightarrow> lexically_normal p = path_elements p"

section \<open>Ancestry\<close>

fun is_same_or_ancestor_elements :: "string list \<Rightarrow> string list \<Rightarrow> bool" where
  "is_same_or_ancestor_elements [] path = True"
| "is_same_or_ancestor_elements (a # ancestor) [] = False"
| "is_same_or_ancestor_elements (a # ancestor) (p # path) =
     (a = p \<and> is_same_or_ancestor_elements ancestor path)"

definition is_same_or_ancestor :: "string \<Rightarrow> string \<Rightarrow> bool" where
  "is_same_or_ancestor possible_ancestor path =
     is_same_or_ancestor_elements (path_elements possible_ancestor) (path_elements path)"

definition paths_overlap :: "string \<Rightarrow> string \<Rightarrow> bool" where
  "paths_overlap left right \<longleftrightarrow> is_same_or_ancestor left right \<or> is_same_or_ancestor right left"

definition safe_absolute_path :: "string \<Rightarrow> bool" where
  "safe_absolute_path p \<longleftrightarrow>
     is_absolute p \<and> \<not> path_equal p ''/'' \<and> is_normal p \<and> CHR 0x00 \<notin> set p"

section \<open>Facts\<close>

lemma is_same_or_ancestor_elements_prefix:
  "is_same_or_ancestor_elements ancestor path \<longleftrightarrow> prefix ancestor path"
  by (induction ancestor path rule: is_same_or_ancestor_elements.induct) auto

lemma is_same_or_ancestor_prefix:
  "is_same_or_ancestor p q \<longleftrightarrow> prefix (path_elements p) (path_elements q)"
  by (simp add: is_same_or_ancestor_def is_same_or_ancestor_elements_prefix)

lemma paths_overlap_refl [simp]: "paths_overlap p p"
  by (simp add: paths_overlap_def is_same_or_ancestor_prefix)

text \<open>A directory below one of two separate directories is not below the other.\<close>

lemma separate_below:
  assumes "\<not> paths_overlap p q" "is_same_or_ancestor p r"
  shows "\<not> is_same_or_ancestor q r"
  using assms prefix_same_cases [of "path_elements p" "path_elements r" "path_elements q"]
  by (auto simp: paths_overlap_def is_same_or_ancestor_prefix)

lemma path_names_Nil [simp]: "path_names [] = []"
  by (simp add: path_names_def)

lemma split_at_slash_nonempty [simp]: "split_at_slash s \<noteq> []"
  by (cases s) (auto split: list.split)

text \<open>Only the last name can be empty, and no name has a separator in it.\<close>

lemma split_at_slash_names: "n \<in> set (split_at_slash s) \<Longrightarrow> slash \<notin> set n"
  by (induction s arbitrary: n) (auto split: list.splits if_splits)

lemma path_names_no_slash: "n \<in> set (path_names s) \<Longrightarrow> slash \<notin> set n"
  using split_at_slash_names [of n s] last_in_set [OF split_at_slash_nonempty, of s]
  by (auto simp: path_names_def split: if_splits dest: in_set_butlastD)

lemma path_names_inner: "[] \<notin> set (butlast (path_names s))"
  by (simp add: path_names_def)

lemma path_names_head:
  assumes "s \<noteq> []" "hd s \<noteq> slash"
  shows "path_names s \<noteq> []" "hd (path_names s) \<noteq> []"
proof -
  from assms obtain c t where "s = c # t" "c \<noteq> slash" by (cases s) auto
  then show "path_names s \<noteq> []" "hd (path_names s) \<noteq> []"
    by (auto simp: path_names_def split: list.split)
qed

lemma hd_relative_part: "relative_part p = [] \<or> hd (relative_part p) \<noteq> slash"
  unfolding relative_part_def by (metis (mono_tags) hd_dropWhile)

text \<open>
  An absolute path is normal exactly when it has no dot elements. The normalisation never produces
  one: its sequence starts with the root and drops what would climb above it.
\<close>

definition dot_free :: "string list \<Rightarrow> bool" where
  "dot_free ns \<longleftrightarrow> ''.'' \<notin> set ns \<and> ''..'' \<notin> set ns"

lemma normal_stack_dot_free:
  "stack \<noteq> [] \<and> last stack = ''/'' \<and> dot_free stack \<Longrightarrow>
     fst (fold normal_step ns (stack, trailing)) \<noteq> [] \<and>
     last (fst (fold normal_step ns (stack, trailing))) = ''/'' \<and>
     dot_free (fst (fold normal_step ns (stack, trailing)))"
proof (induction ns arbitrary: stack trailing)
  case (Cons n ns)
  obtain stack' trailing' where step: "normal_step n (stack, trailing) = (stack', trailing')" by fastforce
  from Cons.prems step have "stack' \<noteq> [] \<and> last stack' = ''/'' \<and> dot_free stack'"
    by (auto simp: normal_step_def dot_free_def split: if_splits list.splits)
  from Cons.IH [OF this, of trailing'] step show ?case by simp
qed simp

lemma normal_fold_names:
  "dot_free ns \<Longrightarrow> [] \<notin> set (butlast ns) \<Longrightarrow>
     fold normal_step ns (stack, False) =
       (if ns \<noteq> [] \<and> last ns = [] then (rev (butlast ns) @ stack, True) else (rev ns @ stack, False))"
proof (induction ns arbitrary: stack)
  case (Cons n ns)
  show ?case
  proof (cases "ns = []")
    case True
    with Cons.prems show ?thesis by (auto simp: normal_step_def dot_free_def)
  next
    case False
    with Cons.prems have "normal_step n (stack, False) = (n # stack, False)" "dot_free ns"
      "[] \<notin> set (butlast ns)"
      by (auto simp: normal_step_def dot_free_def)
    with Cons.IH [of "n # stack"] False show ?thesis by auto
  qed
qed simp

lemma is_normal_absolute:
  assumes "is_absolute p"
  shows "is_normal p \<longleftrightarrow> dot_free (path_names (relative_part p))"
proof -
  let ?ns = "path_names (relative_part p)"
  have p: "p \<noteq> []" "path_elements p = ''/'' # ?ns"
    using assms by (auto simp: is_absolute_def path_elements_def)
  obtain stack trailing where fold: "fold normal_step ?ns ([''/''], False) = (stack, trailing)" by fastforce
  have stack: "stack \<noteq> []" "dot_free stack"
    using normal_stack_dot_free [of "[''/'']" ?ns False] fold by (auto simp: dot_free_def)
  have normal: "lexically_normal p = rev stack @
      (if trailing \<and> hd stack \<noteq> ''/'' \<and> hd stack \<noteq> ''..'' then [[]] else [])"
    using assms p(1) fold stack(1) by (cases stack) (auto simp: lexically_normal_def)
  have inner: "[] \<notin> set (butlast ?ns)" by (rule path_names_inner)
  show ?thesis
  proof
    assume "is_normal p"
    with p(2) have eq: "''/'' # ?ns = lexically_normal p" by (simp add: is_normal_def)
    have "set (lexically_normal p) \<subseteq> insert [] (set stack)" by (auto simp: normal)
    with eq have "set ?ns \<subseteq> insert [] (set stack)" by (metis insert_subset list.simps(15))
    with stack(2) show "dot_free ?ns" by (auto simp: dot_free_def)
  next
    assume free: "dot_free ?ns"
    show "is_normal p"
    proof (cases "?ns \<noteq> [] \<and> last ?ns = []")
      case True
      with normal_fold_names [OF free inner, of "[''/'']"] fold
      have stack_eq: "stack = rev (butlast ?ns) @ [''/'']" and "trailing" by auto
      have some: "butlast ?ns \<noteq> []"
        using True hd_relative_part [of p] path_names_head(2) [of "relative_part p"]
        by (cases "relative_part p = []"; cases ?ns) (auto split: if_splits)
      then have member: "last (butlast ?ns) \<in> set ?ns" by (metis in_set_butlastD last_in_set)
      have "last (butlast ?ns) \<noteq> ''..''" "last (butlast ?ns) \<noteq> ''/''"
        using free member path_names_no_slash [OF member] by (auto simp: dot_free_def)
      moreover have "hd stack = last (butlast ?ns)" using some by (simp add: stack_eq hd_append hd_rev)
      moreover have "?ns = butlast ?ns @ [[]]" using True by (metis append_butlast_last_id)
      ultimately show ?thesis
        using normal p(2) \<open>trailing\<close> by (simp add: is_normal_def stack_eq)
    next
      case False
      with normal_fold_names [OF free inner, of "[''/'']"] fold
      have "stack = rev ?ns @ [''/'']" "\<not> trailing" by auto
      with normal p(2) show ?thesis by (simp add: is_normal_def)
    qed
  qed
qed

text \<open>The elements of the parent are those of the path without the last.\<close>

lemma split_at_slash_append:
  "split_at_slash (a @ slash # b) = split_at_slash a @ split_at_slash b"
  by (induction a) (auto split: list.split)

lemma split_at_slash_name: "slash \<notin> set s \<Longrightarrow> split_at_slash s = [s]"
  by (induction s) auto

lemma split_at_slash_run: "split_at_slash (replicate k slash @ s) = replicate k [] @ split_at_slash s"
  by (induction k) auto

lemma last_split_at_slash: "s \<noteq> [] \<Longrightarrow> last s \<noteq> slash \<Longrightarrow> last (split_at_slash s) \<noteq> []"
proof (induction s)
  case (Cons c s)
  then show ?case by (cases "s = []") (auto split: list.split simp: last_append)
qed simp

lemma path_names_parent:
  assumes "x \<noteq> []" "last x \<noteq> slash" "slash \<notin> set f" "0 < k"
  shows "path_names (x @ replicate k slash @ f) = path_names x @ [f]"
proof -
  obtain j where k: "replicate k slash = slash # replicate j slash" using assms(4) by (cases k) auto
  have split: "split_at_slash (x @ replicate k slash @ f) = split_at_slash x @ replicate j [] @ [f]"
    using assms(3) by (simp add: k split_at_slash_append split_at_slash_run split_at_slash_name)
  obtain ys y where y: "split_at_slash x = ys @ [y]" by (cases "split_at_slash x" rule: rev_cases) simp_all
  with assms(1,2) last_split_at_slash [of x] have "y \<noteq> []" by simp
  with y have "path_names x = filter (\<lambda>name. name \<noteq> []) (split_at_slash x)"
    using assms(1) by (simp add: path_names_def)
  with assms(1) show ?thesis by (simp add: path_names_def split butlast_append)
qed

lemma rev_dropWhile_split: "\<exists>s. p = rev (dropWhile P (rev p)) @ s \<and> (\<forall>c \<in> set s. P c)"
proof
  show "p = rev (dropWhile P (rev p)) @ rev (takeWhile P (rev p)) \<and> (\<forall>c \<in> set (rev (takeWhile P (rev p))). P c)"
    by (auto simp: rev_append [symmetric] dest: set_takeWhileD)
qed

lemma last_rev_dropWhile: "rev (dropWhile P (rev p)) \<noteq> [] \<Longrightarrow> \<not> P (last (rev (dropWhile P (rev p))))"
  by (simp add: last_rev hd_dropWhile)

lemma slashes_replicate: "\<forall>c \<in> set s. c = slash \<Longrightarrow> s = replicate (length s) slash"
  by (simp add: replicate_length_same)

lemma parent_path_parts:
  assumes "is_absolute p" "relative_part p \<noteq> []"
  obtains base k f where "p = base @ replicate k slash @ f" "0 < k" "slash \<notin> set f"
    "base = [] \<or> last base \<noteq> slash" "parent_path p = (if base = [] then ''/'' else base)"
proof -
  define stem where "stem = without_last_name p"
  define base where "base = rev (dropWhile (\<lambda>c. c = slash) (rev stem))"
  obtain f where f: "p = stem @ f" "\<forall>c \<in> set f. c \<noteq> slash"
    using rev_dropWhile_split [of p "\<lambda>c. c \<noteq> slash"] by (auto simp: stem_def without_last_name_def)
  obtain ss where ss: "stem = base @ ss" "\<forall>c \<in> set ss. c = slash"
    using rev_dropWhile_split [of stem "\<lambda>c. c = slash"] by (auto simp: base_def)
  have "slash \<in> set p" using assms(1) by (auto simp: is_absolute_def split: list.splits)
  have stem: "stem \<noteq> []"
  proof
    assume "stem = []"
    with f(1) have "p = f" by simp
    with f(2) \<open>slash \<in> set p\<close> show False by blast
  qed
  then have "last stem = slash"
    using last_rev_dropWhile [of "\<lambda>c. c \<noteq> slash" p] by (simp add: stem_def without_last_name_def)
  moreover have base_last: "base = [] \<or> last base \<noteq> slash"
    using last_rev_dropWhile [of "\<lambda>c. c = slash" stem] by (auto simp: base_def)
  ultimately have "ss \<noteq> []" using ss(1) stem append_Nil2 by metis
  show thesis
  proof (rule that [of base "length ss" f])
    show "p = base @ replicate (length ss) slash @ f" using f(1) ss slashes_replicate [OF ss(2)] by simp
    show "parent_path p = (if base = [] then ''/'' else base)"
      unfolding parent_path_def Let_def stem_def [symmetric] base_def [symmetric]
      using assms(2) stem by simp
  qed (use f(2) \<open>ss \<noteq> []\<close> base_last in auto)
qed

lemma relative_part_append:
  "relative_part a \<noteq> [] \<Longrightarrow> relative_part (a @ b) = relative_part a @ b"
proof -
  assume "relative_part a \<noteq> []"
  then obtain x where "x \<in> set a" "\<not> x = slash" unfolding relative_part_def dropWhile_eq_Nil_conv by blast
  then show ?thesis unfolding relative_part_def by (rule dropWhile_append1)
qed

lemma relative_part_slashes: "relative_part (replicate k slash @ s) = relative_part s"
  by (induction k) (simp_all add: relative_part_def)

lemma relative_part_name: "slash \<notin> set f \<Longrightarrow> relative_part f = f"
  by (cases f) (auto simp: relative_part_def)

lemma relative_part_nonempty: "a \<noteq> [] \<Longrightarrow> last a \<noteq> slash \<Longrightarrow> relative_part a \<noteq> []"
  using last_in_set by (auto simp: relative_part_def)

lemma last_relative_part: "relative_part a \<noteq> [] \<Longrightarrow> last (relative_part a) = last a"
  unfolding relative_part_def by (metis last_appendR takeWhile_dropWhile_id)

lemma parent_elements:
  assumes "is_absolute p" "relative_part p \<noteq> []"
  shows "path_elements (parent_path p) = butlast (path_elements p)" "is_absolute (parent_path p)"
    "set (parent_path p) \<subseteq> insert slash (set p)"
proof -
  obtain base k f where p: "p = base @ replicate k slash @ f" "0 < k" "slash \<notin> set f"
    "base = [] \<or> last base \<noteq> slash" "parent_path p = (if base = [] then ''/'' else base)"
    using parent_path_parts [OF assms] .
  have "path_elements (parent_path p) = butlast (path_elements p) \<and> is_absolute (parent_path p)"
  proof (cases "base = []")
    case True
    with p have "relative_part p = f" by (simp add: relative_part_slashes relative_part_name)
    moreover from this assms(2) p(3) have "path_names f = [f]"
      by (simp add: path_names_def split_at_slash_name)
    ultimately show ?thesis
      using assms(1) True p(5) by (simp add: path_elements_def is_absolute_def relative_part_def)
  next
    case False
    with p(4) have x: "relative_part base \<noteq> []" "last (relative_part base) \<noteq> slash"
      by (auto simp: last_relative_part dest: relative_part_nonempty)
    have "relative_part p = relative_part base @ replicate k slash @ f"
      unfolding p(1) by (rule relative_part_append [OF x(1)])
    moreover have "is_absolute base" using assms(1) False unfolding p(1) by (cases base) (auto simp: is_absolute_def)
    ultimately show ?thesis
      using assms(1) False p(5) path_names_parent [OF x p(3,2)] by (simp add: path_elements_def butlast_append)
  qed
  then show "path_elements (parent_path p) = butlast (path_elements p)" "is_absolute (parent_path p)" by auto
  show "set (parent_path p) \<subseteq> insert slash (set p)" by (subst (2) p(1)) (auto simp: p(5))
qed

text \<open>
  A trailing separator adds an empty last element, which hides the nesting: the check takes these
  two for separate, although the second lies in the first.
\<close>

lemma trailing_separator_hides_nesting:
  "\<not> paths_overlap ''/srv/'' ''/srv/journal'' \<and> safe_absolute_path ''/srv/'' \<and>
     is_same_or_ancestor ''/srv'' ''/srv/journal''"
  by code_simp

end
