(* ===== verification/Local_Listener.thy ===== *)
theory Local_Listener
  imports Local_Protocol Rate_Limiter Paths
begin

text \<open>
  The local listener (\<open>local_listener.cpp\<close>): binding and securing the Unix socket,
  admitting one connection at a time through the rate limiter, and removing the socket again. The
  private members are the record \<open>listener_state\<close>, passed in and out of every operation;
  descriptors appear as what they refer to. The safety property is about the file system: the
  listener never replaces an entry it finds and never removes one that is not its own socket.
\<close>

section \<open>Configuration, state, results\<close>

record listener_config =
  lc_socket_path :: string
  lc_socket_mode :: u32
  lc_socket_group_id :: "nat option"
  lc_listen_backlog :: int
  lc_admission_rate_limit :: rate_config

datatype listener_status =
  Lsn_listening | Lsn_stopped | Lsn_session_completed | Lsn_accept_timed_out | Lsn_rate_limited
| Lsn_busy | Lsn_not_listening | Lsn_invalid_configuration | Lsn_unsafe_directory
| Lsn_address_in_use | Lsn_audit_failed | Lsn_io_error | Lsn_cleanup_failed

record listener_result =
  lr_status :: listener_status
  lr_event_id :: string
  lr_message :: string
  lr_session :: "session_result option"

definition listener_ok :: "listener_result \<Rightarrow> bool" where
  "listener_ok r \<longleftrightarrow> lr_status r \<in> {Lsn_listening, Lsn_stopped, Lsn_session_completed}"

definition listener_result_of ::
  "listener_status \<Rightarrow> string \<Rightarrow> string \<Rightarrow> session_result option \<Rightarrow> listener_result" where
  "listener_result_of status event_id m session =
     \<lparr>lr_status = status, lr_event_id = event_id, lr_message = m, lr_session = session\<rparr>"

text \<open>
  The immutable members, with what the platform adds: the size of \<open>sun_path\<close>, the mode that
  the umask leaves on a fresh socket, and \<open>std::filesystem::canonical\<close>.
\<close>

record listener =
  ls_session :: protocol_session
  ls_journal :: string
  ls_config :: listener_config
  ls_sun_path_size :: nat
  ls_bound_mode :: u32
  ls_canonical :: "string \<Rightarrow> string option"

text \<open>
  \<open>listener_descriptor_\<close> as whether it is open, \<open>directory_descriptor_\<close> as the directory
  it refers to; device and inode numbers are one number in this model.
\<close>

record listener_state =
  ll_listening :: bool
  ll_directory :: "string option"
  ll_filename :: string
  ll_inode :: nat
  ll_owns :: bool
  ll_serving :: bool
  ll_limiter :: rate_limiter

definition new_listener :: "listener \<Rightarrow> listener_state" where
  "new_listener ls =
     \<lparr>ll_listening = False, ll_directory = None, ll_filename = [], ll_inode = 0, ll_owns = False,
      ll_serving = False, ll_limiter = new_rate_limiter (lc_admission_rate_limit (ls_config ls))\<rparr>"

definition maximum_accept_timeout :: int where "maximum_accept_timeout = 60000"
definition maximum_listen_backlog :: int where "maximum_listen_backlog = 64"

definition valid_accept_timeout :: "int \<Rightarrow> bool" where
  "valid_accept_timeout timeout \<longleftrightarrow> timeout > 0 \<and> timeout \<le> maximum_accept_timeout"

definition listener_event :: "string \<Rightarrow> severity \<Rightarrow> string \<Rightarrow> string \<Rightarrow> string \<Rightarrow> event" where
  "listener_event timestamp sev event_id outcome m =
     \<lparr>ev_timestamp = timestamp, ev_severity = sev, ev_event_id = event_id,
      ev_component = ''controller-local-listener'', ev_operation_id = ''controller-listener'',
      ev_action = ''controller.listener'', ev_outcome = outcome, ev_message = m, ev_attributes = []\<rparr>"

definition listener_append :: "listener \<Rightarrow> (string \<Rightarrow> event) \<Rightarrow> bool io" where
  "listener_append ls build = do {
     timestamp \<leftarrow> read_clock;
     j \<leftarrow> journal_append (ls_journal ls) (build timestamp);
     return (journal_ok j)
   }"

definition audited_failure ::
  "listener \<Rightarrow> listener_status \<Rightarrow> severity \<Rightarrow> string \<Rightarrow> string \<Rightarrow> listener_result io" where
  "audited_failure ls status sev event_id m = do {
     listener_append ls (\<lambda>t. listener_event t sev event_id ''rejected'' m);
     return (listener_result_of status event_id m None)
   }"

section \<open>System calls on sockets\<close>

text \<open>\<open>bind\<close> creates the socket entry and never replaces one.\<close>

definition bind_socket :: "path \<Rightarrow> u32 \<Rightarrow> bool io" where
  "bind_socket p m = do {
     r \<leftarrow> next_outcome;
     n \<leftarrow> gets (\<lambda>w. entries w p);
     (case r of
        Fault e \<Rightarrow> do { set_errno e; return False }
      | _ \<Rightarrow> (if n \<noteq> None then do { set_errno (Errno 98); return False }
             else do {
               modify (\<lambda>w. put_entry p (Some ((fresh_file m w)\<lparr>kind := Unix_socket\<rparr>))
                 (w\<lparr>next_inode := Suc (next_inode w)\<rparr>));
               return True
             }))
   }"

text \<open>\<open>fchownat\<close> and \<open>fchmodat\<close>: a change of one entry's attributes.\<close>

definition change_entry :: "path \<Rightarrow> (node \<Rightarrow> node) \<Rightarrow> bool io" where
  "change_entry p f = do {
     r \<leftarrow> next_outcome;
     n \<leftarrow> gets (\<lambda>w. entries w p);
     (case r of
        Fault e \<Rightarrow> do { set_errno e; return False }
      | _ \<Rightarrow> (case n of
          None \<Rightarrow> do { set_errno ENOENT; return False }
        | Some n \<Rightarrow> do { modify (put_entry p (Some (f n))); return True }))
   }"

definition canonical_call :: "(string \<Rightarrow> string option) \<Rightarrow> string \<Rightarrow> string option io" where
  "canonical_call canonical p = do {
     r \<leftarrow> next_outcome;
     (case r of Fault e \<Rightarrow> return None | _ \<Rightarrow> return (canonical p))
   }"

section \<open>Closing and removing the socket\<close>

definition close_listener :: "listener_state \<Rightarrow> listener_state io" where
  "close_listener st =
     (if ll_listening st then do { close_descriptor; return (st\<lparr>ll_listening := False\<rparr>) } else return st)"

definition remove_own_socket :: "listener_state \<Rightarrow> bool io" where
  "remove_own_socket st =
     (case ll_directory st of
        None \<Rightarrow> return False
      | Some d \<Rightarrow>
          (if ll_filename st = [] then return False
           else do {
             current \<leftarrow> stat_entry (d, ll_filename st);
             (case current of
                None \<Rightarrow> do { e \<leftarrow> saved_errno; return (e = ENOENT) }
              | Some n \<Rightarrow>
                  (if kind n = Unix_socket \<and> inode n = ll_inode st then do {
                     removed \<leftarrow> unlink (d, ll_filename st);
                     e \<leftarrow> saved_errno;
                     return (removed \<or> e = ENOENT)
                   }
                   else return False))
           }))"

definition cleanup_socket_path :: "listener_state \<Rightarrow> (bool \<times> listener_state) io" where
  "cleanup_socket_path st =
     (if \<not> ll_owns st then return (True, st)
      else do {
        removed \<leftarrow> remove_own_socket st;
        let st = st\<lparr>ll_owns := False, ll_inode := 0, ll_filename := []\<rparr>;
        (if ll_directory st \<noteq> None
         then do { close_descriptor; return (removed, st\<lparr>ll_directory := None\<rparr>) }
         else return (removed, st))
      })"

section \<open>Start\<close>

definition listener_config_ok :: "listener \<Rightarrow> listener_state \<Rightarrow> bool" where
  "listener_config_ok ls st \<longleftrightarrow>
     (let c = ls_config ls; p = lc_socket_path c; filename = path_filename p;
          supported_mode = (lc_socket_mode c = 384 \<or> lc_socket_mode c = 432);
          supported_group = (lc_socket_mode c = 384 \<and> lc_socket_group_id c = None \<or>
            lc_socket_mode c = 432 \<and> lc_socket_group_id c \<noteq> None)
      in is_absolute p \<and> is_normal p \<and> filename \<noteq> [] \<and> filename \<noteq> ''.'' \<and> filename \<noteq> ''..'' \<and>
         CHR 0x00 \<notin> set p \<and> length p < ls_sun_path_size ls \<and> supported_mode \<and> supported_group \<and>
         lc_listen_backlog c \<ge> 1 \<and> lc_listen_backlog c \<le> maximum_listen_backlog \<and>
         rate_config_valid (rl_config (ll_limiter st)))"

text \<open>\<open>S_IWGRP\<close> is octal 020, \<open>S_IRWXO\<close> octal 007.\<close>

definition trusted_parent :: "nat \<Rightarrow> node \<Rightarrow> bool" where
  "trusted_parent euid n \<longleftrightarrow> kind n = Directory \<and> owner n = euid \<and> mode n AND 16 = 0 \<and> mode n AND 7 = 0"

text \<open>The parent directory, opened; otherwise the message of the refusal.\<close>

definition open_checked_parent :: "string \<Rightarrow> nat \<Rightarrow> node option \<Rightarrow> string option io" where
  "open_checked_parent parent euid status =
     (case status of
        None \<Rightarrow> return (Some ''Local listener parent must be a trusted non-writable directory.'')
      | Some before \<Rightarrow>
          (if \<not> trusted_parent euid before
           then return (Some ''Local listener parent must be a trusted non-writable directory.'')
           else do {
             directory \<leftarrow> open_directory parent;
             if \<not> directory then return (Some ''Local listener parent could not be opened safely.'')
             else do {
               opened \<leftarrow> stat_directory parent;
               (if map_option inode opened \<noteq> Some (inode before) then do {
                  close_descriptor;
                  return (Some ''Local listener parent identity changed during startup.'')
                }
                else return None)
             }
           }))"

definition open_parent :: "listener \<Rightarrow> string \<Rightarrow> string option io" where
  "open_parent ls parent = do {
     canonical_parent \<leftarrow> canonical_call (ls_canonical ls) parent;
     parent_status \<leftarrow> (case canonical_parent of
         None \<Rightarrow> return None
       | Some c \<Rightarrow> (if path_equal c parent then stat_directory parent else return None));
     euid \<leftarrow> gets effective_uid;
     open_checked_parent parent euid parent_status
   }"

definition socket_secured :: "nat \<Rightarrow> node \<Rightarrow> bool" where
  "socket_secured euid n \<longleftrightarrow> kind n = Unix_socket \<and> owner n = euid"

definition socket_verified :: "listener_config \<Rightarrow> nat \<Rightarrow> nat \<Rightarrow> node \<Rightarrow> bool" where
  "socket_verified c euid i n \<longleftrightarrow>
     kind n = Unix_socket \<and> inode n = i \<and> owner n = euid \<and> mode n AND 511 = lc_socket_mode c \<and>
     (case lc_socket_group_id c of None \<Rightarrow> True | Some g \<Rightarrow> group n = g)"

text \<open>The mode, a second look, and \<open>listen\<close>.\<close>

definition permit_socket ::
  "listener \<Rightarrow> path \<Rightarrow> nat \<Rightarrow> bool \<Rightarrow> listener_state \<Rightarrow> (bool \<times> listener_state) io" where
  "permit_socket ls p euid group_set st = do {
     permissions_set \<leftarrow> (if \<not> group_set then return False
       else change_entry p (\<lambda>n. n\<lparr>mode := lc_socket_mode (ls_config ls)\<rparr>));
     verified \<leftarrow> (if \<not> permissions_set then return None else stat_entry p);
     (if (case verified of None \<Rightarrow> False
          | Some v \<Rightarrow> socket_verified (ls_config ls) euid (ll_inode st) v)
      then do { listening \<leftarrow> plain_call; return (listening, st) }
      else return (False, st))
   }"

text \<open>From the bound socket on: remember it if it is the own one, and set its group first.\<close>

definition secure_socket :: "listener \<Rightarrow> path \<Rightarrow> listener_state \<Rightarrow> (bool \<times> listener_state) io" where
  "secure_socket ls p st = do {
     bound \<leftarrow> stat_entry p;
     euid \<leftarrow> gets effective_uid;
     (case bound of
        None \<Rightarrow> return (False, st)
      | Some b \<Rightarrow>
          (if \<not> socket_secured euid b then return (False, st)
           else do {
             group_set \<leftarrow> (case lc_socket_group_id (ls_config ls) of
                 None \<Rightarrow> return True
               | Some g \<Rightarrow> change_entry p (\<lambda>n. n\<lparr>owner := owner b, group := g\<rparr>));
             permit_socket ls p euid group_set (st\<lparr>ll_inode := inode b\<rparr>)
           }))
   }"

definition ready_event :: "listener_config \<Rightarrow> string \<Rightarrow> event" where
  "ready_event c timestamp =
     (let e = listener_event timestamp Info ''GH-LSN-0002'' ''listening''
            ''Local controller listener is accepting one bounded session at a time.'';
          e = add_attribute ''listen_backlog'' (int_string (lc_listen_backlog c)) e;
          e = add_attribute ''socket_mode'' (if lc_socket_mode c = 384 then ''0600'' else ''0660'') e;
          e = add_attribute ''socket_group_delegated''
            (if lc_socket_group_id c \<noteq> None then ''true'' else ''false'') e;
          e = add_attribute ''admission_limit''
            (decimal (rc_maximum_admissions (lc_admission_rate_limit c))) e
      in add_attribute ''admission_window_ms'' (int_string (rc_window (lc_admission_rate_limit c))) e)"

definition abandon_socket :: "listener_state \<Rightarrow> listener_state io" where
  "abandon_socket st = do {
     st \<leftarrow> close_listener st;
     (removed, st) \<leftarrow> cleanup_socket_path st;
     return st
   }"

definition activate_socket :: "listener \<Rightarrow> path \<Rightarrow> listener_state \<Rightarrow> (listener_result \<times> listener_state) io" where
  "activate_socket ls p st = do {
     (secured, st) \<leftarrow> secure_socket ls p st;
     if \<not> secured then do {
       st \<leftarrow> abandon_socket st;
       r \<leftarrow> audited_failure ls Lsn_io_error Error ''GH-LSN-2001''
         ''Local listener could not secure and activate its socket.'';
       return (r, st)
     }
     else do {
       ready \<leftarrow> listener_append ls (ready_event (ls_config ls));
       if \<not> ready then do {
         st \<leftarrow> abandon_socket st;
         return (listener_result_of Lsn_audit_failed ''GH-LSN-2002''
           ''Local listener readiness could not be audited.'' None, st)
       }
       else return (listener_result_of Lsn_listening ''GH-LSN-0002''
         ''Local controller listener is active.'' None, st\<lparr>ll_limiter := reset_limiter (ll_limiter st)\<rparr>)
     }
   }"

definition bind_listener :: "listener \<Rightarrow> path \<Rightarrow> listener_state \<Rightarrow> (listener_result \<times> listener_state) io" where
  "bind_listener ls p st = do {
     existing \<leftarrow> stat_entry p;
     e \<leftarrow> saved_errno;
     if existing \<noteq> None then do {
       close_descriptor;
       r \<leftarrow> audited_failure ls Lsn_address_in_use Warning ''GH-LSN-1003''
         ''Local listener refuses to replace an existing filesystem entry.'';
       return (r, st)
     }
     else if e \<noteq> ENOENT then do {
       close_descriptor;
       r \<leftarrow> audited_failure ls Lsn_io_error Error ''GH-LSN-2001''
         ''Local listener address availability could not be verified.'';
       return (r, st)
     }
     else do {
       opened \<leftarrow> plain_call;
       configured \<leftarrow> (if opened then configure_socket else return False);
       if \<not> configured then do {
         (if opened then close_descriptor else return True);
         close_descriptor;
         r \<leftarrow> audited_failure ls Lsn_io_error Error ''GH-LSN-2001''
           ''Local listener socket could not be created safely.'';
         return (r, st)
       }
       else do {
         bound \<leftarrow> bind_socket p (ls_bound_mode ls);
         if \<not> bound then do {
           close_descriptor;
           close_descriptor;
           r \<leftarrow> audited_failure ls Lsn_io_error Error ''GH-LSN-2001''
             ''Local listener address could not be bound.'';
           return (r, st)
         }
         else activate_socket ls p (st\<lparr>ll_directory := Some (fst p), ll_listening := True,
                ll_filename := snd p, ll_owns := True\<rparr>)
       }
     }
   }"

definition socket_entry :: "listener \<Rightarrow> path" where
  "socket_entry ls =
     (parent_path (lc_socket_path (ls_config ls)), path_filename (lc_socket_path (ls_config ls)))"

definition listener_start :: "listener \<Rightarrow> listener_state \<Rightarrow> (listener_result \<times> listener_state) io" where
  "listener_start ls st =
     (if ll_listening st
      then return (listener_result_of Lsn_listening ''GH-LSN-0002''
        ''Local controller listener is already active.'' None, st)
      else if \<not> listener_config_ok ls st then do {
        r \<leftarrow> audited_failure ls Lsn_invalid_configuration Warning ''GH-LSN-1001''
          ''Local listener configuration is outside safe bounds.'';
        return (r, st)
      }
      else do {
        starting \<leftarrow> listener_append ls (\<lambda>t. listener_event t Info ''GH-LSN-0001'' ''starting''
          ''Local controller listener startup was requested.'');
        if \<not> starting
        then return (listener_result_of Lsn_audit_failed ''GH-LSN-2002''
          ''Local listener startup could not be audited.'' None, st)
        else do {
          refused \<leftarrow> open_parent ls (fst (socket_entry ls));
          (case refused of
             Some m \<Rightarrow> do {
               r \<leftarrow> audited_failure ls Lsn_unsafe_directory Error ''GH-LSN-1002'' m;
               return (r, st)
             }
           | None \<Rightarrow> bind_listener ls (socket_entry ls) st)
        }
      })"

section \<open>One admission\<close>

text \<open>
  What the poll-and-accept loop meets: the deadline, a retry (\<open>EINTR\<close>, \<open>EAGAIN\<close>,
  \<open>EWOULDBLOCK\<close>, \<open>ECONNABORTED\<close>), an error, or a connection with the bytes its peer
  will send, the outcomes of sending to it, and the time of its acceptance in nanoseconds. When the
  listed events are used up the deadline has passed.
\<close>

datatype accept_event =
  Accept_deadline | Accept_retry | Accept_broken
| Accepted connection "socket_event list" "outcome list" int

fun accept_loop :: "accept_event list \<Rightarrow> accept_event" where
  "accept_loop [] = Accept_deadline"
| "accept_loop (Accept_retry # events) = accept_loop events"
| "accept_loop (event # events) = event"

definition attach :: "socket_event list \<Rightarrow> outcome list \<Rightarrow> unit io" where
  "attach received sent = modify (\<lambda>w. w\<lparr>inbound := received, send_events := sent\<rparr>)"

definition serve_one ::
  "listener \<Rightarrow> int \<Rightarrow> int \<Rightarrow> accept_event list \<Rightarrow> listener_state \<Rightarrow> controller_state \<Rightarrow>
     (listener_result \<times> listener_state \<times> controller_state) io" where
  "serve_one ls accept_timeout session_timeout events st ctl =
     (if ll_serving st then do {
        listener_append ls (\<lambda>t. listener_event t Warning ''GH-LSN-1004'' ''rejected''
          ''Concurrent local listener admission was rejected.'');
        return (listener_result_of Lsn_busy ''GH-LSN-1004''
          ''Local listener already has an active admission call.'' None, st, ctl)
      }
      else if \<not> ll_listening st
      then return (listener_result_of Lsn_not_listening ''GH-LSN-1001''
        ''Local listener has not been started.'' None, st, ctl)
      else if \<not> valid_accept_timeout accept_timeout \<or> \<not> valid_accept_timeout session_timeout
      then return (listener_result_of Lsn_invalid_configuration ''GH-LSN-1001''
        ''Local listener timeout is outside safe bounds.'' None, st, ctl)
      else (case accept_loop events of
          Accepted conn received sent now \<Rightarrow>
            (case try_admit now (ll_limiter st) of (decision, limiter) \<Rightarrow>
              let st = st\<lparr>ll_limiter := limiter\<rparr>
              in if \<not> rd_admitted decision
                 then return (listener_result_of Lsn_rate_limited ''GH-LSN-1006''
                   ''Local controller connection was rate limited.'' None, st, ctl)
                 else do {
                   attach received sent;
                   (session, ctl) \<leftarrow> serve (ls_session ls) conn session_timeout ctl;
                   return (listener_result_of Lsn_session_completed (sr_event_id session)
                     ''Local controller connection reached a terminal session result.''
                     (Some session), st, ctl)
                 })
        | Accept_broken \<Rightarrow> do {
            listener_append ls (\<lambda>t. listener_event t Error ''GH-LSN-2003'' ''failed''
              ''Local listener could not accept a pending connection.'');
            return (listener_result_of Lsn_io_error ''GH-LSN-2003''
              ''Local listener could not accept a pending connection.'' None, st, ctl)
          }
        | _ \<Rightarrow> return (listener_result_of Lsn_accept_timed_out ''GH-LSN-1005''
            ''No local controller connection arrived before the deadline.'' None, st, ctl)))"

section \<open>Stop and destruction\<close>

definition listener_stop :: "listener \<Rightarrow> listener_state \<Rightarrow> (listener_result \<times> listener_state) io" where
  "listener_stop ls st =
     (if ll_serving st
      then return (listener_result_of Lsn_busy ''GH-LSN-1004''
        ''Local listener cannot stop while a session admission is active.'' None, st)
      else if \<not> ll_listening st \<and> \<not> ll_owns st
      then return (listener_result_of Lsn_stopped ''GH-LSN-0003''
        ''Local controller listener is already stopped.'' None, st)
      else do {
        st \<leftarrow> close_listener st;
        (removed, st) \<leftarrow> cleanup_socket_path st;
        if \<not> removed then do {
          listener_append ls (\<lambda>t. listener_event t Error ''GH-LSN-2004'' ''failed''
            ''Local listener socket path could not be removed safely.'');
          return (listener_result_of Lsn_cleanup_failed ''GH-LSN-2004''
            ''Local listener socket path could not be removed safely.'' None, st)
        }
        else do {
          audited \<leftarrow> listener_append ls (\<lambda>t. listener_event t Info ''GH-LSN-0003'' ''stopped''
            ''Local controller listener stopped cleanly.'');
          return (if \<not> audited
            then (listener_result_of Lsn_audit_failed ''GH-LSN-2002''
              ''Local listener shutdown could not be audited.'' None, st)
            else (listener_result_of Lsn_stopped ''GH-LSN-0003''
              ''Local controller listener stopped cleanly.'' None, st))
        }
      })"

definition listener_destroy :: "listener_state \<Rightarrow> listener_state io" where
  "listener_destroy st = abandon_socket st"

section \<open>What happens to the file system\<close>

text \<open>
  From \<open>w0\<close> to \<open>w\<close> only the journal and the socket's entry were touched, the
  events \<open>es\<close> were logged, and the entry is now \<open>x\<close>.
\<close>

definition listener_at :: "listener \<Rightarrow> event list \<Rightarrow> node option \<Rightarrow> world \<Rightarrow> world \<Rightarrow> bool" where
  "listener_at ls es x w0 w \<longleftrightarrow>
     same_setting w0 w \<and> only_touches {journal_path (ls_journal ls), socket_entry ls} w0 w \<and>
     entries w (socket_entry ls) = x \<and> actions w = actions w0 @ map Audited es"

text \<open>The socket does not lie in the journal directory.\<close>

definition journal_apart :: "listener \<Rightarrow> bool" where
  "journal_apart ls \<longleftrightarrow> ls_journal ls \<noteq> fst (socket_entry ls)"

lemma listener_at_start: "listener_at ls [] (entries w (socket_entry ls)) w w"
  by (simp add: listener_at_def)

lemma listener_at_update [simp]:
  "listener_at ls es x w0 (w\<lparr>script := rs\<rparr>) = listener_at ls es x w0 w"
  "listener_at ls es x w0 (w\<lparr>last_errno := e\<rparr>) = listener_at ls es x w0 w"
  "listener_at ls es x w0 (w\<lparr>clock_reads := n\<rparr>) = listener_at ls es x w0 w"
  "listener_at ls es x w0 (w\<lparr>next_inode := n\<rparr>) = listener_at ls es x w0 w"
  by (simp_all add: listener_at_def)

lemma listener_at_put:
  "listener_at ls es x w0 w \<Longrightarrow> listener_at ls es y w0 (put_entry (socket_entry ls) y w)"
  by (simp add: listener_at_def)

lemma listener_at_entry: "listener_at ls es x w0 w \<Longrightarrow> entries w (socket_entry ls) = x"
  by (simp add: listener_at_def)

lemma listener_at_uid: "listener_at ls es x w0 w \<Longrightarrow> effective_uid w = effective_uid w0"
  by (simp add: listener_at_def same_setting_def)

lemma wp_listener_append:
  assumes "journal_apart ls" "listener_at ls es x w0 w"
    and "\<And>ok t w'. listener_at ls (es @ (if ok then [build t] else [])) x w0 w' \<Longrightarrow> Q ok w'"
  shows "wp (listener_append ls build) Q w"
  unfolding listener_append_def
proof (simp only: wp_simp, rule wp_journal_append_audited)
  let ?w = "w\<lparr>clock_reads := Suc (clock_reads w)\<rparr>" and ?e = "build (clock w (clock_reads w))"
  fix r w' assume aud: "audited (ls_journal ls) (if journal_ok r then [?e] else []) ?w w'"
  have "socket_entry ls \<noteq> journal_path (ls_journal ls)"
    using assms(1) by (auto simp: journal_apart_def journal_path_def)
  with aud have "entries w' (socket_entry ls) = entries w (socket_entry ls)"
    by (auto simp: audited_def dest: only_touches_entry)
  with aud assms(2) have "listener_at ls (es @ (if journal_ok r then [?e] else [])) x w0 w'"
    by (auto simp: listener_at_def audited_def intro: same_setting_trans only_touches_trans
        only_touches_mono [where P = "{journal_path (ls_journal ls)}"])
  then show "wp (return (journal_ok r)) Q w'" by (simp add: assms(3))
qed

lemma wp_audited_failure:
  assumes "journal_apart ls" "listener_at ls es x w0 w"
    and "\<And>es' w'. listener_at ls es' x w0 w' \<Longrightarrow> Q (listener_result_of status event_id m None) w'"
  shows "wp (audited_failure ls status sev event_id m) Q w"
  unfolding audited_failure_def
  by (simp only: wp_simp, rule wp_listener_append [OF assms(1,2)]) (simp add: assms(3))

lemma wp_change_entry:
  assumes "listener_at ls es (Some n) w0 w"
    and "\<And>w'. listener_at ls es (Some n) w0 w' \<Longrightarrow> Q False w'"
    and "\<And>w'. listener_at ls es (Some (f n)) w0 w' \<Longrightarrow> Q True w'"
  shows "wp (change_entry (socket_entry ls) f) Q w"
  unfolding change_entry_def
  by (simp, rule wp_next_outcome)
    (use assms(1) in \<open>auto simp: listener_at_entry [OF assms(1)] intro!: assms(2,3) listener_at_put
      split: outcome.split\<close>)

lemma wp_bind_socket:
  assumes "listener_at ls es None w0 w"
    and "\<And>w'. listener_at ls es None w0 w' \<Longrightarrow> Q False w'"
    and "\<And>n w'. listener_at ls es (Some n) w0 w' \<Longrightarrow> kind n = Unix_socket \<Longrightarrow> Q True w'"
  shows "wp (bind_socket (socket_entry ls) m) Q w"
  unfolding bind_socket_def
  by (simp, rule wp_next_outcome)
    (use assms(1) in \<open>auto simp: listener_at_entry [OF assms(1)] intro!: assms(2,3) listener_at_put
      split: outcome.split\<close>)

lemma wp_listener_plain:
  assumes "listener_at ls es x w0 w" "\<And>ok w'. listener_at ls es x w0 w' \<Longrightarrow> Q ok w'"
  shows "wp plain_call Q w"
  by (rule wp_plain_call) (use assms(1) in \<open>auto intro: assms(2)\<close>)

text \<open>\<open>stat\<close> and \<open>unlink\<close> report \<open>ENOENT\<close> only for a missing entry.\<close>

lemma wp_stat_entry_errno:
  assumes "\<And>rs e. (e = ENOENT \<Longrightarrow> entries w p = None) \<Longrightarrow> Q None (settle rs e w)"
    and "\<And>rs e n. entries w p = Some n \<Longrightarrow> Q (Some n) (settle rs e w)"
  shows "wp (stat_entry p) Q w"
  unfolding stat_entry_def
  by (simp, rule wp_next_outcome)
    (auto simp: assms(2) [where e = "last_errno w", simplified] intro!: assms
      split: outcome.split option.split)

lemma wp_unlink_errno:
  assumes "\<And>rs e. (e = ENOENT \<Longrightarrow> entries w p = None) \<Longrightarrow> Q False (settle rs e w)"
    and "\<And>rs e n. entries w p = Some n \<Longrightarrow> Q True (put_entry p None (settle rs e w))"
  shows "wp (unlink p) Q w"
  unfolding unlink_def
  by (simp, rule wp_next_outcome)
    (auto simp: assms(2) [where e = "last_errno w", simplified] intro!: assms
      split: outcome.split option.split)

lemma wp_listener_stat:
  assumes "listener_at ls es x w0 w"
    and "\<And>w'. (last_errno w' = ENOENT \<Longrightarrow> x = None) \<Longrightarrow> listener_at ls es x w0 w' \<Longrightarrow> Q None w'"
    and "\<And>n w'. x = Some n \<Longrightarrow> listener_at ls es x w0 w' \<Longrightarrow> Q (Some n) w'"
  shows "wp (stat_entry (socket_entry ls)) Q w"
  by (rule wp_stat_entry_errno)
    (use assms(1) in \<open>auto simp: listener_at_entry [OF assms(1)] intro: assms(2,3)\<close>)

text \<open>The states between two operations: nothing open, or the socket bound.\<close>

definition listener_idle :: "listener_state \<Rightarrow> bool" where
  "listener_idle st \<longleftrightarrow> \<not> ll_listening st \<and> \<not> ll_owns st"

definition listener_bound :: "listener \<Rightarrow> listener_state \<Rightarrow> bool" where
  "listener_bound ls st \<longleftrightarrow>
     ll_listening st \<and> ll_owns st \<and> ll_directory st = Some (fst (socket_entry ls)) \<and>
     ll_filename st = snd (socket_entry ls)"

text \<open>Removing the socket: the entry goes only if it is a socket with the remembered inode.\<close>

definition removable :: "listener_state \<Rightarrow> node option \<Rightarrow> bool" where
  "removable st x \<longleftrightarrow> (\<exists>n. x = Some n \<and> kind n = Unix_socket \<and> inode n = ll_inode st)"

lemma wp_remove_own_socket:
  assumes "listener_bound ls st" "listener_at ls es x w0 w"
    and "\<And>w'. listener_at ls es x w0 w' \<Longrightarrow> Q False w'"
    and "\<And>w'. listener_at ls es None w0 w' \<Longrightarrow> x = None \<or> removable st x \<Longrightarrow> Q True w'"
  shows "wp (remove_own_socket st) Q w"
proof -
  have entry: "(fst (socket_entry ls), ll_filename st) = socket_entry ls"
    using assms(1) by (simp add: listener_bound_def)
  show ?thesis
    using assms(1)
  proof (auto simp: remove_own_socket_def listener_bound_def entry intro!: assms(3) assms(2), goal_cases)
    case 1
    show ?case
    proof (rule wp_listener_stat [OF assms(2)], goal_cases)
      case (1 w')
      then show ?case by (cases "last_errno w' = ENOENT") (auto intro: assms(3,4))
    next
      case (2 n w')
      show ?case
      proof (cases "kind n = Unix_socket \<and> inode n = ll_inode st")
        case True
        with 2(1) have "removable st x" by (simp add: removable_def)
        with True 2 show ?thesis
          by (auto simp: entry listener_at_entry [OF 2(2)] intro!: wp_unlink_errno assms(3,4) listener_at_put)
      qed (use 2 in \<open>auto intro: assms(3)\<close>)
    qed
  qed
qed

text \<open>After closing and cleaning up nothing is open; the entry is as it was, or was the own
  socket and is gone.\<close>

lemma wp_close_cleanup:
  assumes "listener_bound ls st" "listener_at ls es x w0 w"
    and "\<And>removed st' y w'. listener_idle st' \<Longrightarrow> ll_serving st' = ll_serving st \<Longrightarrow> ll_limiter st' = ll_limiter st \<Longrightarrow>
      listener_at ls es y w0 w' \<Longrightarrow> y = x \<or> y = None \<and> removable st x \<Longrightarrow> (removed \<Longrightarrow> y = None) \<Longrightarrow>
      Q (removed, st') w'"
  shows "wp (do { st \<leftarrow> close_listener st; cleanup_socket_path st }) Q w"
proof -
  have listening: "ll_listening st" using assms(1) by (simp add: listener_bound_def)
  let ?st = "st\<lparr>ll_listening := False\<rparr>"
  have same: "remove_own_socket ?st = remove_own_socket st"
    by (simp add: remove_own_socket_def cong: option.case_cong if_cong)
  have "wp (cleanup_socket_path ?st) Q w1" if "listener_at ls es x w0 w1" for w1
    using assms(1)
    by (auto simp: cleanup_socket_path_def listener_bound_def same listener_idle_def
        intro!: wp_remove_own_socket [OF assms(1) that] wp_listener_plain assms(3))
  then show ?thesis
    using listening by (auto simp: close_listener_def intro!: wp_listener_plain [OF assms(2)])
qed

section \<open>Starting\<close>

text \<open>
  How a start ends. Either the socket is bound where nothing was, carries the configured owner, group
  and mode, and its directory was trusted; or the listener is idle, and the entry is as it was, or
  was absent and is now a socket of this listener that could not be removed.
\<close>

definition started :: "listener \<Rightarrow> world \<Rightarrow> listener_result \<times> listener_state \<Rightarrow> world \<Rightarrow> bool" where
  "started ls w0 x w \<longleftrightarrow>
     (\<exists>es n. listener_at ls es (Some n) w0 w \<and> entries w0 (socket_entry ls) = None \<and>
        listener_bound ls (snd x) \<and> \<not> ll_serving (snd x) \<and>
        socket_verified (ls_config ls) (effective_uid w0) (ll_inode (snd x)) n \<and>
        (\<exists>d. dirs w0 (fst (socket_entry ls)) = Some d \<and> trusted_parent (effective_uid w0) d) \<and>
        rl_admissions (ll_limiter (snd x)) = [] \<and> \<not> rl_has_observation (ll_limiter (snd x)))"

definition not_started :: "listener \<Rightarrow> world \<Rightarrow> listener_result \<times> listener_state \<Rightarrow> world \<Rightarrow> bool" where
  "not_started ls w0 x w \<longleftrightarrow>
     listener_idle (snd x) \<and> \<not> ll_serving (snd x) \<and> \<not> listener_ok (fst x) \<and>
     (\<exists>es y. listener_at ls es y w0 w \<and>
        (y = entries w0 (socket_entry ls) \<or>
         entries w0 (socket_entry ls) = None \<and> (\<exists>n. y = Some n \<and> kind n = Unix_socket)))"

definition start_outcome :: "listener \<Rightarrow> world \<Rightarrow> listener_result \<times> listener_state \<Rightarrow> world \<Rightarrow> bool" where
  "start_outcome ls w0 x w \<longleftrightarrow>
     (if lr_status (fst x) = Lsn_listening then started ls w0 x w else not_started ls w0 x w)"

lemma listener_result_of_sel [simp]:
  "lr_status (listener_result_of status i m s) = status"
  "lr_session (listener_result_of status i m s) = s"
  "listener_ok (listener_result_of status i m s) \<longleftrightarrow> status \<in> {Lsn_listening, Lsn_stopped, Lsn_session_completed}"
  by (simp_all add: listener_result_of_def listener_ok_def)

lemma not_started_failed:
  assumes "listener_idle st" "\<not> ll_serving st" "listener_at ls es y w0 w"
    and "y = entries w0 (socket_entry ls) \<or> entries w0 (socket_entry ls) = None \<and> (\<exists>n. y = Some n \<and> kind n = Unix_socket)"
    and "status \<notin> {Lsn_listening, Lsn_stopped, Lsn_session_completed}"
  shows "start_outcome ls w0 (listener_result_of status i m s, st) w"
  using assms by (auto simp: start_outcome_def not_started_def)

lemma wp_start_refused:
  assumes "journal_apart ls" "listener_idle st" "\<not> ll_serving st" "listener_at ls es y w0 w"
    and "y = entries w0 (socket_entry ls) \<or> entries w0 (socket_entry ls) = None \<and> (\<exists>n. y = Some n \<and> kind n = Unix_socket)"
    and "status \<notin> {Lsn_listening, Lsn_stopped, Lsn_session_completed}"
  shows "wp (audited_failure ls status sev i m) (\<lambda>r. start_outcome ls w0 (r, st)) w"
  by (rule wp_audited_failure [OF assms(1,4)]) (rule not_started_failed [OF assms(2,3) _ assms(5,6)])

text \<open>Securing keeps the entry a socket and ends well only with a verified one.\<close>

lemma wp_permit_socket:
  assumes "listener_at ls es (Some n) w0 w" "kind n = Unix_socket" "euid = effective_uid w0"
    and "\<And>ok n' w'. listener_at ls es (Some n') w0 w' \<Longrightarrow> kind n' = Unix_socket \<Longrightarrow>
      (ok \<Longrightarrow> socket_verified (ls_config ls) (effective_uid w0) (ll_inode st) n') \<Longrightarrow> Q (ok, st) w'"
  shows "wp (permit_socket ls (socket_entry ls) euid group_set st) Q w"
proof -
  have failed: "Q (False, st) w'" if "listener_at ls es (Some n') w0 w'" "kind n' = Unix_socket" for n' w'
    using that by (intro assms(4)) auto
  have verify: "wp (if (case v of None \<Rightarrow> False | Some v \<Rightarrow> socket_verified (ls_config ls) euid (ll_inode st) v)
      then do { listening \<leftarrow> plain_call; return (listening, st) } else return (False, st)) Q w'"
    if "listener_at ls es (Some n') w0 w'" "kind n' = Unix_socket" "v = None \<or> v = Some n'" for n' w' v
    using that assms(3)
    by (auto split: option.split intro!: wp_listener_plain [OF that(1)] failed assms(4))
  show ?thesis
  proof (cases group_set)
    case True
    show ?thesis
      unfolding permit_socket_def
      by (simp only: True simp_thms if_False wp_bind, rule wp_change_entry [OF assms(1)])
        (auto intro: failed [OF _ assms(2)] simp: assms(2) intro!: wp_listener_stat verify)
  next
    case False
    then show ?thesis using failed [OF assms(1,2)] by (simp add: permit_socket_def)
  qed
qed

lemma wp_secure_socket:
  assumes "listener_bound ls st" "listener_at ls es (Some n) w0 w" "kind n = Unix_socket"
    and "\<And>ok st' n' w'. listener_bound ls st' \<Longrightarrow> ll_serving st' = ll_serving st \<Longrightarrow>
      listener_at ls es (Some n') w0 w' \<Longrightarrow> kind n' = Unix_socket \<Longrightarrow>
      (ok \<Longrightarrow> socket_verified (ls_config ls) (effective_uid w0) (ll_inode st') n') \<Longrightarrow> Q (ok, st') w'"
  shows "wp (secure_socket ls (socket_entry ls) st) Q w"
proof -
  have early: "Q (False, st) w'" if "listener_at ls es (Some n) w0 w'" for w'
    using that assms(1,3) by (intro assms(4)) auto
  have permit: "wp (permit_socket ls (socket_entry ls) euid group_set (st\<lparr>ll_inode := i\<rparr>)) Q w'"
    if "listener_at ls es (Some n') w0 w'" "kind n' = Unix_socket" "euid = effective_uid w0" for i n' w' group_set euid
    by (rule wp_permit_socket [OF that]) (rule assms(4), use assms(1) in \<open>auto simp: listener_bound_def\<close>)
  show ?thesis
    unfolding secure_socket_def
  proof (simp only: wp_bind wp_gets, rule wp_listener_stat [OF assms(2)], goal_cases)
    case (1 w')
    then show ?case by (auto intro: early)
  next
    case (2 b w')
    then have "effective_uid w' = effective_uid w0" by (auto dest: listener_at_uid)
    with 2 assms(3) show ?case
      by (auto intro!: early wp_change_entry permit simp: wp_if split: option.split)
  qed
qed

text \<open>From the bound socket on.\<close>

lemma wp_bind_eta: "wp (State_Monad.bind m f) Q = wp m (\<lambda>a. wp (f a) Q)"
  by (rule ext) simp

lemma wp_abandon:
  assumes "listener_bound ls st" "listener_at ls es (Some n) w0 w" "kind n = Unix_socket"
    and "\<And>st' y w'. listener_idle st' \<Longrightarrow> ll_serving st' = ll_serving st \<Longrightarrow> listener_at ls es y w0 w' \<Longrightarrow>
      y = None \<or> (\<exists>n. y = Some n \<and> kind n = Unix_socket) \<Longrightarrow> Q st' w'"
  shows "wp (abandon_socket st) Q w"
proof -
  have "wp (do { st \<leftarrow> close_listener st; cleanup_socket_path st }) (\<lambda>x. Q (snd x)) w"
    by (rule wp_close_cleanup [OF assms(1,2)]) (use assms(3,4) in auto)
  then show ?thesis by (simp add: abandon_socket_def case_prod_unfold wp_bind_eta)
qed

lemma wp_activate_socket:
  assumes "journal_apart ls" "listener_bound ls st" "\<not> ll_serving st"
    and "listener_at ls es (Some n) w0 w" "kind n = Unix_socket" "entries w0 (socket_entry ls) = None"
    and "dirs w0 (fst (socket_entry ls)) = Some d" "trusted_parent (effective_uid w0) d"
  shows "wp (activate_socket ls (socket_entry ls) st) (start_outcome ls w0) w"
  unfolding activate_socket_def
proof (simp only: wp_bind split_beta, rule wp_secure_socket [OF assms(2,4,5)], goal_cases)
  case (1 ok st1 n1 w1)
  show ?case
  proof (cases ok)
    case False
    then show ?thesis
      by (simp only: fst_conv snd_conv simp_thms if_True wp_bind, intro wp_abandon [OF 1(1,3,4)])
        (auto intro!: wp_start_refused [OF assms(1)] simp: 1(2) assms(3,6))
  next
    case True
    show ?thesis
    proof (simp only: True fst_conv snd_conv simp_thms if_False wp_bind,
        rule wp_listener_append [OF assms(1) 1(3)], goal_cases)
      case (1 ready t w2)
      note at = 1
      show ?case
      proof (cases ready)
        case False
        then show ?thesis
          by (simp only: simp_thms if_True wp_bind wp_return, intro wp_abandon [OF \<open>listener_bound ls st1\<close> at \<open>kind n1 = _\<close>])
            (auto intro!: not_started_failed simp: \<open>ll_serving st1 = _\<close> assms(3,6))
      next
        case True
        with at \<open>listener_bound ls st1\<close> \<open>ll_serving st1 = _\<close> \<open>ok \<Longrightarrow> _\<close> \<open>ok\<close> assms(3,6-8) show ?thesis
          by (auto simp: start_outcome_def started_def listener_bound_def reset_limiter_def)
      qed
    qed
  qed
qed

lemma wp_bind_listener:
  assumes "journal_apart ls" "listener_idle st" "\<not> ll_serving st"
    and "listener_at ls es (entries w0 (socket_entry ls)) w0 w"
    and "dirs w0 (fst (socket_entry ls)) = Some d" "trusted_parent (effective_uid w0) d"
  shows "wp (bind_listener ls (socket_entry ls) st) (start_outcome ls w0) w"
  unfolding bind_listener_def
proof (simp only: wp_bind wp_saved_errno, rule wp_listener_stat [OF assms(4)], goal_cases)
  case (1 w1)
  have refused: "wp (audited_failure ls Lsn_io_error Error ''GH-LSN-2001'' m) (\<lambda>r. start_outcome ls w0 (r, st)) w'"
    if "listener_at ls es (entries w0 (socket_entry ls)) w0 w'" for m w'
    by (rule wp_start_refused [OF assms(1-3) that]) auto
  show ?case
  proof (cases "last_errno w1 = ENOENT")
    case False
    then show ?thesis
      by (auto intro!: wp_listener_plain [OF 1(2)] refused)
  next
    case True
    with 1(1) have none: "entries w0 (socket_entry ls) = None" by simp
    let ?st = "st\<lparr>ll_directory := Some (fst (socket_entry ls)), ll_listening := True,
      ll_filename := snd (socket_entry ls), ll_owns := True\<rparr>"
    have bound: "listener_bound ls ?st" by (simp add: listener_bound_def)
    have activate: "wp (activate_socket ls (socket_entry ls) ?st) (start_outcome ls w0) w'"
      if "listener_at ls es (Some n) w0 w'" "kind n = Unix_socket" for n w'
      by (rule wp_activate_socket [OF assms(1) bound _ that none assms(5,6)]) (simp add: assms(3))
    show ?thesis
      using True 1(2) unfolding none
      by (auto simp: configure_socket_def none intro!: wp_listener_plain wp_bind_socket activate refused)
  qed
next
  case (2 n w1)
  show ?case
    by (auto intro!: wp_listener_plain [OF 2(2)] wp_start_refused [OF assms(1-3)])
qed

lemma wp_listener_directory:
  assumes "listener_at ls es x w0 w"
    and "\<And>w'. listener_at ls es x w0 w' \<Longrightarrow> Q None w'"
    and "\<And>d w'. listener_at ls es x w0 w' \<Longrightarrow> dirs w0 p = Some d \<Longrightarrow> Q (Some d) w'"
  shows "wp (stat_directory p) Q w"
proof -
  have "dirs w = dirs w0" using assms(1) by (simp add: listener_at_def same_setting_def)
  then show ?thesis
    by (intro wp_stat_directory) (use assms(1) in \<open>auto intro: assms(2,3)\<close>)
qed

lemma wp_open_checked_parent:
  assumes "listener_at ls es x w0 w" "status = None \<or> status = dirs w0 p" "euid = effective_uid w0"
    and "\<And>m w'. listener_at ls es x w0 w' \<Longrightarrow> Q (Some m) w'"
    and "\<And>d w'. listener_at ls es x w0 w' \<Longrightarrow> dirs w0 p = Some d \<Longrightarrow> trusted_parent (effective_uid w0) d \<Longrightarrow> Q None w'"
  shows "wp (open_checked_parent p euid status) Q w"
proof -
  have opened: "wp (open_directory p) R w'" if "listener_at ls es x w0 w'" "\<And>ok w'. listener_at ls es x w0 w' \<Longrightarrow> R ok w'" for R w'
    by (rule wp_open_directory) (use that in auto)
  show ?thesis
  proof (cases status)
    case None
    then show ?thesis by (simp add: open_checked_parent_def assms(1,4))
  next
    case (Some before)
    with assms(2) have before: "dirs w0 p = Some before" by simp
    show ?thesis
      unfolding Some open_checked_parent_def option.case
      by (auto simp: assms(3) intro!: assms(1,4) opened [OF assms(1)] wp_listener_directory wp_listener_plain assms(5) before)
  qed
qed

lemma wp_canonical_call:
  assumes "listener_at ls es x w0 w" "\<And>c w'. listener_at ls es x w0 w' \<Longrightarrow> Q c w'"
  shows "wp (canonical_call canonical p) Q w"
  unfolding canonical_call_def
  by (simp, rule wp_next_outcome) (use assms(1) in \<open>auto intro: assms(2) split: outcome.split\<close>)

lemma wp_open_parent:
  assumes "listener_at ls es x w0 w"
    and "\<And>m w'. listener_at ls es x w0 w' \<Longrightarrow> Q (Some m) w'"
    and "\<And>d w'. listener_at ls es x w0 w' \<Longrightarrow> dirs w0 p = Some d \<Longrightarrow> trusted_parent (effective_uid w0) d \<Longrightarrow> Q None w'"
  shows "wp (open_parent ls p) Q w"
proof -
  have inspect: "wp (open_checked_parent p (effective_uid w') status) Q w'"
    if "listener_at ls es x w0 w'" "status = None \<or> status = dirs w0 p" for w' status
    by (rule wp_open_checked_parent [OF that listener_at_uid [OF that(1)]]) (rule assms(2,3); assumption)+
  have status: "wp (case c of None \<Rightarrow> return None | Some c \<Rightarrow> if path_equal c p then stat_directory p else return None)
      (\<lambda>status. wp (do { euid \<leftarrow> gets effective_uid; open_checked_parent p euid status }) Q) w'"
    if "listener_at ls es x w0 w'" for c w'
    using that
    by (cases c) (auto intro!: inspect wp_listener_directory [OF that])
  show ?thesis
    unfolding open_parent_def
    by (subst wp_bind, rule wp_canonical_call [OF assms(1)], subst wp_bind, rule status)
qed

lemma wp_listener_start:
  assumes "journal_apart ls" "listener_idle st" "\<not> ll_serving st"
  shows "wp (listener_start ls st) (start_outcome ls w) w"
proof -
  have start: "listener_at ls [] (entries w (socket_entry ls)) w w" by (rule listener_at_start)
  have refused: "wp (audited_failure ls status sev i m) (\<lambda>r. start_outcome ls w (r, st)) w'"
    if "listener_at ls es (entries w (socket_entry ls)) w w'" "status \<notin> {Lsn_listening, Lsn_stopped, Lsn_session_completed}"
    for status sev i m es w'
    by (rule wp_start_refused [OF assms that(1) _ that(2)]) simp
  have idle: "ll_listening st = False" using assms(2) by (simp add: listener_idle_def)
  show ?thesis
  proof (cases "listener_config_ok ls st")
    case True
    show ?thesis
      unfolding listener_start_def
    proof (simp only: idle True simp_thms if_False wp_bind, rule wp_listener_append [OF assms(1) start], goal_cases)
      case (1 ok t w1)
      show ?case
      proof (cases ok)
        case False
        with 1 show ?thesis by (auto intro!: not_started_failed [OF assms(2,3)])
      next
        case True
        then show ?thesis
          using wp_bind_listener [OF assms]
          by (auto intro!: wp_open_parent [OF 1] refused)
      qed
    qed
  next
    case False
    then show ?thesis using refused [OF start] idle by (simp add: listener_start_def)
  qed
qed

lemma listener_at_elsewhere:
  "listener_at ls es x w0 w \<Longrightarrow> p \<notin> {journal_path (ls_journal ls), socket_entry ls} \<Longrightarrow> entries w p = entries w0 p"
  unfolding listener_at_def by (auto dest: only_touches_entry)

text \<open>
  C29. Starting the listener never replaces anything. If it succeeds, nothing was at the socket's path,
  there is now a socket there owned by the daemon with exactly the configured mode and group, its
  directory belongs to the daemon and is closed to group writes and to others, and the admission
  window is empty. If it fails, the listener holds nothing; the path is as it was, or a fresh
  socket that could not be removed is left behind. In both cases only the journal changes besides.
\<close>

theorem listener_start_never_replaces:
  assumes "journal_apart ls" and "listener_idle st" and "\<not> ll_serving st"
    and "run_state (listener_start ls st) w = ((r, st'), w')"
  shows "(if lr_status r = Lsn_listening
      then entries w (socket_entry ls) = None \<and> listener_bound ls st' \<and>
        (\<exists>n. entries w' (socket_entry ls) = Some n \<and>
           socket_verified (ls_config ls) (effective_uid w) (ll_inode st') n) \<and>
        (\<exists>d. dirs w (fst (socket_entry ls)) = Some d \<and> trusted_parent (effective_uid w) d) \<and>
        rl_admissions (ll_limiter st') = []
      else listener_idle st' \<and>
        (entries w' (socket_entry ls) = entries w (socket_entry ls) \<or>
         entries w (socket_entry ls) = None \<and>
           (\<exists>n. entries w' (socket_entry ls) = Some n \<and> kind n = Unix_socket))) \<and>
     (\<forall>p. p \<noteq> journal_path (ls_journal ls) \<and> p \<noteq> socket_entry ls \<longrightarrow> entries w' p = entries w p)"
proof -
  from wpD [OF wp_listener_start [OF assms(1-3)] assms(4)]
  have outcome: "start_outcome ls w (r, st') w'" .
  then obtain es y where at: "listener_at ls es y w w'"
    by (auto simp: start_outcome_def started_def not_started_def split: if_splits)
  then have "\<forall>p. p \<noteq> journal_path (ls_journal ls) \<and> p \<noteq> socket_entry ls \<longrightarrow> entries w' p = entries w p"
    by (auto dest: listener_at_elsewhere)
  with outcome show ?thesis
    by (auto simp: start_outcome_def started_def not_started_def dest: listener_at_entry split: if_splits)
qed

section \<open>Stopping\<close>

lemma wp_listener_stop:
  assumes "journal_apart ls" "listener_bound ls st" "\<not> ll_serving st"
  shows "wp (listener_stop ls st) (\<lambda>x w'. listener_idle (snd x) \<and> \<not> ll_serving (snd x) \<and>
     (\<exists>es y. listener_at ls es y w w' \<and>
        (y = entries w (socket_entry ls) \<or> y = None \<and> removable st (entries w (socket_entry ls))) \<and>
        (listener_ok (fst x) \<longrightarrow> y = None \<and> length es = 1))) w"
proof -
  have start: "listener_at ls [] (entries w (socket_entry ls)) w w" by (rule listener_at_start)
  have stop: "(\<not> ll_listening st \<and> \<not> ll_owns st) = False" using assms(2) by (simp add: listener_bound_def)
  let ?rest = "\<lambda>(removed, st). if \<not> removed then do {
          listener_append ls (\<lambda>t. listener_event t Error ''GH-LSN-2004'' ''failed''
            ''Local listener socket path could not be removed safely.'');
          return (listener_result_of Lsn_cleanup_failed ''GH-LSN-2004''
            ''Local listener socket path could not be removed safely.'' None, st)
        }
        else do {
          audited \<leftarrow> listener_append ls (\<lambda>t. listener_event t Info ''GH-LSN-0003'' ''stopped''
            ''Local controller listener stopped cleanly.'');
          return (if \<not> audited
            then (listener_result_of Lsn_audit_failed ''GH-LSN-2002''
              ''Local listener shutdown could not be audited.'' None, st)
            else (listener_result_of Lsn_stopped ''GH-LSN-0003''
              ''Local controller listener stopped cleanly.'' None, st))
        }"
  have whole: "listener_stop ls st = do { x \<leftarrow> (do { st \<leftarrow> close_listener st; cleanup_socket_path st }); ?rest x }"
    using assms(3) stop
    by (simp only: listener_stop_def simp_thms if_False State_Monad.bind_assoc case_prod_unfold)
  show ?thesis
    unfolding whole
  proof (subst wp_bind, rule wp_close_cleanup [OF assms(2) start], goal_cases)
    case (1 removed st' y w1)
    then show ?case
      using assms(3)
      by (auto intro!: wp_listener_append [OF assms(1) 1(4)] exI split: if_splits)
  qed
qed

text \<open>
  C30. Stopping closes the listener in every case and removes at most its own socket: the entry
  disappears only if it is a socket with the inode remembered at startup. A stop that reports success
  has left nothing at the path and has logged exactly one line.
\<close>

theorem listener_stop_removes_own:
  assumes "journal_apart ls" and "listener_bound ls st" and "\<not> ll_serving st"
    and "run_state (listener_stop ls st) w = ((r, st'), w')"
  shows "listener_idle st' \<and>
     (entries w' (socket_entry ls) = entries w (socket_entry ls) \<or>
      entries w' (socket_entry ls) = None \<and>
        (\<exists>n. entries w (socket_entry ls) = Some n \<and> kind n = Unix_socket \<and> inode n = ll_inode st)) \<and>
     (listener_ok r \<longrightarrow> entries w' (socket_entry ls) = None \<and>
        (\<exists>e. actions w' = actions w @ [Audited e])) \<and>
     (\<forall>p. p \<noteq> journal_path (ls_journal ls) \<and> p \<noteq> socket_entry ls \<longrightarrow> entries w' p = entries w p)"
proof -
  from wpD [OF wp_listener_stop [OF assms(1-3)] assms(4)]
  obtain es y where idle: "listener_idle st'" and at: "listener_at ls es y w w'"
    and y: "y = entries w (socket_entry ls) \<or> y = None \<and> removable st (entries w (socket_entry ls))"
    and ok: "listener_ok r \<longrightarrow> y = None \<and> length es = 1" by auto
  have "entries w' (socket_entry ls) = y" using at by (rule listener_at_entry)
  moreover have "listener_ok r \<longrightarrow> (\<exists>e. actions w' = actions w @ [Audited e])"
    using ok at by (auto simp: listener_at_def length_Suc_conv)
  moreover have "\<forall>p. p \<noteq> journal_path (ls_journal ls) \<and> p \<noteq> socket_entry ls \<longrightarrow> entries w' p = entries w p"
    using at by (auto dest: listener_at_elsewhere)
  ultimately show ?thesis using idle y ok by (auto simp: removable_def)
qed

section \<open>Serving\<close>

text \<open>The listener logs to the journal of its session.\<close>

definition listener_wired :: "listener \<Rightarrow> bool" where
  "listener_wired ls \<longleftrightarrow> session_wired (ls_session ls) \<and> ls_journal ls = ps_journal (ls_session ls)"

text \<open>Nothing but at most one line in the journal.\<close>

definition idle_round :: "listener \<Rightarrow> world \<Rightarrow> world \<Rightarrow> bool" where
  "idle_round ls w0 w \<longleftrightarrow>
     (\<exists>es. session_effect (session_service (ls_session ls)) False es [] w0 w \<and> length es \<le> 1)"

lemma idle_round_start: "idle_round ls w w"
  unfolding idle_round_def by (rule exI [of _ "[]"]) (simp add: session_effect_start)

lemma wp_listener_log:
  assumes "listener_wired ls" "\<And>ok w'. idle_round ls w w' \<Longrightarrow> Q ok w'"
  shows "wp (listener_append ls build) Q w"
proof -
  have "listener_append ls build = session_append (ls_session ls) build"
    using assms(1) by (simp add: listener_append_def session_append_def listener_wired_def)
  moreover have "wp (session_append (ls_session ls) build) Q w"
  proof (rule wp_session_append [OF _ session_effect_start])
    show "session_wired (ls_session ls)" using assms(1) by (simp add: listener_wired_def)
  next
    fix ok t w'
    assume "session_effect (session_service (ls_session ls)) False ([] @ (if ok then [build t] else [])) [] w w'"
    then have "idle_round ls w w'" 
      unfolding idle_round_def by (intro exI [of _ "if ok then [build t] else []"]) simp
    then show "Q ok w'" by (rule assms(2))
  qed
  ultimately show ?thesis by simp
qed

text \<open>The session of an admitted connection.\<close>

definition admitted_session ::
  "listener \<Rightarrow> accept_event list \<Rightarrow> listener_state \<Rightarrow> controller_state \<Rightarrow> world \<Rightarrow>
     listener_result \<times> listener_state \<times> controller_state \<Rightarrow> world \<Rightarrow> bool" where
  "admitted_session ls events st ctl w x w' \<longleftrightarrow>
     (\<exists>conn received sent now session.
        ll_listening st \<and> \<not> ll_serving st \<and> accept_loop events = Accepted conn received sent now \<and>
        rd_admitted (fst (try_admit now (ll_limiter st))) \<and> lr_session (fst x) = Some session \<and>
        session_outcome (ls_session ls) conn ctl (w\<lparr>inbound := received, send_events := sent\<rparr>)
          (session, snd (snd x)) w')"

lemma wp_serve_one:
  assumes "listener_wired ls"
  shows "wp (serve_one ls accept_timeout session_timeout events st ctl) (\<lambda>x w'.
     fst (snd x) = st\<lparr>ll_limiter := ll_limiter (fst (snd x))\<rparr> \<and>
     (snd (snd x) = ctl \<and> lr_session (fst x) = None \<and> idle_round ls w w' \<or> admitted_session ls events st ctl w x w')) w"
    (is "wp _ ?Q w")
proof -
  have quiet: "?Q (listener_result_of status i m None, st\<lparr>ll_limiter := l\<rparr>, ctl) w'"
    if "idle_round ls w w'" for status i m l w'
    using that by simp
  have same: "?Q (listener_result_of status i m None, st, ctl) w'" if "idle_round ls w w'" for status i m w'
    using quiet [OF that, of status i m "ll_limiter st"] by simp
  have logged: "wp (do { listener_append ls build; return (listener_result_of status i m None, st, ctl) }) ?Q w"
    for build status i m
    by (subst wp_bind, rule wp_listener_log [OF assms]) (subst wp_return, rule same)
  note now = idle_round_start [of ls w]
  show ?thesis
  proof (cases "ll_serving st \<or> \<not> ll_listening st \<or> \<not> valid_accept_timeout accept_timeout \<or> \<not> valid_accept_timeout session_timeout")
    case True
    then show ?thesis
    proof (cases "ll_serving st")
      case True
      show ?thesis unfolding serve_one_def by (simp only: True if_True) (rule logged)
    next
      case False
      with True consider "\<not> ll_listening st" | "ll_listening st" "\<not> valid_accept_timeout accept_timeout \<or> \<not> valid_accept_timeout session_timeout"
        by auto
      then obtain status i m where
        "serve_one ls accept_timeout session_timeout events st ctl = return (listener_result_of status i m None, st, ctl)"
        by cases (use False in \<open>simp_all add: serve_one_def\<close>)
      then show ?thesis using same [OF now] by (simp only: wp_return)
    qed
  next
    case False
    show ?thesis
    proof (cases "accept_loop events")
      case (Accepted conn received sent t)
      obtain decision limiter where admit: "try_admit t (ll_limiter st) = (decision, limiter)" by fastforce
      have wired: "session_wired (ls_session ls)" using assms by (simp add: listener_wired_def)
      show ?thesis
      proof (cases "rd_admitted decision")
        case True
        let ?w = "w\<lparr>inbound := received, send_events := sent\<rparr>"
        have "wp (serve (ls_session ls) conn session_timeout ctl)
            (\<lambda>y. ?Q (listener_result_of Lsn_session_completed (sr_event_id (fst y))
              ''Local controller connection reached a terminal session result.'' (Some (fst y)),
              st\<lparr>ll_limiter := limiter\<rparr>, snd y)) ?w"
          by (rule wp_mono [OF wp_serve [OF wired]])
            (use False True Accepted admit in \<open>auto simp: admitted_session_def\<close>)
        then show ?thesis
          using False True Accepted admit
          by (simp add: serve_one_def attach_def case_prod_unfold wp_bind_eta)
      next
        case False
        then show ?thesis
          using \<open>\<not> (ll_serving st \<or> _)\<close> Accepted admit quiet [OF now]
          by (simp add: serve_one_def)
      qed
    next
      case Accept_broken
      then show ?thesis using False logged by (simp add: serve_one_def del: wp_bind)
    qed (use False same [OF now] in \<open>auto simp: serve_one_def\<close>)
  qed
qed

text \<open>
  C27. A connection reaches the controller only through every gate in turn: the listener is started
  and serves nobody else, the limiter admits the connection, the peer has the allowed credentials,
  the request is well formed and the controller is ready. In every other case the lifecycle state,
  archive, marker and pending record are as before, and nothing but logging happens.
\<close>

theorem admission_guards_dispatch:
  assumes "listener_wired ls"
    and "run_state (serve_one ls accept_timeout session_timeout events st ctl) w = ((r, st', ctl'), w')"
  shows "(ctl' = ctl \<and>
      firewall_view (session_service (ls_session ls)) w' = firewall_view (session_service (ls_session ls)) w \<and>
      (\<exists>es. actions w' = actions w @ map Audited es)) \<or>
     (\<exists>conn received sent now rq payload.
        ll_listening st \<and> \<not> ll_serving st \<and> accept_loop events = Accepted conn received sent now \<and>
        rd_admitted (fst (try_admit now (ll_limiter st))) \<and>
        policy_allows (ps_policy (ls_session ls)) (read_credentials conn) \<and>
        prefix (frame_bytes payload) (stream_bytes received) \<and> documented_request payload rq \<and>
        pq_activation rq \<noteq> None \<and> ctl = Ctl_ready)"
proof -
  let ?svc = "session_service (ls_session ls)"
  have view: "firewall_view ?svc (w\<lparr>inbound := received, send_events := sent\<rparr>) = firewall_view ?svc w"
    for received sent by (simp add: firewall_view_def revision_text_def [abs_def] marker_def stored_def)
  from wpD [OF wp_serve_one [OF assms(1)] assms(2)]
  consider "ctl' = ctl" "idle_round ls w w'" | "admitted_session ls events st ctl w (r, st', ctl') w'" by auto
  then show ?thesis
  proof cases
    case 1
    then show ?thesis unfolding idle_round_def session_effect_def by blast
  next
    case 2
    then obtain conn received sent now session where
      gates: "ll_listening st" "\<not> ll_serving st" "accept_loop events = Accepted conn received sent now"
        "rd_admitted (fst (try_admit now (ll_limiter st)))"
      and outcome: "session_outcome (ls_session ls) conn ctl (w\<lparr>inbound := received, send_events := sent\<rparr>)
          (session, ctl') w'"
      unfolding admitted_session_def by auto
    from outcome show ?thesis
      unfolding session_outcome_def
    proof
      assume "quiet_session (ls_session ls) ctl (w\<lparr>inbound := received, send_events := sent\<rparr>) (session, ctl') w'"
      then show ?thesis by (auto simp: quiet_session_def session_effect_def view)
    next
      assume "ctl = Ctl_ready \<and> dispatched_session (ls_session ls) conn
        (w\<lparr>inbound := received, send_events := sent\<rparr>) (session, ctl') w'"
      with gates show ?thesis by (auto simp: dispatched_session_def)
    qed
  qed
qed

section \<open>A concrete listener\<close>

definition sample_listener :: listener where
  "sample_listener = \<lparr>ls_session = sample_session, ls_journal = ''/j'',
     ls_config = \<lparr>lc_socket_path = ''/run/s'', lc_socket_mode = 432, lc_socket_group_id = Some 100,
       lc_listen_backlog = 8, lc_admission_rate_limit = \<lparr>rc_maximum_admissions = 2, rc_window = 1000\<rparr>\<rparr>,
     ls_sun_path_size = 104, ls_bound_mode = 448, ls_canonical = Some\<rparr>"

lemma sample_listener_apart: "journal_apart sample_listener" "listener_wired sample_listener"
  by code_simp (simp add: listener_wired_def sample_listener_def, simp add: sample_session_def)

lemma sample_listener_entry: "socket_entry sample_listener = (''/run'', ''s'')"
  by code_simp

definition bound_state :: listener_state where
  "bound_state = (new_listener sample_listener)\<lparr>ll_listening := True, ll_owns := True,
     ll_directory := Some ''/run'', ll_filename := ''s'', ll_inode := 9\<rparr>"

text \<open>A foreign socket at the path survives both a start and a stop.\<close>

definition occupied_world :: world where
  "occupied_world = put_entry (''/run'', ''s'') (Some (private_directory\<lparr>kind := Unix_socket, inode := 3\<rparr>)) idle_world"

lemma occupied_entry: "entries occupied_world (''/run'', ''s'') = Some (private_directory\<lparr>kind := Unix_socket, inode := 3\<rparr>)"
  by (simp add: occupied_world_def)

lemma listener_start_never_replaces_witness:
  "case run_state (listener_start sample_listener (new_listener sample_listener)) occupied_world of
     ((r, st'), w') \<Rightarrow> lr_status r \<noteq> Lsn_listening \<and>
       entries w' (''/run'', ''s'') = entries occupied_world (''/run'', ''s'')"
proof -
  obtain r st' w' where run: "run_state (listener_start sample_listener (new_listener sample_listener))
      occupied_world = ((r, st'), w')" by (metis surj_pair)
  have "listener_idle (new_listener sample_listener)" "\<not> ll_serving (new_listener sample_listener)"
    by (simp_all add: listener_idle_def new_listener_def)
  from listener_start_never_replaces [OF sample_listener_apart(1) this run] show ?thesis
    by (auto simp: run sample_listener_entry occupied_entry split: if_splits)
qed

lemma listener_stop_removes_own_witness:
  "case run_state (listener_stop sample_listener bound_state) occupied_world of
     ((r, st'), w') \<Rightarrow> listener_idle st' \<and> \<not> listener_ok r \<and>
       entries w' (''/run'', ''s'') = entries occupied_world (''/run'', ''s'')"
proof -
  obtain r st' w' where run: "run_state (listener_stop sample_listener bound_state) occupied_world = ((r, st'), w')"
    by (metis surj_pair)
  have "listener_bound sample_listener bound_state" "\<not> ll_serving bound_state"
    by (simp_all add: listener_bound_def bound_state_def new_listener_def sample_listener_entry)
  moreover have "ll_inode bound_state = 9" by (simp add: bound_state_def)
  ultimately show ?thesis
    using listener_stop_removes_own [OF sample_listener_apart(1) _ _ run]
    by (auto simp: run sample_listener_entry occupied_entry)
qed

lemma admission_guards_dispatch_witness:
  "case run_state (serve_one sample_listener 1000 1000 [Accept_retry] bound_state Ctl_ready) sample_world of
     ((r, st', ctl'), w') \<Rightarrow> ctl' = Ctl_ready \<and> (\<exists>es. actions w' = actions sample_world @ map Audited es)"
proof -
  obtain r st' ctl' w' where run: "run_state (serve_one sample_listener 1000 1000 [Accept_retry] bound_state Ctl_ready)
      sample_world = ((r, st', ctl'), w')" by (metis surj_pair)
  from admission_guards_dispatch [OF sample_listener_apart(2) run] show ?thesis by (auto simp: run)
qed

text \<open>Without faults the sample listener does start, and stops again.\<close>

lemma sample_listener_starts:
  "lr_status (fst (fst (run_state (listener_start sample_listener (new_listener sample_listener)) idle_world))) = Lsn_listening"
  by code_simp

end
