(* ===== verification/Waiting.thy ===== *)
theory Waiting
  imports Deadlines Local_Listener "HOL-Library.Monad_Syntax"
begin

text \<open>
  The socket loops with their clock (\<open>wait_for\<close>, \<open>read_exact\<close>, \<open>write_exact\<close>
  of \<open>local_protocol.cpp\<close>, the accept loop and the rate limit delay of \<open>local_listener.cpp\<close>).
  \<open>Protocol_Codec\<close> and \<open>Local_Listener\<close> describe these loops by the events they meet; here they
  run on the answers of the clock, \<open>poll\<close>, \<open>recv\<close>, \<open>send\<close> and \<open>accept\<close>, return what the
  event loops return on exactly the events they met, and end when the clock passes the deadline.
  \<open>None\<close> is a loop that does not end.
\<close>

section \<open>Waiting for a socket\<close>

text \<open>What \<open>poll\<close> on one descriptor returns with; \<open>POLLNVAL\<close> is \<open>Wait_invalid\<close>.\<close>

datatype wait_reply = Wait_elapsed | Wait_failed errno | Wait_invalid | Wait_ready

definition wait_for_round :: "(nat \<Rightarrow> nat) \<Rightarrow> (nat \<Rightarrow> int \<Rightarrow> wait_reply) \<Rightarrow> nat \<Rightarrow> nat \<Rightarrow> io_status option" where
  "wait_for_round time poll deadline n =
     (let timeout = remaining_timeout deadline (time n)
      in if timeout = 0 then Some Io_timed_out
         else (case poll n timeout of
             Wait_elapsed \<Rightarrow> Some Io_timed_out
           | Wait_failed e \<Rightarrow> (if e = EINTR then None else Some Io_failed)
           | Wait_invalid \<Rightarrow> Some Io_failed
           | Wait_ready \<Rightarrow> Some Io_completed))"

definition wait_for :: "(nat \<Rightarrow> nat) \<Rightarrow> (nat \<Rightarrow> int \<Rightarrow> wait_reply) \<Rightarrow> nat \<Rightarrow> io_status option" where
  "wait_for time poll deadline = first_decision (wait_for_round time poll deadline)"

lemma wait_for_round_cases:
  "wait_for_round time poll deadline n = Some st \<Longrightarrow> st \<in> {Io_timed_out, Io_failed, Io_completed}"
  by (cases "poll n (remaining_timeout deadline (time n))") (auto simp: wait_for_round_def Let_def split: if_splits)

lemma wait_for_cases:
  "wait_for time poll deadline = Some st \<Longrightarrow> st \<in> {Io_timed_out, Io_failed, Io_completed}"
  by (auto simp only: wait_for_def first_decision_Some_iff dest: wait_for_round_cases)

text \<open>A wait returns on every clock that reaches the deadline.\<close>

lemma wait_for_returns:
  assumes "deadline \<le> time n"
  shows "\<exists>st. wait_for time poll deadline = Some st"
proof -
  have "wait_for_round time poll deadline n = Some Io_timed_out"
    using assms by (simp add: wait_for_round_def remaining_timeout_def)
  then show ?thesis
    unfolding wait_for_def using first_decision_None_iff [of "wait_for_round time poll deadline"] by fastforce
qed

text \<open>
  And it does not give up early: when a \<open>poll\<close> that elapses has used up the milliseconds it was given,
  a wait that times out ends at or after the deadline, and its socket was ready in no round before.
\<close>

definition elapsed_at :: "(nat \<Rightarrow> nat) \<Rightarrow> nat \<Rightarrow> nat \<Rightarrow> int" where
  "elapsed_at time deadline n = int (time n) + remaining_timeout deadline (time n) * 1000000"

lemma wait_for_not_early:
  "wait_for time poll deadline = Some Io_timed_out \<longleftrightarrow>
   (\<exists>n. int deadline \<le> elapsed_at time deadline n \<and>
      (deadline \<le> time n \<or> poll n (remaining_timeout deadline (time n)) = Wait_elapsed) \<and>
      (\<forall>k < n. time k < deadline \<and> poll k (remaining_timeout deadline (time k)) = Wait_failed EINTR))"
proof -
  have "wait_for_round time poll deadline k = None \<longleftrightarrow>
      time k < deadline \<and> poll k (remaining_timeout deadline (time k)) = Wait_failed EINTR" for k
    by (auto simp: wait_for_round_def Let_def remaining_timeout_zero split: wait_reply.splits)
  moreover have "wait_for_round time poll deadline n = Some Io_timed_out \<longleftrightarrow>
      deadline \<le> time n \<or> poll n (remaining_timeout deadline (time n)) = Wait_elapsed" for n
    by (auto simp: wait_for_round_def Let_def remaining_timeout_zero split: wait_reply.splits)
  moreover have "int deadline \<le> elapsed_at time deadline n" for n
    using remaining_covers [of "time n" deadline] by (auto simp: elapsed_at_def remaining_timeout_def)
  ultimately show ?thesis unfolding wait_for_def first_decision_Some_iff by auto
qed

section \<open>Reading and writing in time\<close>

datatype receive_reply = Data string | Receive_error errno

datatype send_reply = Sent nat | Send_error errno

text \<open>
  A socket whose clock runs: \<open>tk_clock s n k\<close> is the time in nanoseconds when round \<open>k\<close> of the
  \<open>n\<close>-th wait starts, \<open>tk_poll\<close> the answer of its \<open>poll\<close>, \<open>tk_receive s n c\<close> what
  \<open>recv\<close> for \<open>c\<close> bytes returns after it and \<open>tk_send s n d\<close> what \<open>send\<close> of
  \<open>d\<close> does. End of stream is \<open>Data []\<close>.
\<close>

record timed_socket =
  tk_clock :: "nat \<Rightarrow> nat \<Rightarrow> nat"
  tk_poll :: "nat \<Rightarrow> nat \<Rightarrow> int \<Rightarrow> wait_reply"
  tk_receive :: "nat \<Rightarrow> nat \<Rightarrow> receive_reply"
  tk_send :: "nat \<Rightarrow> string \<Rightarrow> send_reply"

definition retried :: "errno \<Rightarrow> bool" where
  "retried e \<longleftrightarrow> e = EINTR \<or> e = EAGAIN"

definition wait_on :: "timed_socket \<Rightarrow> nat \<Rightarrow> nat \<Rightarrow> io_status option" where
  "wait_on s deadline n = wait_for (tk_clock s n) (tk_poll s n) deadline"

text \<open>The events that the loop met are returned with the result; they are not part of the code.\<close>

definition unready :: "io_status \<Rightarrow> socket_event" where
  "unready status = (if status = Io_timed_out then Timed_out else Broken)"

partial_function (option) read_in_time ::
  "timed_socket \<Rightarrow> nat \<Rightarrow> nat \<Rightarrow> nat \<Rightarrow> (io_status \<times> string \<times> socket_event list) option" where
  "read_in_time s deadline n count =
     (if count = 0 then Some (Io_completed, [], [])
      else do {
        waited \<leftarrow> wait_on s deadline n;
        if waited \<noteq> Io_completed then Some (waited, [], [unready waited])
        else (case tk_receive s n count of
            Data d \<Rightarrow>
              (if d = [] then Some (Io_closed, [], [Received []])
               else do {
                 (status, out, events) \<leftarrow> read_in_time s deadline (Suc n) (count - length d);
                 Some (status, d @ out, Received d # events)
               })
          | Receive_error e \<Rightarrow>
              (if retried e then do {
                 (status, out, events) \<leftarrow> read_in_time s deadline (Suc n) count;
                 Some (status, out, Would_block # events)
               }
               else Some (Io_failed, [], [Broken])))
      })"

definition read_frame_in_time ::
  "timed_socket \<Rightarrow> nat \<Rightarrow> int \<Rightarrow> (io_status \<times> string \<times> socket_event list) option" where
  "read_frame_in_time s start timeout =
     (let deadline = start + nat timeout * 1000000
      in do {
        (status, header, events) \<leftarrow> read_in_time s deadline 0 4;
        if status \<noteq> Io_completed then Some (status, [], events)
        else (let count = unat (decode_size header)
              in if count = 0 \<or> count > maximum_payload_size then Some (Io_invalid_size, [], events)
                 else do {
                   (status, payload, more) \<leftarrow> read_in_time s deadline (length events) count;
                   Some (status, (if status = Io_completed then payload else []), events @ more)
                 })
      })"

text \<open>\<open>outcome\<close> of a wait that does not end with a writable socket.\<close>

definition unwritable :: "io_status \<Rightarrow> outcome" where
  "unwritable status = (if status = Io_timed_out then Fault ETIMEDOUT else Fault EIO)"

partial_function (option) write_in_time ::
  "timed_socket \<Rightarrow> nat \<Rightarrow> nat \<Rightarrow> string \<Rightarrow> (io_status \<times> string \<times> outcome list) option" where
  "write_in_time s deadline n source =
     (if source = [] then Some (Io_completed, [], [])
      else do {
        waited \<leftarrow> wait_on s deadline n;
        if waited \<noteq> Io_completed then Some (waited, [], [unwritable waited])
        else (case tk_send s n source of
            Sent k \<Rightarrow>
              (if k = 0 then Some (Io_failed, [], [Short 0])
               else do {
                 (status, out, events) \<leftarrow> write_in_time s deadline (Suc n) (drop k source);
                 Some (status, take k source @ out, Short k # events)
               })
          | Send_error e \<Rightarrow>
              (if retried e then do {
                 (status, out, events) \<leftarrow> write_in_time s deadline (Suc n) source;
                 Some (status, out, Fault EAGAIN # events)
               }
               else Some (Io_failed, [], [Fault EIO])))
      })"

definition write_frame_in_time ::
  "timed_socket \<Rightarrow> string \<Rightarrow> nat \<Rightarrow> int \<Rightarrow> (io_status \<times> string \<times> outcome list) option" where
  "write_frame_in_time s payload start timeout =
     (if payload = [] \<or> length payload > maximum_payload_size then Some (Io_invalid_size, [], [])
      else (let deadline = start + nat timeout * 1000000
            in do {
              (status, header, events) \<leftarrow> write_in_time s deadline 0 (encode_size (word_of_nat (length payload)));
              if status \<noteq> Io_completed then Some (status, header, events)
              else do {
                (status, out, more) \<leftarrow> write_in_time s deadline (length events) payload;
                Some (status, header @ out, events @ more)
              }
            }))"

section \<open>They refine the event loops\<close>

text \<open>\<open>recv\<close> and \<open>send\<close> never transfer more than they were asked to.\<close>

definition transfers_bounded :: "timed_socket \<Rightarrow> bool" where
  "transfers_bounded s \<longleftrightarrow>
     (\<forall>n count d. tk_receive s n count = Data d \<longrightarrow> length d \<le> count)"

lemma read_in_time_refines:
  assumes "transfers_bounded s" "read_in_time s deadline n count = Some (status, out, events)"
  shows "read_exact count (events @ rest) = (status, out, rest)"
proof -
  let ?P = "\<lambda>s deadline n count (status, out, events). transfers_bounded s \<longrightarrow>
    read_exact count (events @ rest) = (status, out, rest)"
  have "?P s deadline n count (status, out, events)"
  proof (rule read_in_time.raw_induct [where P = ?P, OF _ assms(2)], goal_cases)
    case (1 f s deadline n count y)
    note IH = 1(1) and run = 1(2)
    show ?case
    proof (cases "count = 0")
      case True
      with run show ?thesis by (cases rest) auto
    next
      case False
      with run obtain waited where waited: "wait_on s deadline n = Some waited" by (cases "wait_on s deadline n") auto
      show ?thesis
      proof (cases "waited = Io_completed")
        case False
        with run waited \<open>count \<noteq> 0\<close> wait_for_cases [of "tk_clock s n" "tk_poll s n" deadline waited]
        show ?thesis by (auto simp: wait_on_def unready_def)
      next
        case True
        show ?thesis
        proof (cases "tk_receive s n count")
          case (Data d)
          with run waited True \<open>count \<noteq> 0\<close> IH [of s deadline "Suc n" "count - length d"] show ?thesis
            by (auto simp: transfers_bounded_def bind_eq_Some_conv split: if_splits)
        next
          case (Receive_error e)
          with run waited True \<open>count \<noteq> 0\<close> IH [of s deadline "Suc n" count] show ?thesis
            by (auto simp: bind_eq_Some_conv split: if_splits)
        qed
      qed
    qed
  qed
  with assms(1) show ?thesis by simp
qed

lemma write_in_time_refines:
  assumes "write_in_time s deadline n source = Some (status, out, events)"
  shows "write_exact (events @ rest) source = (status, out, rest)"
proof -
  let ?P = "\<lambda>s deadline n source (status, out, events). write_exact (events @ rest) source = (status, out, rest)"
  have "?P s deadline n source (status, out, events)"
  proof (rule write_in_time.raw_induct [where P = ?P, OF _ assms], goal_cases)
    case (1 f s deadline n source y)
    note IH = 1(1) and run = 1(2)
    show ?case
    proof (cases source)
      case Nil
      with run show ?thesis by auto
    next
      case (Cons c cs)
      with run obtain waited where waited: "wait_on s deadline n = Some waited" by (cases "wait_on s deadline n") auto
      show ?thesis
      proof (cases "waited = Io_completed")
        case False
        with run waited Cons wait_for_cases [of "tk_clock s n" "tk_poll s n" deadline waited]
        show ?thesis by (auto simp: wait_on_def unwritable_def)
      next
        case True
        show ?thesis
        proof (cases "tk_send s n source")
          case (Sent k)
          with run waited True Cons IH [of s deadline "Suc n" "drop k source"] show ?thesis
            by (auto simp: bind_eq_Some_conv split: if_splits)
        next
          case (Send_error e)
          with run waited True Cons IH [of s deadline "Suc n" source] show ?thesis
            by (auto simp: bind_eq_Some_conv split: if_splits)
        qed
      qed
    qed
  qed
  then show ?thesis by simp
qed

lemma read_frame_in_time_refines:
  assumes "transfers_bounded s" "read_frame_in_time s start timeout = Some (status, payload, events)"
  shows "receive_frame (events @ rest) = (status, payload, rest)"
proof -
  let ?deadline = "start + nat timeout * 1000000"
  from assms(2) obtain st header seen where
    first: "read_in_time s ?deadline 0 4 = Some (st, header, seen)"
    by (auto simp: read_frame_in_time_def Let_def bind_eq_Some_conv)
  note header = read_in_time_refines [OF assms(1) first]
  let ?count = "unat (decode_size header)"
  show ?thesis
  proof (cases "st = Io_completed \<and> ?count \<noteq> 0 \<and> ?count \<le> maximum_payload_size")
    case False
    with assms(2) first header [of rest] show ?thesis
      by (auto simp: read_frame_in_time_def receive_frame_def Let_def split: if_splits)
  next
    case True
    with assms(2) first obtain out more where
      second: "read_in_time s ?deadline (length seen) ?count = Some (status, out, more)"
      and rest: "events = seen @ more" "payload = (if status = Io_completed then out else [])"
      by (auto simp: read_frame_in_time_def Let_def bind_eq_Some_conv split: if_splits)
    from True header [of "more @ rest"] read_in_time_refines [OF assms(1) second, of rest] rest show ?thesis
      by (simp add: receive_frame_def Let_def)
  qed
qed

lemma write_frame_in_time_refines:
  assumes "write_frame_in_time s payload start timeout = Some (status, out, events)"
  shows "send_frame (events @ rest) payload = (status, out, rest)"
proof (cases "payload = [] \<or> length payload > maximum_payload_size")
  case True
  with assms show ?thesis by (auto simp: write_frame_in_time_def send_frame_def)
next
  case False
  let ?deadline = "start + nat timeout * 1000000" and ?size = "encode_size (word_of_nat (length payload))"
  from False assms obtain st header seen where
    first: "write_in_time s ?deadline 0 ?size = Some (st, header, seen)"
    by (auto simp: write_frame_in_time_def Let_def bind_eq_Some_conv)
  note header = write_in_time_refines [OF first]
  show ?thesis
  proof (cases "st = Io_completed")
    case stopped: False
    with False assms first header [of rest] show ?thesis
      by (auto simp: write_frame_in_time_def send_frame_def Let_def)
  next
    case True
    with False assms first obtain sent more where
      second: "write_in_time s ?deadline (length seen) payload = Some (status, sent, more)"
      and rest: "events = seen @ more" "out = header @ sent"
      by (auto simp: write_frame_in_time_def Let_def bind_eq_Some_conv)
    from True False header [of "more @ rest"] write_in_time_refines [OF second, of rest] rest show ?thesis
      by (auto simp: send_frame_def)
  qed
qed

section \<open>They end\<close>

text \<open>The clock passes the deadline: every wait sees it in the end, and every wait from \<open>N\<close> on sees it at once.\<close>

definition clock_passes :: "timed_socket \<Rightarrow> nat \<Rightarrow> nat \<Rightarrow> bool" where
  "clock_passes s deadline N \<longleftrightarrow>
     (\<forall>n. \<exists>k. deadline \<le> tk_clock s n k) \<and> (\<forall>n \<ge> N. deadline \<le> tk_clock s n 0)"

lemma wait_on_passes:
  assumes "clock_passes s deadline N"
  shows "\<exists>st. wait_on s deadline n = Some st" "N \<le> n \<Longrightarrow> wait_on s deadline n = Some Io_timed_out"
proof -
  from assms obtain k where "deadline \<le> tk_clock s n k" by (auto simp: clock_passes_def)
  then show "\<exists>st. wait_on s deadline n = Some st" unfolding wait_on_def by (rule wait_for_returns)
  assume "N \<le> n"
  with assms have "deadline \<le> tk_clock s n 0" by (simp add: clock_passes_def)
  then show "wait_on s deadline n = Some Io_timed_out"
    using first_decision_rounds [of 0 "wait_for_round (tk_clock s n) (tk_poll s n) deadline"]
    by (simp add: wait_on_def wait_for_def wait_for_round_def remaining_timeout_def)
qed

lemma read_in_time_returns:
  assumes "clock_passes s deadline N"
  shows "read_in_time s deadline n count \<noteq> None"
proof (induction "N - n" arbitrary: n count)
  case 0
  with wait_on_passes(2) [OF assms, of n] show ?case by (subst read_in_time.simps) simp
next
  case (Suc m)
  from Suc.hyps have "m = N - Suc n" by simp
  note IH = Suc.hyps(1) [OF this]
  obtain st where "wait_on s deadline n = Some st" using wait_on_passes(1) [OF assms] by blast
  then show ?case
    by (cases "tk_receive s n count"; subst read_in_time.simps)
      (simp_all add: Option.bind_eq_None_conv IH del: not_None_eq split: prod.split)
qed

lemma write_in_time_returns:
  assumes "clock_passes s deadline N"
  shows "write_in_time s deadline n source \<noteq> None"
proof (induction "N - n" arbitrary: n source)
  case 0
  with wait_on_passes(2) [OF assms, of n] show ?case by (subst write_in_time.simps) simp
next
  case (Suc m)
  from Suc.hyps have "m = N - Suc n" by simp
  note IH = Suc.hyps(1) [OF this]
  obtain st where "wait_on s deadline n = Some st" using wait_on_passes(1) [OF assms] by blast
  then show ?case
    by (cases "tk_send s n source"; subst write_in_time.simps)
      (simp_all add: Option.bind_eq_None_conv IH del: not_None_eq split: prod.split)
qed

lemma frames_return:
  assumes "clock_passes s (start + nat timeout * 1000000) N"
  shows "read_frame_in_time s start timeout \<noteq> None" "write_frame_in_time s payload start timeout \<noteq> None"
  using read_in_time_returns [OF assms] write_in_time_returns [OF assms]
  by (simp_all add: read_frame_in_time_def write_frame_in_time_def Let_def Option.bind_eq_None_conv del: not_None_eq split: prod.split)

section \<open>Accepting in time\<close>

text \<open>
  The accept loop's surroundings: the clock at the start and at each round, \<open>poll\<close>, and what
  \<open>accept\<close> returns, with what the peer will do and the time of the admission.
\<close>

datatype accept_reply =
  New_connection connection "socket_event list" "outcome list" int
| Accept_error errno

record timed_listener =
  tl_start :: nat
  tl_clock :: "nat \<Rightarrow> nat"
  tl_poll :: "nat \<Rightarrow> int \<Rightarrow> wait_reply"
  tl_accept :: "nat \<Rightarrow> accept_reply"

definition accept_round :: "timed_listener \<Rightarrow> nat \<Rightarrow> nat \<Rightarrow> accept_event option" where
  "accept_round al deadline n =
     (let timeout = remaining_timeout deadline (tl_clock al n)
      in if timeout = 0 then Some Accept_deadline
         else (case tl_poll al n timeout of
             Wait_elapsed \<Rightarrow> Some Accept_deadline
           | Wait_failed e \<Rightarrow> (if e = EINTR then None else Some Accept_broken)
           | Wait_invalid \<Rightarrow> Some Accept_broken
           | Wait_ready \<Rightarrow>
               (case tl_accept al n of
                  New_connection conn received sent now \<Rightarrow> Some (Accepted conn received sent now)
                | Accept_error e \<Rightarrow>
                    (if e = EINTR \<or> e = EAGAIN \<or> e = ECONNABORTED then None else Some Accept_broken))))"

definition accept_in_time :: "timed_listener \<Rightarrow> nat \<Rightarrow> accept_event option" where
  "accept_in_time al deadline = first_decision (accept_round al deadline)"

definition serve_one_in_time ::
  "listener \<Rightarrow> timed_listener \<Rightarrow> int \<Rightarrow> int \<Rightarrow> listener_state \<Rightarrow> controller_state \<Rightarrow> world \<Rightarrow>
     ((listener_result \<times> listener_state \<times> controller_state) \<times> world) option" where
  "serve_one_in_time ls al accept_timeout session_timeout st ctl w =
     (if ll_serving st \<or> \<not> ll_listening st \<or>
        \<not> valid_accept_timeout accept_timeout \<or> \<not> valid_accept_timeout session_timeout
      then Some (run_state (serve_one ls accept_timeout session_timeout [] st ctl) w)
      else map_option (\<lambda>event. run_state (serve_one ls accept_timeout session_timeout [event] st ctl) w)
        (accept_in_time al (tl_start al + nat accept_timeout * 1000000)))"

text \<open>The pause after a refused connection: the argument of \<open>poll\<close>, if it is called.\<close>

definition bounded_rate_limit_delay :: "int \<Rightarrow> int \<Rightarrow> int option" where
  "bounded_rate_limit_delay retry_after accept_timeout =
     (let delay = min retry_after accept_timeout in if delay \<le> 0 then None else Some delay)"

text \<open>The event of a round, as \<open>Local_Listener\<close> sees it.\<close>

definition round_event :: "timed_listener \<Rightarrow> nat \<Rightarrow> nat \<Rightarrow> accept_event" where
  "round_event al deadline n = (case accept_round al deadline n of None \<Rightarrow> Accept_retry | Some e \<Rightarrow> e)"

lemma accept_round_event: "accept_round al deadline n = Some e \<Longrightarrow> e \<noteq> Accept_retry"
  by (cases "tl_poll al n (remaining_timeout deadline (tl_clock al n))"; cases "tl_accept al n")
    (auto simp: accept_round_def Let_def split: if_splits)

lemma accept_loop_retries: "accept_loop (replicate n Accept_retry @ events) = accept_loop events"
  by (induction n) simp_all

lemma accept_loop_single: "e \<noteq> Accept_retry \<Longrightarrow> accept_loop (e # events) = e"
  by (cases e) simp_all

lemma accept_in_time_Some:
  assumes "accept_in_time al deadline = Some e"
  obtains n where "map (round_event al deadline) [0..<n] = replicate n Accept_retry"
    "accept_loop (map (round_event al deadline) [0..<Suc n]) = e" "accept_loop [e] = e"
proof -
  from assms obtain n where before: "\<forall>k < n. accept_round al deadline k = None" and now: "accept_round al deadline n = Some e"
    by (auto simp: accept_in_time_def first_decision_Some_iff)
  have retries: "map (round_event al deadline) [0..<n] = replicate n Accept_retry"
    using before by (intro replicate_eqI) (auto simp: round_event_def)
  with now accept_round_event [OF now] that [OF retries] show thesis
    by (simp add: round_event_def accept_loop_retries accept_loop_single)
qed

lemma serve_one_events:
  "accept_loop events = accept_loop events' \<Longrightarrow>
     serve_one ls accept_timeout session_timeout events st ctl =
     serve_one ls accept_timeout session_timeout events' st ctl"
  by (simp add: serve_one_def)

lemma serve_one_guarded:
  "ll_serving st \<or> \<not> ll_listening st \<or> \<not> valid_accept_timeout accept_timeout \<or> \<not> valid_accept_timeout session_timeout \<Longrightarrow>
     serve_one ls accept_timeout session_timeout events st ctl =
     serve_one ls accept_timeout session_timeout events' st ctl"
  by (auto simp: serve_one_def)


text \<open>
  The pause after a refusal is there and it is bounded: at least a millisecond, at most the accept
  timeout, and so within the \<open>int\<close> that \<open>poll\<close> takes.
\<close>

lemma refusal_hint_positive:
  assumes "rate_config_valid (rl_config l)" "\<not> rd_admitted (fst (try_admit now l))"
  shows "0 < rd_retry_after (fst (try_admit now l))"
proof (cases "rl_has_observation l \<and> now < rl_last_observation l")
  case True
  with assms(1) show ?thesis by (simp add: try_admit_def rate_config_valid_def minimum_window_def)
next
  case False
  define active where "active = dropWhile (\<lambda>admitted. \<not> now - admitted < window_of l) (rl_admissions l)"
  let ?r = "window_of l - (now - hd active)"
  from False assms have full: "length active \<ge> rc_maximum_admissions (rl_config l)"
    and hint: "rd_retry_after (fst (try_admit now l)) =
      (if to_milliseconds ?r * millisecond < ?r then to_milliseconds ?r + 1 else to_milliseconds ?r)"
    by (auto simp: try_admit_def Let_def active_def window_of_def split: if_splits)
  from full assms(1) have "active \<noteq> []" by (auto simp: rate_config_valid_def)
  then have "0 < ?r"
    using hd_dropWhile [of "\<lambda>admitted. \<not> now - admitted < window_of l" "rl_admissions l"] by (simp add: active_def)
  from to_milliseconds_up(1) [OF this] show ?thesis by (simp only: hint)
qed

theorem refusal_pause_bounded:
  assumes "rate_config_valid (rl_config l)" "\<not> rd_admitted (fst (try_admit now l))"
    and "valid_accept_timeout accept_timeout"
  shows "\<exists>delay. bounded_rate_limit_delay (rd_retry_after (fst (try_admit now l))) accept_timeout = Some delay \<and>
     1 \<le> delay \<and> delay \<le> accept_timeout \<and> delay < 2 ^ 31"
  using refusal_hint_positive [OF assms(1,2)] assms(3)
  by (auto simp: bounded_rate_limit_delay_def Let_def valid_accept_timeout_def maximum_accept_timeout_def min_def)

end
