(* ===== verification/Lock_Handle.thy ===== *)
theory Lock_Handle
  imports Main
begin

text \<open>
  Who owns the process lock (\<open>DaemonProcessLock\<close> in \<open>daemon/process_lock.cpp\<close>): the object is
  a move-only owner of a descriptor, and \<open>flock\<close> grants the lock to one open descriptor of the
  machine at a time. \<open>Daemon_Startup\<close> describes how \<open>acquire\<close> treats the lock file; here are the
  life cycle of the objects it returns, of all processes, and the exclusion that follows. That
  \<open>flock\<close> is exclusive and that closing a descriptor gives its lock up is what the system documents.
\<close>

section \<open>Objects and descriptors\<close>

text \<open>
  The live objects with their \<open>descriptor_\<close> (\<open>-1\<close> for none), the open descriptors of lock files, and
  the descriptor that holds the lock. Objects and descriptors of different processes are different.
\<close>

type_synonym lock_object = nat

record lock_table =
  lt_objects :: "lock_object \<Rightarrow> int option"
  lt_open :: "int set"
  lt_holder :: "int option"

definition no_locks :: lock_table where
  "no_locks = \<lparr>lt_objects = Map.empty, lt_open = {}, lt_holder = None\<rparr>"

definition system_close :: "int \<Rightarrow> lock_table \<Rightarrow> lock_table" where
  "system_close d s =
     s\<lparr>lt_open := lt_open s - {d}, lt_holder := (if lt_holder s = Some d then None else lt_holder s)\<rparr>"

text \<open>\<open>close_descriptor\<close> on the member of an object.\<close>

definition close_member :: "lock_object \<Rightarrow> lock_table \<Rightarrow> lock_table" where
  "close_member x s =
     (case lt_objects s x of
        Some d \<Rightarrow>
          (if d \<ge> 0 then (system_close d s)\<lparr>lt_objects := (lt_objects s)(x \<mapsto> - 1)\<rparr> else s)
      | None \<Rightarrow> s)"

definition owns_lock :: "lock_table \<Rightarrow> lock_object \<Rightarrow> bool" where
  "owns_lock s x \<longleftrightarrow> (case lt_objects s x of None \<Rightarrow> False | Some d \<Rightarrow> d \<ge> 0)"

section \<open>The operations\<close>

definition lock_construct :: "lock_object \<Rightarrow> int \<Rightarrow> lock_table \<Rightarrow> lock_table" where
  "lock_construct x d s = s\<lparr>lt_objects := (lt_objects s)(x \<mapsto> d)\<rparr>"

definition lock_destroy :: "lock_object \<Rightarrow> lock_table \<Rightarrow> lock_table" where
  "lock_destroy x s = (let s = close_member x s in s\<lparr>lt_objects := (lt_objects s)(x := None)\<rparr>)"

text \<open>\<open>std::exchange(other.descriptor_, -1)\<close>\<close>

definition take_descriptor :: "lock_object \<Rightarrow> lock_table \<Rightarrow> int \<times> lock_table" where
  "take_descriptor y s =
     ((case lt_objects s y of None \<Rightarrow> - 1 | Some d \<Rightarrow> d), s\<lparr>lt_objects := (lt_objects s)(y \<mapsto> - 1)\<rparr>)"

definition lock_move :: "lock_object \<Rightarrow> lock_object \<Rightarrow> lock_table \<Rightarrow> lock_table" where
  "lock_move x y s = (case take_descriptor y s of (d, s) \<Rightarrow> lock_construct x d s)"

definition lock_assign :: "lock_object \<Rightarrow> lock_object \<Rightarrow> lock_table \<Rightarrow> lock_table" where
  "lock_assign x y s =
     (if x \<noteq> y
      then (case take_descriptor y (close_member x s) of
          (d, s) \<Rightarrow> s\<lparr>lt_objects := (lt_objects s)(x \<mapsto> d)\<rparr>)
      else s)"

text \<open>
  The end of \<open>acquire\<close>: the lock file is open on a new descriptor and safe; \<open>flock\<close> succeeds
  unless another descriptor holds the lock, and then the object is made. Otherwise the descriptor is
  closed again.
\<close>

definition try_flock :: "int \<Rightarrow> lock_table \<Rightarrow> bool \<times> lock_table" where
  "try_flock d s = (if lt_holder s = None then (True, s\<lparr>lt_holder := Some d\<rparr>) else (False, s))"

definition lock_acquire :: "lock_object \<Rightarrow> int \<Rightarrow> lock_table \<Rightarrow> bool \<times> lock_table" where
  "lock_acquire x d s =
     (case try_flock d (s\<lparr>lt_open := insert d (lt_open s)\<rparr>) of
        (locked, s) \<Rightarrow> if locked then (True, lock_construct x d s) else (False, system_close d s))"

section \<open>All processes\<close>

text \<open>Objects are made with new names, and used while they live; descriptors are not reused while open.\<close>

inductive lock_step :: "lock_table \<Rightarrow> lock_table \<Rightarrow> bool" where
  acquire: "lt_objects s x = None \<Longrightarrow> d \<ge> 0 \<Longrightarrow> d \<notin> lt_open s \<Longrightarrow> lock_step s (snd (lock_acquire x d s))"
| move: "lt_objects s x = None \<Longrightarrow> lt_objects s y \<noteq> None \<Longrightarrow> lock_step s (lock_move x y s)"
| assign: "lt_objects s x \<noteq> None \<Longrightarrow> lt_objects s y \<noteq> None \<Longrightarrow> lock_step s (lock_assign x y s)"
| destroy: "lt_objects s x \<noteq> None \<Longrightarrow> lock_step s (lock_destroy x s)"

inductive lock_reachable :: "lock_table \<Rightarrow> bool" where
  start: "lock_reachable no_locks"
| step: "lock_reachable s \<Longrightarrow> lock_step s s' \<Longrightarrow> lock_reachable s'"

section \<open>One owner\<close>

text \<open>Either nothing is open or held, or one descriptor is, and one object has it.\<close>

definition sole_owner :: "lock_table \<Rightarrow> lock_object \<Rightarrow> int \<Rightarrow> bool" where
  "sole_owner s x d \<longleftrightarrow>
     d \<ge> 0 \<and> lt_objects s x = Some d \<and> lt_holder s = Some d \<and> lt_open s = {d} \<and>
     (\<forall>y. y \<noteq> x \<longrightarrow> \<not> owns_lock s y)"

definition unowned :: "lock_table \<Rightarrow> bool" where
  "unowned s \<longleftrightarrow> lt_holder s = None \<and> lt_open s = {} \<and> (\<forall>x. \<not> owns_lock s x)"

definition lock_sound :: "lock_table \<Rightarrow> bool" where
  "lock_sound s \<longleftrightarrow> unowned s \<or> (\<exists>x d. sole_owner s x d)"

lemma owns_update [simp]:
  "owns_lock (s\<lparr>lt_objects := (lt_objects s')(x := v)\<rparr>) y \<longleftrightarrow>
     (if y = x then (case v of None \<Rightarrow> False | Some d \<Rightarrow> d \<ge> 0) else owns_lock s' y)"
  "owns_lock (s\<lparr>lt_open := ds\<rparr>) y \<longleftrightarrow> owns_lock s y" "owns_lock (s\<lparr>lt_holder := h\<rparr>) y \<longleftrightarrow> owns_lock s y"
  "owns_lock (system_close d s) y \<longleftrightarrow> owns_lock s y"
  by (simp_all add: owns_lock_def system_close_def)

lemma close_member_unowned: "unowned s \<Longrightarrow> close_member x s = s"
  by (auto simp: unowned_def owns_lock_def close_member_def split: option.splits)

lemma close_member_owner: "sole_owner s x d \<Longrightarrow> unowned (close_member x s)"
  by (auto simp: sole_owner_def unowned_def close_member_def system_close_def owns_lock_def)

lemma close_member_other: "sole_owner s x d \<Longrightarrow> y \<noteq> x \<Longrightarrow> close_member y s = s"
  by (auto simp: sole_owner_def owns_lock_def close_member_def split: option.splits)

lemma lock_acquire_sound:
  assumes "lock_sound s" "lt_objects s x = None" "d \<ge> 0" "d \<notin> lt_open s"
  shows "fst (lock_acquire x d s) \<longleftrightarrow> unowned s"
    and "unowned s \<Longrightarrow> sole_owner (snd (lock_acquire x d s)) x d"
    and "\<not> unowned s \<Longrightarrow> snd (lock_acquire x d s) = s"
  using assms
  by (auto simp: lock_sound_def unowned_def sole_owner_def lock_acquire_def try_flock_def lock_construct_def
      system_close_def owns_lock_def)

lemma lock_move_sound:
  assumes "lock_sound s" "x \<noteq> y" "lt_objects s x = None"
  shows "unowned s \<Longrightarrow> unowned (lock_move x y s)"
    and "sole_owner s y d \<Longrightarrow> sole_owner (lock_move x y s) x d"
    and "sole_owner s z d \<Longrightarrow> z \<noteq> y \<Longrightarrow> sole_owner (lock_move x y s) z d"
  using assms
  by (auto simp: unowned_def sole_owner_def lock_move_def take_descriptor_def lock_construct_def owns_lock_def
      split: option.splits)

lemma lock_assign_sound:
  assumes "lock_sound s" "x \<noteq> y"
  shows "unowned s \<Longrightarrow> unowned (lock_assign x y s)"
    and "sole_owner s x d \<Longrightarrow> unowned (lock_assign x y s)"
    and "sole_owner s y d \<Longrightarrow> sole_owner (lock_assign x y s) x d"
    and "sole_owner s z d \<Longrightarrow> z \<noteq> x \<Longrightarrow> z \<noteq> y \<Longrightarrow> sole_owner (lock_assign x y s) z d"
proof -
  have moved: "unowned (lock_assign x y s)" if "unowned (close_member x s)"
    using assms(2) that
    by (auto simp: lock_assign_def unowned_def take_descriptor_def owns_lock_def split: option.splits)
  show "unowned s \<Longrightarrow> unowned (lock_assign x y s)" using moved by (simp add: close_member_unowned)
  show "sole_owner s x d \<Longrightarrow> unowned (lock_assign x y s)" using moved close_member_owner by blast
  show "sole_owner s y d \<Longrightarrow> sole_owner (lock_assign x y s) x d"
    using assms(2) close_member_other [of s y d x]
    by (auto simp: lock_assign_def take_descriptor_def sole_owner_def owns_lock_def split: option.splits)
  show "sole_owner s z d \<Longrightarrow> z \<noteq> x \<Longrightarrow> z \<noteq> y \<Longrightarrow> sole_owner (lock_assign x y s) z d"
    using assms(2) close_member_other [of s z d x]
    by (auto simp: lock_assign_def take_descriptor_def sole_owner_def owns_lock_def split: option.splits)
qed

lemma lock_destroy_sound:
  shows "unowned s \<Longrightarrow> unowned (lock_destroy x s)"
    and "sole_owner s x d \<Longrightarrow> unowned (lock_destroy x s)"
    and "sole_owner s z d \<Longrightarrow> z \<noteq> x \<Longrightarrow> sole_owner (lock_destroy x s) z d"
proof -
  have gone: "unowned (lock_destroy x s)" if "unowned (close_member x s)"
    using that by (auto simp: lock_destroy_def Let_def unowned_def)
  show "unowned s \<Longrightarrow> unowned (lock_destroy x s)" using gone by (simp add: close_member_unowned)
  show "sole_owner s x d \<Longrightarrow> unowned (lock_destroy x s)" using gone close_member_owner by blast
  show "sole_owner s z d \<Longrightarrow> z \<noteq> x \<Longrightarrow> sole_owner (lock_destroy x s) z d"
    using close_member_other [of s z d x] by (auto simp: lock_destroy_def Let_def sole_owner_def)
qed

lemma lock_step_sound:
  assumes "lock_step s s'" "lock_sound s"
  shows "lock_sound s'"
  using assms
proof (cases rule: lock_step.cases)
  case (acquire x d)
  with assms(2) lock_acquire_sound [OF assms(2) acquire(2-4)] show ?thesis
    by (cases "unowned s") (auto simp: lock_sound_def)
next
  case (move x y)
  then have "x \<noteq> y" by auto
  from assms(2) lock_move_sound [OF assms(2) this move(2)] move(1) show ?thesis
    unfolding lock_sound_def by metis
next
  case (assign x y)
  show ?thesis
  proof (cases "x = y")
    case False
    from assms(2) lock_assign_sound [OF assms(2) False] assign(1) show ?thesis
      unfolding lock_sound_def by metis
  qed (use assms(2) assign in \<open>simp add: lock_assign_def\<close>)
next
  case (destroy x)
  from assms(2) lock_destroy_sound [where s = s and x = x] destroy(1) show ?thesis
    unfolding lock_sound_def by metis
qed

lemma lock_reachable_sound: "lock_reachable s \<Longrightarrow> lock_sound s"
proof (induction rule: lock_reachable.induct)
  case start
  show ?case by (simp add: lock_sound_def unowned_def no_locks_def owns_lock_def)
qed (rule lock_step_sound)



end
