(* ===== verification/Controller_Service.thy ===== *)
theory Controller_Service
  imports Local_Listener "HOL-Library.While_Combinator"
begin

text \<open>
  The service loop of the daemon (\<open>controller_service.cpp\<close>): recovery, listener startup, one
  admission per round until a stop is requested or the listener keeps failing, and shutdown. Like
  the code it runs over an interface, \<open>ControllerConnectionAcceptor\<close>: a record of three
  operations on a state of any type. The stop token and the connections are what the surroundings
  decide: \<open>service_input\<close> lists them by round. The loop is a \<open>while_option\<close>, so
  that a service that is never stopped is the value \<open>None\<close>. What the service owes to an
  acceptor that keeps the laws of the interface is proved in the locale at the end; the theory
  \<open>Local_Service\<close> interprets it on the local listener.
\<close>

section \<open>Configuration and results\<close>

record service_config =
  sc_accept_poll_interval :: int
  sc_session_io_timeout :: int
  sc_maximum_consecutive_listener_errors :: u64

datatype service_status =
  Svc_stopped | Svc_already_running | Svc_invalid_configuration | Svc_audit_failed
| Svc_listener_start_failed | Svc_listener_failed | Svc_shutdown_failed

record service_result =
  sv_status :: service_status
  sv_event_id :: string
  sv_message :: string
  sv_controller_state :: controller_state
  sv_sessions_handled :: u64
  sv_protocol_failures :: u64
  sv_accept_timeouts :: u64
  sv_rate_limited_connections :: u64
  sv_listener_errors :: u64
  sv_controller_startup :: "startup_result option"
  sv_listener_startup :: "listener_result option"
  sv_listener_shutdown :: "listener_result option"

definition service_ok :: "service_result \<Rightarrow> bool" where
  "service_ok r \<longleftrightarrow> sv_status r = Svc_stopped"

definition minimum_accept_poll_interval :: int where "minimum_accept_poll_interval = 10"
definition maximum_accept_poll_interval :: int where "maximum_accept_poll_interval = 1000"
definition maximum_listener_error_limit :: u64 where "maximum_listener_error_limit = 100"

text \<open>
  The abstract class \<open>ControllerConnectionAcceptor\<close>. Serving a connection may change the state of
  the controller, which its sessions share with the service; \<open>'e\<close> is what a wait meets.
\<close>

record ('e, 'l) acceptor =
  acc_start :: "'l \<Rightarrow> (listener_result \<times> 'l) io"
  acc_serve_one :: "int \<Rightarrow> int \<Rightarrow> 'e \<Rightarrow> 'l \<Rightarrow> controller_state \<Rightarrow> (listener_result \<times> 'l \<times> controller_state) io"
  acc_stop :: "'l \<Rightarrow> (listener_result \<times> 'l) io"

text \<open>The immutable members.\<close>

record ('e, 'l) service =
  svc_controller :: controller
  svc_acceptor :: "('e, 'l) acceptor"
  svc_journal :: string
  svc_config :: service_config

record 'l service_state =
  ss_running :: bool
  ss_controller :: controller_state
  ss_listener :: 'l

text \<open>
  The answers of the stop token, before the listener is started and before each round, and what each
  round's wait for a connection meets.
\<close>

record 'e service_input =
  stop_before_listening :: bool
  stop_before_round :: "nat \<Rightarrow> bool"
  arrivals :: "nat \<Rightarrow> 'e"

definition service_event ::
  "string \<Rightarrow> severity \<Rightarrow> string \<Rightarrow> string \<Rightarrow> string \<Rightarrow> controller_state \<Rightarrow> event" where
  "service_event timestamp sev event_id outcome m st =
     \<lparr>ev_timestamp = timestamp, ev_severity = sev, ev_event_id = event_id,
      ev_component = ''controller-service'', ev_operation_id = ''controller-service'',
      ev_action = ''controller.service'', ev_outcome = outcome, ev_message = m,
      ev_attributes = attribute_map [(''controller_state'', controller_state_string st)]\<rparr>"

definition service_result_of :: "service_status \<Rightarrow> string \<Rightarrow> string \<Rightarrow> controller_state \<Rightarrow> service_result" where
  "service_result_of status event_id m st =
     \<lparr>sv_status = status, sv_event_id = event_id, sv_message = m, sv_controller_state = st,
      sv_sessions_handled = 0, sv_protocol_failures = 0, sv_accept_timeouts = 0,
      sv_rate_limited_connections = 0, sv_listener_errors = 0, sv_controller_startup = None,
      sv_listener_startup = None, sv_listener_shutdown = None\<rparr>"

definition service_config_ok :: "service_config \<Rightarrow> bool" where
  "service_config_ok c \<longleftrightarrow>
     sc_accept_poll_interval c \<ge> minimum_accept_poll_interval \<and>
     sc_accept_poll_interval c \<le> maximum_accept_poll_interval \<and>
     sc_session_io_timeout c > 0 \<and> sc_session_io_timeout c \<le> maximum_io_timeout \<and>
     sc_maximum_consecutive_listener_errors c > 0 \<and>
     sc_maximum_consecutive_listener_errors c \<le> maximum_listener_error_limit"

definition increment_saturated :: "u64 \<Rightarrow> u64" where
  "increment_saturated n = (if n < - 1 then n + 1 else n)"

definition conclude_service :: "service_status \<Rightarrow> string \<Rightarrow> string \<Rightarrow> service_result \<Rightarrow> service_result" where
  "conclude_service status event_id m out =
     out\<lparr>sv_status := status, sv_event_id := event_id, sv_message := m\<rparr>"

definition service_append :: "('e, 'l) service \<Rightarrow> (string \<Rightarrow> event) \<Rightarrow> bool io" where
  "service_append svc build = do {
     timestamp \<leftarrow> read_clock;
     j \<leftarrow> journal_append (svc_journal svc) (build timestamp);
     return (journal_ok j)
   }"

section \<open>Startup\<close>

text \<open>Recovery comes first, whatever the configuration; the controller's state is final from here on
  unless a session changes it.\<close>

definition service_recover ::
  "('e, 'l) service \<Rightarrow> controller_state \<Rightarrow> (bool \<times> service_result \<times> controller_state) io" where
  "service_recover svc ctl = do {
     startup_audited \<leftarrow> service_append svc (\<lambda>t. service_event t Info ''GH-SVC-0001'' ''starting''
       ''Controller service recovery and startup began.'' ctl);
     (if \<not> service_config_ok (svc_config svc)
      then service_append svc (\<lambda>t. service_event t Warning ''GH-SVC-1001'' ''rejected''
        ''Controller service configuration is outside safe bounds.'' ctl)
      else return True);
     (startup, ctl) \<leftarrow> controller_start (svc_controller svc) ctl;
     return (startup_audited, (service_result_of Svc_stopped ''GH-SVC-0003''
       ''Controller service stopped cleanly.'' (su_state startup))\<lparr>sv_controller_startup := Some startup\<rparr>, ctl)
   }"

text \<open>The listener is started and the readiness logged; \<open>Inl\<close> ends the run.\<close>

definition service_listen ::
  "('e, 'l) service \<Rightarrow> service_result \<Rightarrow> 'l \<Rightarrow> ((service_result + service_result) \<times> 'l) io" where
  "service_listen svc out lst = do {
     (listener_startup, lst) \<leftarrow> acc_start (svc_acceptor svc) lst;
     let out = out\<lparr>sv_listener_startup := Some listener_startup\<rparr>;
     if \<not> listener_ok listener_startup then do {
       service_append svc (\<lambda>t. add_attribute ''listener_event_id'' (lr_event_id listener_startup)
         (service_event t Error ''GH-SVC-2002'' ''failed''
           ''Controller service listener failed to start.'' (sv_controller_state out)));
       return (Inl (conclude_service Svc_listener_start_failed ''GH-SVC-2002''
         ''Controller service listener failed to start.'' out), lst)
     }
     else do {
       running \<leftarrow> service_append svc (\<lambda>t. add_attribute ''maximum_consecutive_listener_errors''
         (decimal (unat (sc_maximum_consecutive_listener_errors (svc_config svc))))
         (service_event t Info ''GH-SVC-0002'' ''running''
           ''Controller service admission loop is active.'' (sv_controller_state out)));
       if \<not> running then do {
         (shutdown, lst) \<leftarrow> acc_stop (svc_acceptor svc) lst;
         let out = out\<lparr>sv_listener_shutdown := Some shutdown\<rparr>;
         return (Inl (if \<not> listener_ok shutdown
           then conclude_service Svc_shutdown_failed ''GH-SVC-2004''
             ''Service readiness audit failed and listener shutdown was incomplete.'' out
           else conclude_service Svc_audit_failed ''GH-SVC-2005''
             ''Controller service readiness could not be audited.'' out), lst)
       }
       else return (Inr out, lst)
     }
   }"

definition service_open ::
  "('e, 'l) service \<Rightarrow> bool \<Rightarrow> 'l service_state \<Rightarrow> ((service_result + service_result) \<times> 'l service_state) io" where
  "service_open svc stop_requested st = do {
     (startup_audited, out, ctl) \<leftarrow> service_recover svc (ss_controller st);
     let st = st\<lparr>ss_controller := ctl\<rparr>;
     if \<not> service_config_ok (svc_config svc)
     then return (Inl (conclude_service Svc_invalid_configuration ''GH-SVC-1001''
       ''Controller recovery completed, but service configuration is invalid.'' out), st)
     else if \<not> startup_audited
     then return (Inl (conclude_service Svc_audit_failed ''GH-SVC-2001''
       ''Controller recovery completed, but service startup audit failed.'' out), st)
     else if stop_requested then do {
       stopped \<leftarrow> service_append svc (\<lambda>t. service_event t Info ''GH-SVC-0003'' ''stopped''
         ''Controller service stop was already requested after recovery.'' (sv_controller_state out));
       return (Inl (if \<not> stopped
         then conclude_service Svc_audit_failed ''GH-SVC-2005''
           ''Controller service stop could not be audited.'' out
         else out), st)
     }
     else do {
       (listening, lst) \<leftarrow> service_listen svc out (ss_listener st);
       return (listening, st\<lparr>ss_listener := lst\<rparr>)
     }
   }"

section \<open>The admission loop\<close>

record 'l admission_loop =
  al_output :: service_result
  al_consecutive :: u64
  al_limit_audited :: bool
  al_ended :: bool
  al_round :: nat
  al_listener :: 'l
  al_controller :: controller_state

text \<open>What one admission does to the counters; the first refusal by the limiter is logged.\<close>

definition note_admission :: "('e, 'l) service \<Rightarrow> listener_result \<Rightarrow> 'l admission_loop \<Rightarrow> 'l admission_loop io" where
  "note_admission svc admission L =
     (let out = al_output L
      in case lr_status admission of
        Lsn_session_completed \<Rightarrow> return (L\<lparr>al_consecutive := 0, al_output := out\<lparr>
          sv_sessions_handled := increment_saturated (sv_sessions_handled out),
          sv_protocol_failures :=
            (if (case lr_session admission of None \<Rightarrow> True | Some s \<Rightarrow> \<not> session_ok s)
             then increment_saturated (sv_protocol_failures out) else sv_protocol_failures out)\<rparr>\<rparr>)
      | Lsn_accept_timed_out \<Rightarrow> return (L\<lparr>al_consecutive := 0, al_output := out\<lparr>
          sv_accept_timeouts := increment_saturated (sv_accept_timeouts out)\<rparr>\<rparr>)
      | Lsn_rate_limited \<Rightarrow>
          (let L = L\<lparr>al_consecutive := 0, al_output := out\<lparr>
             sv_rate_limited_connections := increment_saturated (sv_rate_limited_connections out)\<rparr>\<rparr>
           in if al_limit_audited L then return L
              else do {
                limited \<leftarrow> service_append svc (\<lambda>t. service_event t Warning ''GH-SVC-1003'' ''limited''
                  ''Controller connection admission rate limit activated.'' (al_controller L));
                return (L\<lparr>al_limit_audited := True,
                  al_output := (if \<not> limited
                    then conclude_service Svc_audit_failed ''GH-SVC-2005''
                      ''Connection rate limiting could not be audited.'' (al_output L)
                    else al_output L)\<rparr>)
              })
      | _ \<Rightarrow> return (L\<lparr>al_consecutive := al_consecutive L + 1, al_output := out\<lparr>
          sv_listener_errors := increment_saturated (sv_listener_errors out)\<rparr>\<rparr>))"

definition end_round :: "('e, 'l) service \<Rightarrow> 'l admission_loop \<Rightarrow> 'l admission_loop io" where
  "end_round svc L =
     (if al_consecutive L \<ge> sc_maximum_consecutive_listener_errors (svc_config svc) then do {
        service_append svc (\<lambda>t. add_attribute ''consecutive_listener_errors''
          (decimal (unat (al_consecutive L))) (service_event t Critical ''GH-SVC-2003'' ''failed''
            ''Controller service stopped after repeated listener failures.'' (al_controller L)));
        return (L\<lparr>al_ended := True, al_output := conclude_service Svc_listener_failed ''GH-SVC-2003''
          ''Controller service stopped after repeated listener failures.'' (al_output L)\<rparr>)
      }
      else if sv_status (al_output L) = Svc_audit_failed then return (L\<lparr>al_ended := True\<rparr>)
      else return L)"

definition admission_round :: "('e, 'l) service \<Rightarrow> 'e service_input \<Rightarrow> 'l admission_loop \<Rightarrow> 'l admission_loop io" where
  "admission_round svc env L = do {
     (admission, lst, ctl) \<leftarrow> acc_serve_one (svc_acceptor svc) (sc_accept_poll_interval (svc_config svc))
       (sc_session_io_timeout (svc_config svc)) (arrivals env (al_round L)) (al_listener L) (al_controller L);
     L \<leftarrow> note_admission svc admission
       (L\<lparr>al_listener := lst, al_controller := ctl, al_round := Suc (al_round L)\<rparr>);
     end_round svc L
   }"

definition first_round :: "service_result \<Rightarrow> 'l service_state \<Rightarrow> 'l admission_loop" where
  "first_round out st =
     \<lparr>al_output = out, al_consecutive = 0, al_limit_audited = False, al_ended = False, al_round = 0,
      al_listener = ss_listener st, al_controller = ss_controller st\<rparr>"

definition goes_on :: "'e service_input \<Rightarrow> 'l admission_loop \<Rightarrow> bool" where
  "goes_on env L \<longleftrightarrow> \<not> al_ended L \<and> \<not> stop_before_round env (al_round L)"

definition admission_rounds ::
  "('e, 'l) service \<Rightarrow> 'e service_input \<Rightarrow> 'l admission_loop \<times> world \<Rightarrow> ('l admission_loop \<times> world) option" where
  "admission_rounds svc env =
     while_option (\<lambda>(L, w). goes_on env L) (\<lambda>(L, w). run_state (admission_round svc env L) w)"

section \<open>Shutdown\<close>

definition stopped_event :: "service_result \<Rightarrow> string \<Rightarrow> event" where
  "stopped_event out timestamp =
     (let e = service_event timestamp (if sv_status out = Svc_stopped then Info else Error)
            ''GH-SVC-0003'' ''stopped'' ''Controller service listener is closed.'' (sv_controller_state out);
          e = add_attribute ''sessions_handled'' (decimal (unat (sv_sessions_handled out))) e;
          e = add_attribute ''protocol_failures'' (decimal (unat (sv_protocol_failures out))) e;
          e = add_attribute ''listener_errors'' (decimal (unat (sv_listener_errors out))) e
      in add_attribute ''rate_limited_connections'' (decimal (unat (sv_rate_limited_connections out))) e)"

definition service_close :: "('e, 'l) service \<Rightarrow> 'l admission_loop \<Rightarrow> (service_result \<times> 'l) io" where
  "service_close svc L = do {
     (shutdown, lst) \<leftarrow> acc_stop (svc_acceptor svc) (al_listener L);
     let out = (al_output L)\<lparr>sv_listener_shutdown := Some shutdown, sv_controller_state := al_controller L\<rparr>;
     if \<not> listener_ok shutdown
     then return (conclude_service Svc_shutdown_failed ''GH-SVC-2004''
       ''Controller service listener did not stop cleanly.'' out, lst)
     else do {
       stopped \<leftarrow> service_append svc (stopped_event out);
       return (if \<not> stopped
         then conclude_service Svc_audit_failed ''GH-SVC-2005''
           ''Controller service shutdown could not be audited.'' out
         else out, lst)
     }
   }"

definition run_service ::
  "('e, 'l) service \<Rightarrow> 'e service_input \<Rightarrow> 'l service_state \<Rightarrow> world \<Rightarrow> ((service_result \<times> 'l service_state) \<times> world) option" where
  "run_service svc env st w =
     (if ss_running st
      then Some ((service_result_of Svc_already_running ''GH-SVC-1002''
        ''Controller service already has an active run loop.'' (ss_controller st), st), w)
      else case run_state (service_open svc (stop_before_listening env) st) w of
        ((Inl out, st), w) \<Rightarrow> Some ((out, st), w)
      | ((Inr out, st), w) \<Rightarrow>
          (case admission_rounds svc env (first_round out st, w) of
             None \<Rightarrow> None
           | Some (L, w) \<Rightarrow>
               (case run_state (service_close svc L) w of ((out, lst), w) \<Rightarrow>
                 Some ((out, st\<lparr>ss_listener := lst, ss_controller := al_controller L\<rparr>), w))))"

section \<open>Counting\<close>

definition tally :: "service_result \<Rightarrow> nat" where
  "tally out = unat (sv_sessions_handled out) + unat (sv_accept_timeouts out) +
     unat (sv_rate_limited_connections out) + unat (sv_listener_errors out)"

lemma tally_conclude [simp]:
  "tally (conclude_service status i m out) = tally out"
  "sv_protocol_failures (conclude_service status i m out) = sv_protocol_failures out"
  "sv_sessions_handled (conclude_service status i m out) = sv_sessions_handled out"
  "sv_status (conclude_service status i m out) = status"
  "sv_listener_startup (conclude_service status i m out) = sv_listener_startup out"
  "sv_listener_shutdown (conclude_service status i m out) = sv_listener_shutdown out"
  by (simp_all add: tally_def conclude_service_def)

lemma increment_saturated_nat:
  "unat (increment_saturated n) = (if unat n < 2 ^ 64 - 1 then Suc (unat n) else unat n)"
proof -
  have "n < - 1 \<longleftrightarrow> unat n < 2 ^ 64 - 1" by (simp add: word_less_nat_alt unsigned_minus_1_eq_mask mask_eq_exp_minus_1)
  moreover have "unat (n + 1) = Suc (unat n)" if "unat n < 2 ^ 64 - 1"
    using that by (simp add: unat_word_ariths)
  ultimately show ?thesis by (simp add: increment_saturated_def)
qed

text \<open>The counters after some rounds: nothing is counted twice, and nothing is lost before they
  saturate.\<close>

definition counted :: "nat \<Rightarrow> service_result \<Rightarrow> bool" where
  "counted n out \<longleftrightarrow>
     tally out \<le> n \<and> (n < 2 ^ 64 \<longrightarrow> tally out = n) \<and> sv_protocol_failures out \<le> sv_sessions_handled out"

lemma counted_conclude [simp]: "counted n (conclude_service status i m out) = counted n out"
  by (simp add: counted_def)

lemma counted_update:
  assumes "counted n out"
  shows "counted (Suc n) (out\<lparr>sv_accept_timeouts := increment_saturated (sv_accept_timeouts out)\<rparr>)"
    "counted (Suc n) (out\<lparr>sv_rate_limited_connections := increment_saturated (sv_rate_limited_connections out)\<rparr>)"
    "counted (Suc n) (out\<lparr>sv_listener_errors := increment_saturated (sv_listener_errors out)\<rparr>)"
    "counted (Suc n) (out\<lparr>sv_sessions_handled := increment_saturated (sv_sessions_handled out),
       sv_protocol_failures := increment_saturated (sv_protocol_failures out)\<rparr>)"
    "counted (Suc n) (out\<lparr>sv_sessions_handled := increment_saturated (sv_sessions_handled out)\<rparr>)"
  using assms
  by (auto simp: counted_def tally_def increment_saturated_nat word_le_nat_alt split: if_splits)

lemma wp_any: "(\<And>a w'. Q a w') \<Longrightarrow> wp m Q w"
  by (simp add: wpI)

text \<open>Operations whose result a proof about counters may leave open.\<close>

lemmas wp_called =
  wp_any [of _ "service_append svc build" for svc build]
  wp_any [of _ "controller_start c st" for c st]
  wp_any [of _ "acc_start acc lst" for acc lst]
  wp_any [of _ "acc_stop acc lst" for acc lst]

lemma wp_note_admission:
  assumes "counted n (al_output L)" "sv_status (al_output L) = Svc_stopped"
  shows "wp (note_admission svc admission L) (\<lambda>L' w'. counted (Suc n) (al_output L') \<and>
     sv_status (al_output L') \<in> {Svc_stopped, Svc_audit_failed} \<and> al_round L' = al_round L \<and>
     al_listener L' = al_listener L \<and> al_controller L' = al_controller L \<and> al_ended L' = al_ended L) w"
  using counted_update [OF assms(1)] assms(2)
  by (auto simp: note_admission_def Let_def split: listener_status.split if_splits
      intro!: wp_called)

lemma wp_end_round:
  "sv_status (al_output L) \<in> {Svc_stopped, Svc_audit_failed} \<Longrightarrow> \<not> al_ended L \<Longrightarrow>
     wp (end_round svc L) (\<lambda>L' w'. (counted n (al_output L') \<longleftrightarrow> counted n (al_output L)) \<and>
       (\<not> al_ended L' \<longrightarrow> sv_status (al_output L') = Svc_stopped) \<and>
       (al_ended L' \<longrightarrow> sv_status (al_output L') \<noteq> Svc_stopped) \<and> al_round L' = al_round L \<and>
       al_listener L' = al_listener L \<and> al_controller L' = al_controller L) w"
  by (auto simp: end_round_def intro!: wp_called)

text \<open>The state between two rounds.\<close>

definition round_invariant :: "'l admission_loop \<Rightarrow> bool" where
  "round_invariant L \<longleftrightarrow>
     counted (al_round L) (al_output L) \<and> (al_ended L \<longleftrightarrow> sv_status (al_output L) \<noteq> Svc_stopped)"

lemma wp_admission_round:
  fixes svc :: "('e, 'l) service"
  assumes "round_invariant L" "\<not> al_ended L"
  shows "wp (admission_round svc env L) (\<lambda>L' w'. round_invariant L' \<and> al_round L' = Suc (al_round L)) w"
proof -
  have "wp (acc_serve_one acc t1 t2 events lst ctl) (\<lambda>x w'.
      wp (note_admission svc (fst x) (L\<lparr>al_listener := fst (snd x), al_controller := snd (snd x),
          al_round := Suc (al_round L)\<rparr>)) (\<lambda>L'. wp (end_round svc L')
        (\<lambda>L' w'. round_invariant L' \<and> al_round L' = Suc (al_round L))) w') w" for acc :: "('e, 'l) acceptor" and t1 t2 events lst ctl
  proof (rule wpI)
    fix x :: "listener_result \<times> 'l \<times> controller_state" and w'
    let ?L = "L\<lparr>al_listener := fst (snd x), al_controller := snd (snd x), al_round := Suc (al_round L)\<rparr>"
    have start: "counted (al_round L) (al_output ?L)" "sv_status (al_output ?L) = Svc_stopped" "\<not> al_ended ?L"
      using assms by (auto simp: round_invariant_def)
    show "wp (note_admission svc (fst x) ?L) (\<lambda>L'. wp (end_round svc L')
        (\<lambda>L' w'. round_invariant L' \<and> al_round L' = Suc (al_round L))) w'"
    proof (rule wp_mono [OF wp_note_admission [OF start(1,2)]], goal_cases)
      case (1 L1 w1)
      then show ?case
        using start(3)
        by (intro wp_mono [OF wp_end_round [where n = "Suc (al_round L)"]]) (auto simp: round_invariant_def)
    qed
  qed
  then show ?thesis by (simp add: admission_round_def split_beta wp_bind_eta)
qed

section \<open>Stopping on request\<close>

lemma admission_rounds_return:
  assumes "round_invariant L" "al_round L \<le> n" "stop_before_round env n"
    and "\<And>k. k < n \<Longrightarrow> \<not> stop_before_round env k"
  obtains L' w' where "admission_rounds svc env (L, w) = Some (L', w')" "round_invariant L'"
    "al_round L' \<le> n" "\<not> al_ended L' \<Longrightarrow> al_round L' = n"
proof -
  let ?P = "\<lambda>(L, w :: world). round_invariant L \<and> al_round L \<le> n"
  have step: "?P (run_state (admission_round svc env (fst s)) (snd s)) \<and> Suc (al_round (fst s)) \<le> n \<and>
      al_round (fst (run_state (admission_round svc env (fst s)) (snd s))) = Suc (al_round (fst s))"
    if "?P s" "goes_on env (fst s)" for s
  proof -
    from that assms(3) have "al_round (fst s) < n"
      by (cases "al_round (fst s) = n") (auto simp: goes_on_def split_beta)
    moreover from that have "round_invariant (fst s)" "\<not> al_ended (fst s)" by (auto simp: goes_on_def split_beta)
    ultimately show ?thesis
      using wpD [OF wp_admission_round [of "fst s" svc env "snd s"] surjective_pairing]
      by (auto simp: split_beta)
  qed
  have "\<exists>t. admission_rounds svc env (L, w) = Some t"
    unfolding admission_rounds_def
    by (rule measure_while_option_Some [where P = ?P and f = "\<lambda>(L, w). n - al_round L"])
      (use step assms(1,2) in \<open>force simp: split_beta\<close>)+
  then obtain L' w' where run: "admission_rounds svc env (L, w) = Some (L', w')" by auto
  have "?P (L', w')"
    by (rule while_option_rule [OF _ run [unfolded admission_rounds_def]])
      (use step assms(1,2) in \<open>auto simp: split_beta\<close>)
  moreover have "\<not> goes_on env L'" using while_option_stop [OF run [unfolded admission_rounds_def]] by simp
  ultimately show thesis
    using assms(4) run by (intro that) (auto simp: goes_on_def intro: le_neq_implies_less)
qed

lemma wp_service_open_counts:
  "wp (service_open svc stop_requested st) (\<lambda>x w'. case fst x of
     Inl out \<Rightarrow> counted 0 out \<and> (sv_listener_shutdown out \<noteq> None \<longrightarrow> \<not> service_ok out)
   | Inr out \<Rightarrow> counted 0 out \<and> sv_status out = Svc_stopped) w"
proof -
  let ?good = "\<lambda>out. counted 0 out \<and> sv_status out = Svc_stopped \<and> sv_listener_shutdown out = None"
  have recover: "wp (service_recover svc ctl) (\<lambda>x w'. ?good (fst (snd x))) w" for ctl w
    unfolding service_recover_def
    by (auto simp: split_beta service_result_of_def counted_def tally_def intro!: wp_called)
  have listen: "wp (service_listen svc out lst) (\<lambda>x w'. case fst x of
       Inl out \<Rightarrow> counted 0 out \<and> (sv_listener_shutdown out \<noteq> None \<longrightarrow> \<not> service_ok out)
     | Inr out \<Rightarrow> counted 0 out \<and> sv_status out = Svc_stopped) w" if "?good out" for out lst w
  proof -
    have "counted 0 (out\<lparr>sv_listener_startup := r\<rparr>)" "counted 0 (out\<lparr>sv_listener_startup := r, sv_listener_shutdown := r'\<rparr>)"
      for r r' using that by (simp_all add: counted_def tally_def)
    then show ?thesis
      using that unfolding service_listen_def
      by (auto simp: split_beta Let_def service_ok_def split: if_splits intro!: wp_called)
  qed
  show ?thesis
    unfolding service_open_def
  proof (simp only: wp_bind split_beta, rule wp_mono [OF recover], goal_cases)
    case (1 x w')
    then show ?case
      by (auto simp: Let_def split_beta service_ok_def split: if_splits
          intro!: wp_called wp_mono [OF listen])
  qed
qed

lemma wp_service_close_counts:
  "wp (service_close svc L) (\<lambda>x w'. (\<forall>n. counted n (fst x) \<longleftrightarrow> counted n (al_output L)) \<and>
     (service_ok (fst x) \<longrightarrow> sv_status (al_output L) = Svc_stopped)) w"
proof -
  have "counted n (out\<lparr>sv_listener_shutdown := r, sv_controller_state := c\<rparr>) \<longleftrightarrow> counted n out" for n out r c
    by (simp add: counted_def tally_def)
  then show ?thesis
    unfolding service_close_def
    by (auto simp: split_beta Let_def service_ok_def split: if_splits intro!: wp_called)
qed

lemma run_service_counted:
  assumes "stop_before_round env n" and "\<And>k. k < n \<Longrightarrow> \<not> stop_before_round env k" and "n < 2 ^ 64"
  shows "\<exists>r st' w'. run_service svc env st w = Some ((r, st'), w') \<and> tally r \<le> n \<and>
     sv_protocol_failures r \<le> sv_sessions_handled r \<and>
     (service_ok r \<and> sv_listener_shutdown r \<noteq> None \<longrightarrow> tally r = n)"
proof (cases "ss_running st")
  case True
  then show ?thesis by (simp add: run_service_def service_result_of_def tally_def service_ok_def)
next
  case False
  obtain x st1 w1 where opened: "run_state (service_open svc (stop_before_listening env) st) w = ((x, st1), w1)"
    by (metis surj_pair)
  note counts = wpD [OF wp_service_open_counts opened]
  show ?thesis
  proof (cases x)
    case (Inl out)
    with False opened counts show ?thesis by (auto simp: run_service_def counted_def)
  next
    case (Inr out)
    with counts have "round_invariant (first_round out st1)" by (simp add: round_invariant_def first_round_def)
    then obtain L w2 where rounds: "admission_rounds svc env (first_round out st1, w1) = Some (L, w2)"
      and L: "round_invariant L" "al_round L \<le> n" "\<not> al_ended L \<Longrightarrow> al_round L = n"
      using admission_rounds_return [of "first_round out st1" n env svc w1] assms(1,2)
      by (auto simp: first_round_def)
    obtain r lst w3 where closed: "run_state (service_close svc L) w2 = ((r, lst), w3)" by (metis surj_pair)
    note after = wpD [OF wp_service_close_counts closed]
    have "counted (al_round L) r" using after L(1) by (simp add: round_invariant_def)
    moreover have "service_ok r \<longrightarrow> al_round L = n" using after L(1,3) by (simp add: round_invariant_def)
    ultimately have "tally r \<le> n \<and> sv_protocol_failures r \<le> sv_sessions_handled r \<and> (service_ok r \<longrightarrow> tally r = n)"
      using L(2) assms(3) by (auto simp: counted_def)
    moreover have "run_service svc env st w = Some ((r, st1\<lparr>ss_listener := lst, ss_controller := al_controller L\<rparr>), w3)"
      using False opened Inr rounds closed by (simp add: run_service_def)
    ultimately show ?thesis by blast
  qed
qed

text \<open>
  C33. The service stops when it is asked to: if the stop token first answers yes before round
  \<open>n\<close>, the run returns after at most \<open>n\<close> admissions, each counted once in exactly
  one of the four counters, and after exactly \<open>n\<close> when it reports a clean stop of its listener.
\<close>

theorem service_stops_on_request:
  assumes "stop_before_round env n" and "\<And>k. k < n \<Longrightarrow> \<not> stop_before_round env k" and "n < 2 ^ 64"
  shows "\<exists>r st' w'. run_service svc env st w = Some ((r, st'), w') \<and> tally r \<le> n \<and>
     sv_protocol_failures r \<le> sv_sessions_handled r \<and>
     (service_ok r \<and> sv_listener_shutdown r \<noteq> None \<longrightarrow> tally r = n)"
  by (rule run_service_counted [OF assms])

section \<open>What an acceptor promises\<close>

text \<open>
  The laws of the interface. \<open>idle\<close> and \<open>held\<close> are the states before a start and while
  serving, \<open>kept\<close> relates two worlds between which nothing happened that the client cares about,
  \<open>gone\<close> says that a complete stop has left nothing behind.
\<close>

locale connection_acceptor =
  fixes acceptor :: "('e, 'l) acceptor"
    and idle :: "'l \<Rightarrow> bool" and held :: "'l \<Rightarrow> bool"
    and kept :: "world \<Rightarrow> world \<Rightarrow> bool" and gone :: "world \<Rightarrow> bool"
  assumes kept_refl: "kept w w"
    and kept_trans: "kept w w1 \<Longrightarrow> kept w1 w2 \<Longrightarrow> kept w w2"
    and start_law: "idle lst \<Longrightarrow> wp (acc_start acceptor lst) (\<lambda>x w'. kept w w' \<and>
        (if listener_ok (fst x) then held (snd x) else idle (snd x))) w"
    and serve_law: "held lst \<Longrightarrow> wp (acc_serve_one acceptor t1 t2 events lst ctl) (\<lambda>x w'. kept w w' \<and>
        held (fst (snd x))) w"
    and stop_law: "held lst \<Longrightarrow> wp (acc_stop acceptor lst) (\<lambda>x w'. kept w w' \<and> idle (snd x) \<and>
        (listener_ok (fst x) \<longrightarrow> gone w')) w"

text \<open>Before and after every round.\<close>

definition round_held ::
  "('l \<Rightarrow> bool) \<Rightarrow> (world \<Rightarrow> world \<Rightarrow> bool) \<Rightarrow> startup_result option \<Rightarrow> world \<Rightarrow> 'l admission_loop \<Rightarrow> world \<Rightarrow> bool" where
  "round_held held kept u w0 L w \<longleftrightarrow>
     held (al_listener L) \<and> kept w0 w \<and> sv_controller_startup (al_output L) = u"

text \<open>One start of the controller, and nothing else the client cares about.\<close>

definition recovered_by ::
  "(world \<Rightarrow> world \<Rightarrow> bool) \<Rightarrow> controller \<Rightarrow> controller_state \<Rightarrow> world \<Rightarrow> startup_result option \<Rightarrow> world \<Rightarrow> bool" where
  "recovered_by kept c ctl w u w' \<longleftrightarrow>
     (\<exists>r ctl' w0. run_state (controller_start c ctl) w0 = ((r, ctl'), w') \<and> kept w w0 \<and> u = Some r)"

lemma recovered_byD:
  assumes "recovered_by kept c ctl w u w1" "kept w1 w'"
  shows "\<exists>r ctl' w0 w1. run_state (controller_start c ctl) w0 = ((r, ctl'), w1) \<and> u = Some r \<and>
     kept w w0 \<and> kept w1 w'"
  using assms unfolding recovered_by_def by blast

text \<open>The state in which the first round begins, or the run is over.\<close>

definition opened ::
  "('l \<Rightarrow> bool) \<Rightarrow> ('l \<Rightarrow> bool) \<Rightarrow> (world \<Rightarrow> world \<Rightarrow> bool) \<Rightarrow> controller \<Rightarrow> controller_state \<Rightarrow> world \<Rightarrow>
    (service_result + service_result) \<times> 'l service_state \<Rightarrow> world \<Rightarrow> bool" where
  "opened idle held kept c ctl w x w' \<longleftrightarrow>
     (\<exists>w1. recovered_by kept c ctl w (sv_controller_startup (case fst x of Inl r \<Rightarrow> r | Inr r \<Rightarrow> r)) w1 \<and>
        kept w1 w') \<and>
     (if isl (fst x) then idle (ss_listener (snd x)) else held (ss_listener (snd x)))"

text \<open>
  The service as a client of an acceptor: its own journal lines are of no concern either, and
  do not bring back what is gone.
\<close>

locale acceptor_client = connection_acceptor "svc_acceptor svc" idle held kept gone
  for svc :: "('e, 'l) service" and idle held :: "'l \<Rightarrow> bool"
    and kept :: "world \<Rightarrow> world \<Rightarrow> bool" and gone :: "world \<Rightarrow> bool" +
  assumes append_law: "wp (service_append svc build) (\<lambda>ok w'. kept w w' \<and> (gone w \<longrightarrow> gone w')) w"
begin

lemma wp_client_start:
  assumes "idle lst"
    and "\<And>r lst' w'. kept w w' \<Longrightarrow> (if listener_ok r then held lst' else idle lst') \<Longrightarrow> Q (r, lst') w'"
  shows "wp (acc_start (svc_acceptor svc) lst) Q w"
  by (rule wp_mono [OF start_law [OF assms(1)]]) (use assms(2) in \<open>auto split: if_splits\<close>)

lemma wp_client_stop:
  assumes "held lst"
    and "\<And>r lst' w'. kept w w' \<Longrightarrow> idle lst' \<Longrightarrow> (listener_ok r \<Longrightarrow> gone w') \<Longrightarrow> Q (r, lst') w'"
  shows "wp (acc_stop (svc_acceptor svc) lst) Q w"
  by (rule wp_mono [OF stop_law [OF assms(1)]]) (auto intro: assms(2))

lemma wp_client_serve:
  assumes "held lst"
    and "\<And>r lst' ctl' w'. kept w w' \<Longrightarrow> held lst' \<Longrightarrow> Q (r, lst', ctl') w'"
  shows "wp (acc_serve_one (svc_acceptor svc) t1 t2 events lst ctl) Q w"
  by (rule wp_mono [OF serve_law [OF assms(1)]]) (use assms(2) in auto)

lemma wp_client_append:
  assumes "\<And>ok w'. kept w w' \<Longrightarrow> (gone w \<Longrightarrow> gone w') \<Longrightarrow> Q ok w'"
  shows "wp (service_append svc build) Q w"
  by (rule wp_mono [OF append_law]) (use assms in auto)

lemma wp_service_listen:
  assumes "idle lst"
    and "\<And>x lst' w'. kept w w' \<Longrightarrow> (if isl x then idle lst' else held lst') \<Longrightarrow>
      sv_controller_startup (case x of Inl r \<Rightarrow> r | Inr r \<Rightarrow> r) = sv_controller_startup out \<Longrightarrow> Q (x, lst') w'"
  shows "wp (service_listen svc out lst) Q w"
  unfolding service_listen_def
proof (simp only: wp_bind split_beta Let_def, rule wp_client_start [OF assms(1)], goal_cases)
  case (1 r lst1 w1)
  show ?case
  proof (cases "listener_ok r")
    case False
    with 1 show ?thesis
      by (auto intro!: wp_client_append assms(2) intro: kept_trans simp: conclude_service_def)
  next
    case True
    with 1(2) have held: "held lst1" by simp
    show ?thesis
    proof (simp only: True fst_conv snd_conv simp_thms if_False wp_bind, rule wp_client_append, goal_cases)
      case (1 running w2)
      note here = kept_trans [OF \<open>kept w w1\<close> 1(1)]
      show ?case
      proof (cases running)
        case True
        with here held show ?thesis by (auto intro!: assms(2))
      next
        case False
        then show ?thesis
          by (simp only: simp_thms if_True wp_bind, intro wp_client_stop [OF held])
            (auto intro!: assms(2) intro: kept_trans [OF here] simp: conclude_service_def)
      qed
    qed
  qed
qed

lemma wp_note_held:
  assumes "\<And>L' w'. kept w w' \<Longrightarrow> al_listener L' = al_listener L \<Longrightarrow>
      sv_controller_startup (al_output L') = sv_controller_startup (al_output L) \<Longrightarrow> Q L' w'"
  shows "wp (note_admission svc admission L) Q w"
  unfolding note_admission_def Let_def
  by (auto split: listener_status.split intro!: wp_client_append assms kept_refl
      simp: conclude_service_def)

lemma wp_end_held:
  assumes "\<And>L' w'. kept w w' \<Longrightarrow> al_listener L' = al_listener L \<Longrightarrow>
      sv_controller_startup (al_output L') = sv_controller_startup (al_output L) \<Longrightarrow> Q L' w'"
  shows "wp (end_round svc L) Q w"
  unfolding end_round_def
  by (auto intro!: wp_client_append assms kept_refl simp: conclude_service_def)

lemma wp_round_held:
  assumes "round_held held kept u w0 L w"
  shows "wp (admission_round svc env L) (round_held held kept u w0) w"
proof -
  from assms have start: "held (al_listener L)" "kept w0 w"
    "sv_controller_startup (al_output L) = u" by (simp_all add: round_held_def)
  show ?thesis
    unfolding admission_round_def
  proof (simp only: wp_bind split_beta, rule wp_client_serve [OF start(1)], goal_cases)
    case (1 r lst ctl w1)
    show ?case
    proof (simp only: wp_bind fst_conv snd_conv, rule wp_note_held, goal_cases)
      case (1 L1 w2)
      then show ?case
        using start \<open>kept w w1\<close> \<open>held lst\<close>
        by (intro wp_end_held) (auto simp: round_held_def intro: kept_trans)
    qed
  qed
qed

lemma rounds_held:
  assumes "round_held held kept u w0 L w" "admission_rounds svc env (L, w) = Some (L', w')"
  shows "round_held held kept u w0 L' w'"
proof -
  have "case (L', w') of (L, w) \<Rightarrow> round_held held kept u w0 L w"
    by (rule while_option_rule [OF _ assms(2) [unfolded admission_rounds_def]])
      (use assms(1) wpD [OF wp_round_held surjective_pairing] in \<open>auto simp: split_beta\<close>)
  then show ?thesis by simp
qed

lemma wp_service_close:
  assumes "round_held held kept u w0 L w"
    and "\<And>out lst w'. kept w0 w' \<Longrightarrow> idle lst \<Longrightarrow> sv_controller_startup out = u \<Longrightarrow>
      (service_ok out \<Longrightarrow> gone w') \<Longrightarrow> Q (out, lst) w'"
  shows "wp (service_close svc L) Q w"
  unfolding service_close_def
proof (simp only: wp_bind split_beta Let_def, rule wp_client_stop, goal_cases)
  case 1
  then show ?case using assms(1) by (simp add: round_held_def)
next
  case (2 r lst w1)
  have startup: "sv_controller_startup (al_output L) = u" and here: "kept w0 w1"
    using assms(1) 2(1) by (auto simp: round_held_def intro: kept_trans)
  show ?case
  proof (cases "listener_ok r")
    case False
    with startup here 2(2) show ?thesis
      by (auto simp: conclude_service_def service_ok_def intro!: assms(2))
  next
    case True
    with 2(3) have "gone w1" by simp
    with True startup here 2(2) show ?thesis
      by (auto simp: conclude_service_def intro!: wp_client_append assms(2)
          intro: kept_trans)
  qed
qed

lemma wp_service_recover:
  assumes "\<And>b out ctl' w'. recovered_by kept (svc_controller svc) ctl w (sv_controller_startup out) w' \<Longrightarrow> Q (b, out, ctl') w'"
  shows "wp (service_recover svc ctl) Q w"
proof -
  have start: "wp (do { (startup, ctl) \<leftarrow> controller_start (svc_controller svc) ctl;
     return (b, (service_result_of Svc_stopped ''GH-SVC-0003''
       ''Controller service stopped cleanly.'' (su_state startup))\<lparr>sv_controller_startup := Some startup\<rparr>, ctl) }) Q w1"
    if "kept w w1" for b w1
  proof (simp only: wp_bind, rule wpI)
    fix x w' assume "run_state (controller_start (svc_controller svc) ctl) w1 = (x, w')"
    with that show "wp (case x of (startup, ctl) \<Rightarrow> return (b, (service_result_of Svc_stopped ''GH-SVC-0003''
       ''Controller service stopped cleanly.'' (su_state startup))\<lparr>sv_controller_startup := Some startup\<rparr>, ctl)) Q w'"
      by (cases x) (force simp: recovered_by_def intro!: assms)
  qed
  show ?thesis
    unfolding service_recover_def
  proof (subst wp_bind, rule wp_client_append, goal_cases)
    case (1 ok w1)
    then show ?case
      by (cases "service_config_ok (svc_config svc)")
        (auto simp del: wp_bind simp: State_Monad.bind_assoc intro: start, simp only: wp_bind,
          auto simp del: wp_bind intro!: wp_client_append start intro: kept_trans)
  qed
qed

lemma wp_service_open:
  assumes "idle (ss_listener st)"
  shows "wp (service_open svc stop_requested st) (opened idle held kept (svc_controller svc) (ss_controller st) w) w"
  unfolding service_open_def
proof (simp only: wp_bind split_beta Let_def, rule wp_service_recover, goal_cases)
  case (1 audited out ctl w1)
  let ?u = "sv_controller_startup out"
  have finished: "opened idle held kept (svc_controller svc) (ss_controller st) w (Inl r, st\<lparr>ss_controller := ctl\<rparr>) w'"
    if "sv_controller_startup r = ?u" "kept w1 w'" for r w'
    using 1 that assms by (auto simp: opened_def)
  show ?case
  proof (cases "service_config_ok (svc_config svc) \<and> audited \<and> \<not> stop_requested")
    case True
    show ?thesis
      by (simp only: True fst_conv snd_conv simp_thms if_False wp_bind, rule wp_service_listen)
        (use assms 1 in \<open>auto simp: opened_def\<close>)
  next
    case False
    then show ?thesis
      by (auto simp: conclude_service_def intro!: finished wp_client_append kept_refl)
  qed
qed

lemma client_outcome:
  assumes "idle (ss_listener st)" "\<not> ss_running st"
    and "run_service svc env st w = Some ((r, st'), w')"
  shows "idle (ss_listener st') \<and>
     (service_ok r \<and> sv_listener_shutdown r \<noteq> None \<longrightarrow> gone w') \<and>
     (\<exists>w1. recovered_by kept (svc_controller svc) (ss_controller st) w (sv_controller_startup r) w1 \<and> kept w1 w')"
proof -
  obtain x st1 w1 where run: "run_state (service_open svc (stop_before_listening env) st) w = ((x, st1), w1)"
    by (metis surj_pair)
  note open1 = wpD [OF wp_service_open [OF assms(1)] run] and open2 = wpD [OF wp_service_open_counts run]
  show ?thesis
  proof (cases x)
    case (Inl out)
    with assms(2,3) run have "out = r" "st1 = st'" "w1 = w'" by (simp_all add: run_service_def)
    with Inl open1 open2 show ?thesis by (auto simp: opened_def)
  next
    case (Inr out)
    with open1 obtain w0 where recovered: "recovered_by kept (svc_controller svc) (ss_controller st) w (sv_controller_startup out) w0"
      and "kept w0 w1" and "held (ss_listener st1)" by (auto simp: opened_def)
    then have start: "round_held held kept (sv_controller_startup out) w0 (first_round out st1) w1"
      by (simp add: round_held_def first_round_def)
    from assms(2,3) run Inr obtain L w2 where rounds: "admission_rounds svc env (first_round out st1, w1) = Some (L, w2)"
      by (auto simp: run_service_def split: option.splits prod.splits)
    obtain r2 lst w3 where closed: "run_state (service_close svc L) w2 = ((r2, lst), w3)" by (metis surj_pair)
    have "wp (service_close svc L) (\<lambda>x w3. kept w0 w3 \<and> idle (snd x) \<and>
       sv_controller_startup (fst x) = sv_controller_startup out \<and>
       (service_ok (fst x) \<longrightarrow> gone w3)) w2"
      by (rule wp_service_close [OF rounds_held [OF start rounds]]) simp
    from wpD [OF this closed] have "kept w0 w3 \<and> idle lst \<and>
       sv_controller_startup r2 = sv_controller_startup out \<and>
       (service_ok r2 \<longrightarrow> gone w3)" by simp
    moreover from assms(2,3) run Inr rounds closed have "r2 = r" "w3 = w'" "ss_listener st' = lst"
      by (auto simp: run_service_def)
    ultimately show ?thesis using recovered by auto
  qed
qed

end

end
