(* ===== verification/Read_Only.thy ===== *)
theory Read_Only
  imports Local_Listener
begin

text \<open>
  The activation policy of the bootstrap daemon (\<open>read_only_activation_policy.cpp\<close>): an
  authorizer that denies, a confirmation gate that is unavailable, a probe that fails. The rest of the
  theory shows what this policy is for: under a denying authorizer no operation that a peer can cause
  changes the firewall or what is stored about it, or performs any action but logging and the refused
  authorization. The argument is compositional: \<open>keeps f m\<close> says that the operation
  \<open>m\<close> leaves the observation \<open>f\<close> of the world alone, and the rules of the
  collection \<open>keeps_rule\<close> follow the program text.
\<close>

section \<open>The policy\<close>

definition read_only_authorizer :: authorizer where
  "read_only_authorizer history operation_id revision reference =
     Some \<lparr>auth_status = Auth_denied, auth_decision_id = [],
       auth_message = ''This bootstrap daemon does not authorize PF activation.''\<rparr>"

definition unavailable_confirmation_gate :: confirmation_gate where
  "unavailable_confirmation_gate history operation_id revision timeout =
     Some \<lparr>conf_status = Conf_unavailable, conf_confirmation_id = [],
       conf_message = ''This bootstrap daemon has no confirmation provider.''\<rparr>"

definition fail_closed_probe :: health_probe where
  "fail_closed_probe = \<lparr>probe_id = ''read-only-daemon'',
     probe_run = (\<lambda>history timeout. Some \<lparr>probe_status = Probe_execution_error,
       probe_message = ''This bootstrap daemon has no activation health probe.''\<rparr>)\<rparr>"

text \<open>An authorizer that never authorizes, whatever it says instead.\<close>

definition denies :: "activation_service \<Rightarrow> bool" where
  "denies svc \<longleftrightarrow>
     (\<forall>history operation_id revision reference.
        case as_authorizer svc history operation_id revision reference of
          None \<Rightarrow> True | Some a \<Rightarrow> \<not> auth_ok a)"

lemma read_only_denies: "as_authorizer svc = read_only_authorizer \<Longrightarrow> denies svc"
  by (simp add: denies_def read_only_authorizer_def auth_ok_def)

section \<open>Operations that leave an observation alone\<close>

definition keeps :: "(world \<Rightarrow> 'v) \<Rightarrow> 'a io \<Rightarrow> bool" where
  "keeps f m \<longleftrightarrow> (\<forall>w. wp m (\<lambda>_ w'. f w' = f w) w)"

named_theorems keeps_rule \<open>rules for keeps, one for each program construct and operation\<close>

lemma keepsI: "(\<And>w. wp m (\<lambda>_ w'. f w' = f w) w) \<Longrightarrow> keeps f m"
  by (simp add: keeps_def)

lemma keepsD: "keeps f m \<Longrightarrow> wp m (\<lambda>_ w'. f w' = f w) w"
  by (simp add: keeps_def)

lemma wp_keeps:
  assumes "keeps f m" "f w = v" "\<And>a w'. f w' = v \<Longrightarrow> Q a w'"
  shows "wp m Q w"
  by (rule wp_mono [OF keepsD [OF assms(1)]]) (use assms(2,3) in auto)

lemma keeps_run: "keeps f m \<Longrightarrow> run_state m w = (a, w') \<Longrightarrow> f w' = f w"
  using wpD [OF keepsD] by fastforce

lemma keeps_return [keeps_rule]: "keeps f (State_Monad.return a)"
  by (simp add: keeps_def)

lemma keeps_bind [keeps_rule]: "keeps f m \<Longrightarrow> (\<And>a. keeps f (g a)) \<Longrightarrow> keeps f (State_Monad.bind m g)"
  by (rule keepsI, subst wp_bind) (erule wp_keeps, rule refl, auto intro: wp_keeps)

lemma keeps_if [keeps_rule]: "(b \<Longrightarrow> keeps f m) \<Longrightarrow> (\<not> b \<Longrightarrow> keeps f n) \<Longrightarrow> keeps f (if b then m else n)"
  by simp

lemma keeps_option [keeps_rule]:
  "(x = None \<Longrightarrow> keeps f m) \<Longrightarrow> (\<And>a. x = Some a \<Longrightarrow> keeps f (g a)) \<Longrightarrow>
     keeps f (case x of None \<Rightarrow> m | Some a \<Rightarrow> g a)"
  by (cases x) auto

lemma keeps_prod [keeps_rule]: "(\<And>a b. x = (a, b) \<Longrightarrow> keeps f (g a b)) \<Longrightarrow> keeps f (case x of (a, b) \<Rightarrow> g a b)"
  by (cases x) auto

lemma keeps_gets [keeps_rule]: "keeps f (gets g)"
  by (simp add: keeps_def)

lemma keeps_modify: "(\<And>w. f (g w) = f w) \<Longrightarrow> keeps f (modify g)"
  by (simp add: keeps_def)

section \<open>The sight of an observer\<close>

text \<open>
  What matters about the firewall: archive, marker, pending record and loads, and every visible action
  that is not a line in the journal or a refused authorization.
\<close>

fun harmless :: "visible_action \<Rightarrow> bool" where
  "harmless (Audited e) = True"
| "harmless (Authorization_requested i n reference ok) = (\<not> ok)"
| "harmless _ = False"

definition sight :: "activation_service \<Rightarrow> world \<Rightarrow> firewall_view \<times> visible_action list" where
  "sight svc w = (firewall_view svc w, filter (\<lambda>a. \<not> harmless a) (actions w))"

lemma sight_view: "sight svc w' = sight svc w \<Longrightarrow> firewall_view svc w' = firewall_view svc w"
  by (simp add: sight_def)

lemma sight_settings [simp]:
  "sight svc (w\<lparr>script := rs\<rparr>) = sight svc w" "sight svc (w\<lparr>last_errno := e\<rparr>) = sight svc w"
  "sight svc (w\<lparr>clock_reads := n\<rparr>) = sight svc w"
  "sight svc (w\<lparr>inbound := received\<rparr>) = sight svc w" "sight svc (w\<lparr>send_events := sent\<rparr>) = sight svc w"
  "sight svc (w\<lparr>outbound := out\<rparr>) = sight svc w"
  by (simp_all add: sight_def firewall_view_def revision_text_def [abs_def] marker_def stored_def)

lemma sight_audited: "separate svc \<Longrightarrow> audited (as_journal svc) es w w' \<Longrightarrow> sight svc w' = sight svc w"
  using view_audited [of svc es w w'] by (auto simp: sight_def audited_def filter_map comp_def)

lemma sight_session_effect: "session_effect svc rd es out w0 w \<Longrightarrow> sight svc w = sight svc w0"
  by (auto simp: sight_def session_effect_def filter_map comp_def)

lemma keeps_read_clock [keeps_rule]: "keeps (sight svc) read_clock"
  by (rule keepsI) (simp add: wp_simp)

lemma keeps_plain_call [keeps_rule]: "keeps (sight svc) plain_call"
  by (rule keepsI, rule wp_plain_call) simp

lemma keeps_journal_append [keeps_rule]: "separate svc \<Longrightarrow> keeps (sight svc) (journal_append (as_journal svc) e)"
  by (rule keepsI, rule wp_journal_append_audited) (rule sight_audited)

lemma keeps_set_errno [keeps_rule]: "keeps (sight svc) (set_errno e)"
  by (rule keepsI) (simp add: wp_simp)

section \<open>Activation under a denying authorizer\<close>

lemma keeps_act_append [keeps_rule]: "separate svc \<Longrightarrow> keeps (sight svc) (act_append svc e r)"
  unfolding act_append_def by (intro keeps_rule)

lemma keeps_act_log [keeps_rule]: "separate svc \<Longrightarrow> keeps (sight svc) (act_log svc q sev eid act outcome m num extra r)"
  unfolding act_log_def act_audit_def by (intro keeps_rule)

lemma wp_denied:
  assumes "denies svc" "\<And>x w'. \<not> auth_ok x \<Longrightarrow> sight svc w' = sight svc w \<Longrightarrow> Q x w'"
  shows "wp (consult_authorizer svc q) Q w"
proof -
  have "firewall_view svc (w\<lparr>actions := actions w @ [Authorization_requested i rev ref g]\<rparr>) = firewall_view svc w"
    for i rev ref g
    by (simp add: firewall_view_def revision_text_def [abs_def] marker_def stored_def)
  moreover have "case as_authorizer svc (actions w) (aq_operation_id q) (aq_revision q) (aq_authorization_reference q) of
      None \<Rightarrow> True | Some a \<Rightarrow> \<not> auth_ok a"
    using assms(1) by (simp only: denies_def)
  ultimately show ?thesis
    unfolding wp_def consult_authorizer_def
    by (auto simp: sight_def Let_def split: option.splits intro!: assms(2)) (simp_all add: auth_ok_def)
qed

lemma keeps_authorize_stage [keeps_rule]:
  assumes "separate svc" "denies svc"
  shows "keeps (sight svc) (authorize_stage svc q r)"
proof (rule keepsI)
  fix w
  show "wp (authorize_stage svc q r) (\<lambda>_ w'. sight svc w' = sight svc w) w"
    unfolding authorize_stage_def
  proof (subst wp_bind, rule wp_denied [OF assms(2)], goal_cases)
    case (1 x w')
    then show ?case
      by (subst wp_bind, intro wp_keeps [OF keeps_act_log [OF assms(1)]]) (auto split: prod.split)
  qed
qed

lemma keeps_activate [keeps_rule]: "separate svc \<Longrightarrow> denies svc \<Longrightarrow> keeps (sight svc) (activate svc q)"
  unfolding activate_def by (intro keeps_rule)

section \<open>Dispatch and sessions\<close>

lemma keeps_controller_append [keeps_rule]:
  "wired c \<Longrightarrow> keeps (sight (ctl_service c)) (controller_append c sev i op act outcome m st)"
  unfolding controller_append_def by (auto simp: wired_def intro!: keeps_rule)

lemma keeps_controller_activate [keeps_rule]:
  "wired c \<Longrightarrow> denies (ctl_service c) \<Longrightarrow> keeps (sight (ctl_service c)) (controller_activate c st q)"
  unfolding controller_activate_def by (auto simp: wired_def intro!: keeps_rule)

lemma keeps_session_append [keeps_rule]:
  "session_wired s \<Longrightarrow> keeps (sight (session_service s)) (session_append s build)"
  by (rule keepsI, rule wp_session_append [OF _ session_effect_start]) (auto dest: sight_session_effect)

lemma keeps_write_frame [keeps_rule]: "keeps (sight svc) (write_frame p)"
  by (rule keepsI, rule wp_write_frame [OF session_effect_start]) (auto dest: sight_session_effect)

lemma keeps_read_frame [keeps_rule]: "keeps (sight svc) read_frame"
  by (rule keepsI, rule wp_read_frame [OF session_effect_start]) (auto dest: sight_session_effect)

lemma keeps_configure_socket [keeps_rule]: "keeps (sight svc) configure_socket"
  unfolding configure_socket_def by (intro keeps_rule)

lemma keeps_respond [keeps_rule]: "keeps (sight svc) (respond payload peer result)"
  unfolding respond_def by (intro keeps_rule)

lemma keeps_refuse_session [keeps_rule]:
  "session_wired s \<Longrightarrow> keeps (sight (session_service s)) (refuse_session s st peer build i m result)"
  unfolding refuse_session_def by (intro keeps_rule)

lemma keeps_serve_status [keeps_rule]:
  "session_wired s \<Longrightarrow> keeps (sight (session_service s)) (serve_status s st peer i)"
  unfolding serve_status_def by (intro keeps_rule)

lemma keeps_serve_activation [keeps_rule]:
  "session_wired s \<Longrightarrow> denies (session_service s) \<Longrightarrow>
     keeps (sight (session_service s)) (serve_activation s st peer i q)"
  unfolding serve_activation_def Let_def by (auto simp: session_wired_def intro!: keeps_rule)

lemma keeps_operation [keeps_rule]:
  "keeps f m \<Longrightarrow> keeps f n \<Longrightarrow> keeps f (case x of Operation_status \<Rightarrow> m | Operation_activate \<Rightarrow> n)"
  by (cases x) auto

lemma keeps_serve_request [keeps_rule]:
  "session_wired s \<Longrightarrow> denies (session_service s) \<Longrightarrow>
     keeps (sight (session_service s)) (serve_request s st peer rq)"
  unfolding serve_request_def by (intro keeps_rule)

lemma keeps_serve_frame [keeps_rule]:
  "session_wired s \<Longrightarrow> denies (session_service s) \<Longrightarrow>
     keeps (sight (session_service s)) (serve_frame s st peer)"
  unfolding serve_frame_def Let_def by (intro keeps_rule)

lemma keeps_serve [keeps_rule]:
  "session_wired s \<Longrightarrow> denies (session_service s) \<Longrightarrow>
     keeps (sight (session_service s)) (serve s conn io_timeout st)"
  unfolding serve_def Let_def by (intro keeps_rule)

section \<open>The listener\<close>

text \<open>The socket lies in none of the directories the firewall state lives in.\<close>

definition listener_apart :: "listener \<Rightarrow> bool" where
  "listener_apart ls \<longleftrightarrow>
     listener_wired ls \<and>
     fst (socket_entry ls) \<notin> {ls_journal ls, as_revisions (session_service (ls_session ls)),
       as_transactions (session_service (ls_session ls))}"

lemma sight_listener_at:
  assumes "listener_apart ls" "listener_at ls es x w0 w"
  shows "sight (session_service (ls_session ls)) w = sight (session_service (ls_session ls)) w0"
proof -
  let ?svc = "session_service (ls_session ls)"
  have sep: "separate ?svc" and journal: "ls_journal ls = as_journal ?svc"
    using assms(1) by (auto simp: listener_apart_def listener_wired_def session_wired_def wired_def)
  have other: "entries w (d, n) = entries w0 (d, n)" if "d \<noteq> fst (socket_entry ls)" "d \<noteq> ls_journal ls" for d n
  proof -
    have "(d, n) \<noteq> journal_path (ls_journal ls)" "(d, n) \<noteq> socket_entry ls"
      using that by (auto simp: journal_path_def dest: arg_cong [of _ _ fst])
    with listener_at_elsewhere [OF assms(2), of "(d, n)"] show ?thesis by simp
  qed
  have uid: "effective_uid w = effective_uid w0" using assms(2) by (rule listener_at_uid)
  have "revision_text (as_revisions ?svc) w = revision_text (as_revisions ?svc) w0"
    "marker (as_revisions ?svc) w = marker (as_revisions ?svc) w0"
    "stored (as_transactions ?svc) w = stored (as_transactions ?svc) w0"
    using assms(1) sep other uid
    by (auto simp: revision_text_def marker_def stored_def revision_path_def marker_path_def
        transaction_path_def separate_def listener_apart_def journal fun_eq_iff)
  then show ?thesis
    using assms(2) uid by (simp add: sight_def firewall_view_def listener_at_def filter_map comp_def)
qed

lemma keeps_attach: "keeps (sight svc) (attach received sent)"
  unfolding attach_def by (rule keeps_modify) simp

lemma keeps_listener_append [keeps_rule]:
  "listener_wired ls \<Longrightarrow> keeps (sight (session_service (ls_session ls))) (listener_append ls build)"
  unfolding listener_append_def listener_wired_def session_wired_def wired_def by (auto intro!: keeps_rule)

lemma keeps_serve_one [keeps_rule]:
  assumes "listener_apart ls" "denies (session_service (ls_session ls))"
  shows "keeps (sight (session_service (ls_session ls))) (serve_one ls accept_timeout session_timeout events st ctl)"
proof -
  from assms(1) have wired: "listener_wired ls" "session_wired (ls_session ls)"
    by (auto simp: listener_apart_def listener_wired_def)
  show ?thesis
    unfolding serve_one_def Let_def
    by (cases "accept_loop events")
      (auto intro!: keeps_rule keeps_attach wired assms(2) simp del: run_state_bind)
qed

end
