(* ===== verification/Local_Service.thy ===== *)
theory Local_Service
  imports Controller_Service Read_Only
begin

text \<open>
  The service on the local listener: the listener's three operations keep the laws of the acceptor
  interface, when it is wired as the main program does it. What the service's client lemmas give
  for it is stated over the code's model.
\<close>

section \<open>The listener as an acceptor\<close>

definition local_acceptor :: "listener \<Rightarrow> (accept_event list, listener_state) acceptor" where
  "local_acceptor ls =
     \<lparr>acc_start = listener_start ls, acc_serve_one = serve_one ls, acc_stop = listener_stop ls\<rparr>"

lemma local_acceptor_sel [simp]:
  "acc_start (local_acceptor ls) = listener_start ls" "acc_serve_one (local_acceptor ls) = serve_one ls"
  "acc_stop (local_acceptor ls) = listener_stop ls"
  by (simp_all add: local_acceptor_def)

type_synonym local_service = "(accept_event list, listener_state) service"

abbreviation service_activation :: "('e, 'l) service \<Rightarrow> activation_service" where
  "service_activation svc \<equiv> ctl_service (svc_controller svc)"

text \<open>
  How the main program connects the parts: one journal, one controller, and a socket outside the
  directories of the stores.
\<close>

definition service_wired :: "listener \<Rightarrow> local_service \<Rightarrow> bool" where
  "service_wired ls svc \<longleftrightarrow>
     svc_acceptor svc = local_acceptor ls \<and> listener_apart ls \<and> svc_journal svc = ls_journal ls \<and>
     svc_controller svc = ps_controller (ls_session ls)"

lemma service_wired_facts:
  assumes "service_wired ls svc"
  shows "listener_apart ls" "listener_wired ls" "journal_apart ls"
    "wired (svc_controller svc)" "svc_journal svc = as_journal (service_activation svc)"
    "separate (service_activation svc)"
    "session_service (ls_session ls) = service_activation svc"
    "svc_acceptor svc = local_acceptor ls"
  using assms
  by (auto simp: service_wired_def listener_apart_def listener_wired_def journal_apart_def session_wired_def
      wired_def)

text \<open>Under a denying authorizer the observer sees no difference.\<close>

definition undisturbed :: "local_service \<Rightarrow> world \<Rightarrow> world \<Rightarrow> bool" where
  "undisturbed svc w w' \<longleftrightarrow>
     (denies (service_activation svc) \<longrightarrow> sight (service_activation svc) w' = sight (service_activation svc) w)"

lemma undisturbed_refl: "undisturbed svc w w"
  by (simp add: undisturbed_def)

lemma undisturbed_trans: "undisturbed svc w w1 \<Longrightarrow> undisturbed svc w1 w2 \<Longrightarrow> undisturbed svc w w2"
  by (simp add: undisturbed_def)

lemma listener_at_undisturbed:
  "service_wired ls svc \<Longrightarrow> listener_at ls es x w w' \<Longrightarrow> undisturbed svc w w'"
  using sight_listener_at service_wired_facts(1,7) unfolding undisturbed_def by metis

text \<open>The listener's members before the first and after the last step, and in between.\<close>

definition released :: "listener_state \<Rightarrow> bool" where
  "released lst \<longleftrightarrow> listener_idle lst \<and> \<not> ll_serving lst"

definition held :: "listener \<Rightarrow> listener_state \<Rightarrow> bool" where
  "held ls lst \<longleftrightarrow> listener_bound ls lst \<and> \<not> ll_serving lst"

lemma held_after_limiter: "lst' = lst\<lparr>ll_limiter := l\<rparr> \<Longrightarrow> held ls lst \<Longrightarrow> held ls lst'"
  by (simp add: held_def listener_bound_def)

section \<open>It keeps the laws\<close>

lemma local_start_law:
  assumes "service_wired ls svc" "released lst"
  shows "wp (listener_start ls lst) (\<lambda>x w'. undisturbed svc w w' \<and>
    (if listener_ok (fst x) then held ls (snd x) else released (snd x))) w"
proof (rule wp_mono [OF wp_listener_start [OF service_wired_facts(3) [OF assms(1)]]])
  show "listener_idle lst" "\<not> ll_serving lst" using assms(2) by (auto simp: released_def)
next
  fix x w' assume "start_outcome ls w x w'"
  then show "undisturbed svc w w' \<and> (if listener_ok (fst x) then held ls (snd x) else released (snd x))"
    by (auto simp: start_outcome_def started_def not_started_def held_def released_def listener_ok_def
        dest: listener_at_undisturbed [OF assms(1)] split: if_splits)
qed

lemma local_serve_law:
  assumes "service_wired ls svc" "held ls lst"
  shows "wp (serve_one ls t1 t2 events lst ctl) (\<lambda>x w'. undisturbed svc w w' \<and> held ls (fst (snd x))) w"
proof (rule wpI)
  fix x w' assume run: "run_state (serve_one ls t1 t2 events lst ctl) w = (x, w')"
  from wpD [OF wp_serve_one [OF service_wired_facts(2) [OF assms(1)]] run]
  have "fst (snd x) = lst\<lparr>ll_limiter := ll_limiter (fst (snd x))\<rparr>" by simp
  then have "held ls (fst (snd x))" using assms(2) by (metis held_after_limiter)
  moreover have "undisturbed svc w w'"
    unfolding undisturbed_def
    using keeps_run [OF keeps_serve_one [OF service_wired_facts(1) [OF assms(1)]] run]
    by (simp add: service_wired_facts(7) [OF assms(1)])
  ultimately show "undisturbed svc w w' \<and> held ls (fst (snd x))" by simp
qed

lemma local_stop_law:
  assumes "service_wired ls svc" "held ls lst"
  shows "wp (listener_stop ls lst) (\<lambda>x w'. undisturbed svc w w' \<and> released (snd x) \<and>
    (listener_ok (fst x) \<longrightarrow> entries w' (socket_entry ls) = None)) w"
proof (rule wp_mono [OF wp_listener_stop [OF service_wired_facts(3) [OF assms(1)]]])
  show "listener_bound ls lst" "\<not> ll_serving lst" using assms(2) by (auto simp: held_def)
next
  fix x :: "listener_result \<times> listener_state" and w'
  assume "listener_idle (snd x) \<and> \<not> ll_serving (snd x) \<and>
     (\<exists>es y. listener_at ls es y w w' \<and>
        (y = entries w (socket_entry ls) \<or>
         y = None \<and> removable lst (entries w (socket_entry ls))) \<and>
        (listener_ok (fst x) \<longrightarrow> y = None \<and> length es = 1))"
  then show "undisturbed svc w w' \<and> released (snd x) \<and>
     (listener_ok (fst x) \<longrightarrow> entries w' (socket_entry ls) = None)"
    by (auto simp: released_def dest: listener_at_entry intro: listener_at_undisturbed [OF assms(1)])
qed

lemma local_append_law:
  assumes "service_wired ls svc"
  shows "wp (service_append svc build) (\<lambda>ok w'. undisturbed svc w w' \<and>
    (entries w (socket_entry ls) = None \<longrightarrow> entries w' (socket_entry ls) = None)) w"
proof -
  have "service_append svc build = listener_append ls build"
    using assms by (simp add: service_append_def listener_append_def service_wired_def)
  then show ?thesis
    by (simp, intro wp_listener_append [OF service_wired_facts(3) [OF assms] listener_at_start])
      (auto intro: listener_at_undisturbed [OF assms] dest: listener_at_entry)
qed

text \<open>The interface, for every listener and every service wired to it.\<close>

interpretation served: acceptor_client svc
  "\<lambda>lst. service_wired ls svc \<and> released lst" "\<lambda>lst. service_wired ls svc \<and> held ls lst"
  "\<lambda>w w'. service_wired ls svc \<longrightarrow> undisturbed svc w w'"
  "\<lambda>w. service_wired ls svc \<longrightarrow> entries w (socket_entry ls) = None" for ls svc
proof (unfold_locales, goal_cases)
  case (3 lst w)
  then show ?case
    by (auto simp: service_wired_facts(8) intro!: wp_mono [OF local_start_law] split: if_splits)
next
  case (4 lst t1 t2 events ctl w)
  then show ?case
    using wp_mono [OF local_serve_law [of ls svc lst t1 t2 events ctl w]] by (auto simp: service_wired_facts(8))
next
  case (5 lst w)
  then show ?case
    using wp_mono [OF local_stop_law [of ls svc lst w]] by (auto simp: service_wired_facts(8))
next
  case (6 build w)
  show ?case
    by (cases "service_wired ls svc") (use local_append_law [of ls svc build w] in \<open>auto elim!: wp_mono\<close>)
qed (auto intro: undisturbed_refl undisturbed_trans)

lemma run_service_outcome:
  assumes "service_wired ls svc" "released (ss_listener st)" "\<not> ss_running st"
    and "run_service svc env st w = Some ((r, st'), w')"
  shows "released (ss_listener st') \<and>
     (service_ok r \<and> sv_listener_shutdown r \<noteq> None \<longrightarrow> entries w' (socket_entry ls) = None) \<and>
     (\<exists>w1. recovered_by (undisturbed svc) (svc_controller svc) (ss_controller st) w (sv_controller_startup r) w1 \<and>
        undisturbed svc w1 w')"
  using served.client_outcome [of ls svc st env w r st' w'] assms by simp

text \<open>
  Whatever happens in between, when the service returns its listener is closed and owns nothing,
  and after a clean stop nothing is left at the socket's path.
\<close>

theorem service_releases_listener:
  assumes "service_wired ls svc" and "released (ss_listener st)" and "\<not> ss_running st"
    and "run_service svc env st w = Some ((r, st'), w')"
  shows "released (ss_listener st') \<and>
     (service_ok r \<and> sv_listener_shutdown r \<noteq> None \<longrightarrow> entries w' (socket_entry ls) = None)"
  using run_service_outcome [OF assms] by simp

text \<open>
  Under a denying authorizer the service never activates: apart from the controller's startup
  recovery, which happens exactly once, the archive, the marker, the pending record and the list of
  loads stay as they are, whatever the peers send, and no action is performed but logging and
  refused authorizations.
\<close>

theorem read_only_service_only_recovers:
  assumes "service_wired ls svc" and "denies (service_activation svc)"
    and "released (ss_listener st)" and "\<not> ss_running st"
    and "run_service svc env st w = Some ((r, st'), w')"
  shows "\<exists>startup ctl w0 w1.
     run_state (controller_start (svc_controller svc) (ss_controller st)) w0 = ((startup, ctl), w1) \<and>
     sv_controller_startup r = Some startup \<and>
     sight (service_activation svc) w0 = sight (service_activation svc) w \<and>
     sight (service_activation svc) w' = sight (service_activation svc) w1"
proof -
  obtain w1 where "recovered_by (undisturbed svc) (svc_controller svc) (ss_controller st) w (sv_controller_startup r) w1" "undisturbed svc w1 w'"
    using run_service_outcome [OF assms(1,3,4,5)] by auto
  from recovered_byD [OF this] assms(2) show ?thesis unfolding undisturbed_def by fastforce
qed

section \<open>A concrete service\<close>

definition sample_service_controller :: controller where
  "sample_service_controller =
     \<lparr>ctl_service = sample_activation_service\<lparr>as_authorizer := read_only_authorizer\<rparr>, ctl_journal = ''/j''\<rparr>"

definition sample_service_listener :: listener where
  "sample_service_listener = sample_listener\<lparr>ls_session := sample_session\<lparr>ps_controller := sample_service_controller\<rparr>\<rparr>"

definition sample_service :: local_service where
  "sample_service =
     \<lparr>svc_controller = sample_service_controller, svc_acceptor = local_acceptor sample_service_listener,
      svc_journal = ''/j'',
      svc_config = \<lparr>sc_accept_poll_interval = 250, sc_session_io_timeout = 5000,
        sc_maximum_consecutive_listener_errors = 3\<rparr>\<rparr>"

definition sample_input :: "accept_event list service_input" where
  "sample_input = \<lparr>stop_before_listening = False, stop_before_round = (\<lambda>n. n \<ge> 2), arrivals = (\<lambda>_. [])\<rparr>"

definition sample_service_state :: "listener_state service_state" where
  "sample_service_state =
     \<lparr>ss_running = False, ss_controller = Ctl_created, ss_listener = new_listener sample_service_listener\<rparr>"

lemma sample_service_sel [simp]:
  "as_authorizer (service_activation sample_service) = read_only_authorizer"
  "as_journal (service_activation sample_service) = ''/j''" "as_revisions (service_activation sample_service) = ''/r''"
  "as_transactions (service_activation sample_service) = ''/t''"
  "ps_controller (ls_session sample_service_listener) = svc_controller sample_service"
  "ctl_journal (svc_controller sample_service) = ''/j''" "svc_journal sample_service = ''/j''"
  "ps_journal (ls_session sample_service_listener) = ''/j''" "ls_journal sample_service_listener = ''/j''"
  "ls_config sample_service_listener = ls_config sample_listener"
  "svc_acceptor sample_service = local_acceptor sample_service_listener"
  by (simp_all add: sample_service_def sample_service_controller_def sample_service_listener_def
      sample_activation_service_def sample_listener_def sample_session_def)

lemma sample_service_wired: "service_wired sample_service_listener sample_service" "denies (service_activation sample_service)"
proof -
  have "socket_entry sample_service_listener = (''/run'', ''s'')"
    using sample_listener_entry by (simp add: socket_entry_def)
  then show "service_wired sample_service_listener sample_service"
    by (simp add: service_wired_def listener_apart_def listener_wired_def session_wired_def wired_def separate_def)
  show "denies (service_activation sample_service)" by (rule read_only_denies) simp
qed

lemma sample_service_idle: "released (ss_listener sample_service_state)" "\<not> ss_running sample_service_state"
  by (simp_all add: sample_service_state_def released_def listener_idle_def new_listener_def)

lemma sample_service_returns:
  obtains r st' w' where "run_service sample_service sample_input sample_service_state sample_world = Some ((r, st'), w')"
    "tally r \<le> 2"
  using run_service_counted [of sample_input 2 sample_service sample_service_state sample_world]
  by (auto simp: sample_input_def)

lemma service_stops_on_request_witness:
  "\<exists>r st' w'. run_service sample_service sample_input sample_service_state sample_world = Some ((r, st'), w') \<and>
     tally r \<le> 2"
  using service_stops_on_request [of sample_input 2 sample_service sample_service_state sample_world]
  by (auto simp: sample_input_def)

lemma service_releases_listener_witness:
  "case run_service sample_service sample_input sample_service_state sample_world of
     None \<Rightarrow> False | Some ((r, st'), w') \<Rightarrow> released (ss_listener st')"
proof -
  obtain r st' w' where run:
    "run_service sample_service sample_input sample_service_state sample_world = Some ((r, st'), w')"
    by (rule sample_service_returns)
  from service_releases_listener [OF sample_service_wired(1) sample_service_idle run] show ?thesis
    by (simp add: run)
qed

lemma read_only_service_only_recovers_witness:
  "case run_service sample_service sample_input sample_service_state sample_world of
     None \<Rightarrow> False | Some ((r, st'), w') \<Rightarrow> sv_controller_startup r \<noteq> None"
proof -
  obtain r st' w' where run:
    "run_service sample_service sample_input sample_service_state sample_world = Some ((r, st'), w')"
    by (rule sample_service_returns)
  from read_only_service_only_recovers [OF sample_service_wired sample_service_idle run] show ?thesis
    by (auto simp: run)
qed

end
