(* ===== verification/Daemon_Config.thy ===== *)
theory Daemon_Config
  imports Paths
begin

text \<open>
  The daemon's command line and identity check (\<open>daemon/config.cpp\<close>). The parser is
  translated branch by branch; the main theorem says that it accepts exactly the documented command
  lines. The size of \<open>sockaddr_un::sun_path\<close> depends on the platform and is a parameter.
\<close>

section \<open>Results\<close>

datatype daemon_command =
  Command_help | Command_version | Command_check_configuration | Command_serve_read_only

record daemon_config =
  dc_journal_root :: string
  dc_revision_root :: string
  dc_transaction_root :: string
  dc_socket_path :: string
  dc_allowed_user_id :: nat
  dc_allowed_group_id :: "nat option"

datatype config_status = Config_parsed | Config_help_requested | Config_version_requested | Config_invalid

record config_result =
  cr_status :: config_status
  cr_command :: daemon_command
  cr_config :: "daemon_config option"
  cr_event_id :: string
  cr_message :: string

definition config_ok :: "config_result \<Rightarrow> bool" where
  "config_ok r \<longleftrightarrow> cr_status r = Config_parsed"

definition invalid_config :: "string \<Rightarrow> config_result" where
  "invalid_config m =
     \<lparr>cr_status = Config_invalid, cr_command = Command_help, cr_config = None,
      cr_event_id = ''GH-DMN-1001'', cr_message = m\<rparr>"

section \<open>Options\<close>

text \<open>\<open>uid_t\<close> and \<open>gid_t\<close> have 32 bits.\<close>

definition maximum_id :: nat where "maximum_id = 4294967295"

definition parse_id :: "string \<Rightarrow> nat option" where
  "parse_id value =
     (case from_chars uint64_max value of (ec, parsed, rest) \<Rightarrow>
        if value = [] \<or> hd value = CHR ''+'' \<or> hd value = CHR ''-'' \<or> ec \<noteq> Conversion_ok \<or>
           rest \<noteq> [] \<or> parsed > maximum_id
        then None else Some parsed)"

record parsed_options =
  po_journal_root :: "string option"
  po_revision_root :: "string option"
  po_transaction_root :: "string option"
  po_socket_path :: "string option"
  po_allowed_user_id :: "nat option"
  po_allowed_group_id :: "nat option"
  po_allowed_group_seen :: bool

definition no_options :: parsed_options where
  "no_options =
     \<lparr>po_journal_root = None, po_revision_root = None, po_transaction_root = None,
      po_socket_path = None, po_allowed_user_id = None, po_allowed_group_id = None,
      po_allowed_group_seen = False\<rparr>"

definition once_only :: string where
  "once_only = ''Each daemon option may be specified only once.''"

text \<open>\<open>assign_once\<close>, with the error of the caller.\<close>

definition assign_once :: "'a option \<Rightarrow> parsed_options \<Rightarrow> string + parsed_options" where
  "assign_once destination assigned = (if destination \<noteq> None then Inl once_only else Inr assigned)"

definition assign_option :: "string \<Rightarrow> string \<Rightarrow> parsed_options \<Rightarrow> string + parsed_options" where
  "assign_option option value opts =
     (if value = [] then Inl ''Daemon option values must not be empty.''
      else if option = ''--journal-root'' then
        assign_once (po_journal_root opts) (opts\<lparr>po_journal_root := Some value\<rparr>)
      else if option = ''--revision-root'' then
        assign_once (po_revision_root opts) (opts\<lparr>po_revision_root := Some value\<rparr>)
      else if option = ''--transaction-root'' then
        assign_once (po_transaction_root opts) (opts\<lparr>po_transaction_root := Some value\<rparr>)
      else if option = ''--socket-path'' then
        assign_once (po_socket_path opts) (opts\<lparr>po_socket_path := Some value\<rparr>)
      else if option = ''--allowed-uid'' then
        (case parse_id value of
           None \<Rightarrow> Inl ''Allowed UID must be an unsigned numeric identifier.''
         | Some parsed \<Rightarrow>
             assign_once (po_allowed_user_id opts) (opts\<lparr>po_allowed_user_id := Some parsed\<rparr>))
      else if option = ''--allowed-gid'' then
        (if po_allowed_group_seen opts then Inl once_only
         else (case parse_id value of
                 None \<Rightarrow> Inl ''Allowed GID must be an unsigned numeric identifier.''
               | Some parsed \<Rightarrow>
                   Inr (opts\<lparr>po_allowed_group_seen := True, po_allowed_group_id := Some parsed\<rparr>)))
      else Inl ''Unknown daemon option.'')"

fun parse_options :: "string list \<Rightarrow> parsed_options \<Rightarrow> string + parsed_options" where
  "parse_options [] opts = Inr opts"
| "parse_options [option] opts = Inl ''A daemon option is missing its value.''"
| "parse_options (option # value # arguments) opts =
     (case assign_option option value opts of
        Inl m \<Rightarrow> Inl m
      | Inr opts \<Rightarrow> parse_options arguments opts)"

section \<open>The command line\<close>

definition check_options :: "nat \<Rightarrow> daemon_command \<Rightarrow> parsed_options \<Rightarrow> config_result" where
  "check_options sun_path_size command opts =
     (case (po_journal_root opts, po_revision_root opts, po_transaction_root opts, po_socket_path opts,
            po_allowed_user_id opts) of
        (Some journal, Some revisions, Some transactions, Some socket_path, Some uid) \<Rightarrow>
          (let roots = [journal, revisions, transactions]
           in if \<not> list_all safe_absolute_path roots
              then invalid_config ''Daemon storage roots must be normalized absolute non-root paths.''
              else if paths_overlap journal revisions \<or> paths_overlap journal transactions \<or>
                      paths_overlap revisions transactions
              then invalid_config ''Daemon storage roots must not overlap.''
              else if \<not> safe_absolute_path socket_path \<or> path_filename socket_path = [] \<or>
                      length socket_path \<ge> sun_path_size
              then invalid_config ''Controller socket path is outside safe bounds.''
              else if list_ex (paths_overlap (parent_path socket_path)) roots
              then invalid_config ''Controller socket directory must be separate from storage roots.''
              else
                \<lparr>cr_status = Config_parsed, cr_command = command,
                 cr_config = Some \<lparr>dc_journal_root = journal, dc_revision_root = revisions,
                   dc_transaction_root = transactions, dc_socket_path = socket_path,
                   dc_allowed_user_id = uid, dc_allowed_group_id = po_allowed_group_id opts\<rparr>,
                 cr_event_id = ''GH-DMN-0001'',
                 cr_message = (if command = Command_check_configuration
                   then ''Daemon configuration-check arguments parsed.''
                   else ''Read-only daemon arguments parsed.'')\<rparr>)
      | _ \<Rightarrow> invalid_config ''Required daemon options are missing.'')"

definition parse_daemon_arguments :: "nat \<Rightarrow> string list \<Rightarrow> config_result" where
  "parse_daemon_arguments sun_path_size arguments =
     (if length arguments = 1 \<and> (hd arguments = ''--help'' \<or> hd arguments = ''-h'')
      then \<lparr>cr_status = Config_help_requested, cr_command = Command_help, cr_config = None,
             cr_event_id = ''GH-DMN-0001'', cr_message = ''Daemon help requested.''\<rparr>
      else if length arguments = 1 \<and> (hd arguments = ''--version'' \<or> hd arguments = ''-V'')
      then \<lparr>cr_status = Config_version_requested, cr_command = Command_version, cr_config = None,
             cr_event_id = ''GH-DMN-0001'', cr_message = ''Daemon version requested.''\<rparr>
      else if arguments = [] \<or> hd arguments \<noteq> ''check-config'' \<and> hd arguments \<noteq> ''serve-read-only''
      then invalid_config ''Expected the explicit check-config or serve-read-only command.''
      else
        (let command = (if hd arguments = ''check-config'' then Command_check_configuration
                        else Command_serve_read_only)
         in case parse_options (tl arguments) no_options of
              Inl m \<Rightarrow> invalid_config m
            | Inr opts \<Rightarrow> check_options sun_path_size command opts))"

record identity_result =
  id_valid :: bool
  id_socket_mode :: u32
  id_socket_group_id :: "nat option"
  id_event_id :: string
  id_message :: string

text \<open>Octal 0600 and 0660.\<close>

abbreviation private_mode :: u32 where "private_mode \<equiv> 384"
abbreviation delegated_mode :: u32 where "delegated_mode \<equiv> 432"

definition validate_daemon_identity :: "daemon_config \<Rightarrow> nat \<Rightarrow> nat \<Rightarrow> identity_result" where
  "validate_daemon_identity config euid egid =
     (case dc_allowed_group_id config of
        None \<Rightarrow>
          (if dc_allowed_user_id config \<noteq> euid
           then \<lparr>id_valid = False, id_socket_mode = private_mode, id_socket_group_id = None,
                  id_event_id = ''GH-DMN-1002'',
                  id_message = ''Mode 0600 requires the allowed UID to equal the daemon UID.''\<rparr>
           else \<lparr>id_valid = True, id_socket_mode = private_mode, id_socket_group_id = None,
                  id_event_id = ''GH-DMN-0001'',
                  id_message = ''Daemon UID can access the private controller socket.''\<rparr>)
      | Some gid \<Rightarrow>
          (if gid \<noteq> egid \<and> euid \<noteq> 0
           then \<lparr>id_valid = False, id_socket_mode = private_mode, id_socket_group_id = None,
                  id_event_id = ''GH-DMN-1002'',
                  id_message = ''Only root may delegate the controller socket to another GID.''\<rparr>
           else \<lparr>id_valid = True, id_socket_mode = delegated_mode, id_socket_group_id = Some gid,
                  id_event_id = ''GH-DMN-0001'',
                  id_message = ''Configured API group can access the controller socket.''\<rparr>))"

section \<open>The documented command lines\<close>

definition path_options :: "string set" where
  "path_options = {''--journal-root'', ''--revision-root'', ''--transaction-root'', ''--socket-path''}"

definition id_options :: "string set" where
  "id_options = {''--allowed-uid'', ''--allowed-gid''}"

text \<open>A decimal number that fits the type.\<close>

definition numeric_id :: "string \<Rightarrow> bool" where
  "numeric_id v \<longleftrightarrow> v \<noteq> [] \<and> list_all is_ascii_digit v \<and> decimal_value v \<le> maximum_id"

definition proper_option :: "string \<times> string \<Rightarrow> bool" where
  "proper_option kv \<longleftrightarrow>
     fst kv \<in> path_options \<and> snd kv \<noteq> [] \<or> fst kv \<in> id_options \<and> numeric_id (snd kv)"

definition proper_options :: "(string \<times> string) list \<Rightarrow> bool" where
  "proper_options os \<longleftrightarrow> distinct (map fst os) \<and> list_all proper_option os"

definition option_words :: "(string \<times> string) list \<Rightarrow> string list" where
  "option_words os = concat (map (\<lambda>(k, v). [k, v]) os)"

text \<open>The configuration that a list of options means.\<close>

definition means_config :: "(string \<times> string) list \<Rightarrow> daemon_config \<Rightarrow> bool" where
  "means_config os c \<longleftrightarrow>
     map_of os ''--journal-root'' = Some (dc_journal_root c) \<and>
     map_of os ''--revision-root'' = Some (dc_revision_root c) \<and>
     map_of os ''--transaction-root'' = Some (dc_transaction_root c) \<and>
     map_of os ''--socket-path'' = Some (dc_socket_path c) \<and>
     map_option decimal_value (map_of os ''--allowed-uid'') = Some (dc_allowed_user_id c) \<and>
     map_option decimal_value (map_of os ''--allowed-gid'') = dc_allowed_group_id c"

text \<open>
  Four directories of which none lies in another, none is the root directory or has dot elements or
  an embedded NUL, and a socket path that fits the address.
\<close>

definition config_roots :: "daemon_config \<Rightarrow> string list" where
  "config_roots c = [dc_journal_root c, dc_revision_root c, dc_transaction_root c]"

definition config_directories :: "daemon_config \<Rightarrow> string list" where
  "config_directories c = config_roots c @ [parent_path (dc_socket_path c)]"

definition proper_path :: "string \<Rightarrow> bool" where
  "proper_path p \<longleftrightarrow>
     is_absolute p \<and> path_elements p \<noteq> [''/''] \<and> dot_free (path_elements p) \<and> CHR 0x00 \<notin> set p"

definition proper_config :: "nat \<Rightarrow> daemon_config \<Rightarrow> bool" where
  "proper_config sun_path_size c \<longleftrightarrow>
     list_all proper_path (dc_socket_path c # config_roots c) \<and>
     sorted_wrt (\<lambda>p q. \<not> paths_overlap p q) (config_directories c) \<and>
     path_filename (dc_socket_path c) \<noteq> [] \<and> length (dc_socket_path c) < sun_path_size"

section \<open>The parser accepts exactly these\<close>

lemma safe_absolute_proper: "safe_absolute_path p \<longleftrightarrow> proper_path p"
proof -
  have "path_elements ''/'' = [''/'']"
    by (simp add: path_elements_def is_absolute_def relative_part_def)
  moreover have "is_absolute p \<Longrightarrow> dot_free (path_elements p) = dot_free (path_names (relative_part p))"
    by (simp add: path_elements_def dot_free_def)
  ultimately show ?thesis
    by (auto simp: safe_absolute_path_def proper_path_def path_equal_def is_normal_absolute)
qed

lemma parse_id_iff: "parse_id v = Some n \<longleftrightarrow> numeric_id v \<and> n = decimal_value v"
proof
  assume "parse_id v = Some n"
  then obtain "from_chars uint64_max v = (Conversion_ok, n, [])" "n \<le> maximum_id"
    by (auto simp: parse_id_def split: prod.splits if_splits)
  with from_chars_whole [of uint64_max v n] show "numeric_id v \<and> n = decimal_value v"
    by (simp add: numeric_id_def)
next
  assume v: "numeric_id v \<and> n = decimal_value v"
  then have "is_ascii_digit (hd v)" by (cases v) (auto simp: numeric_id_def)
  then have "hd v \<noteq> CHR ''+''" "hd v \<noteq> CHR ''-''" by (auto simp: is_ascii_digit_def)
  moreover have "from_chars uint64_max v = (Conversion_ok, n, [])"
  proof -
    from v have whole: "takeWhile is_ascii_digit v = v" "dropWhile is_ascii_digit v = []"
      by (auto simp: numeric_id_def list_all_iff takeWhile_eq_all_conv)
    show ?thesis
      unfolding from_chars_def whole Let_def using v by (simp add: numeric_id_def maximum_id_def)
  qed
  ultimately show "parse_id v = Some n"
    using v by (simp add: parse_id_def numeric_id_def)
qed

lemma parse_id_None: "parse_id v = None \<longleftrightarrow> \<not> numeric_id v"
  using parse_id_iff [of v] by (cases "parse_id v") auto

text \<open>The options read so far, as a record.\<close>

definition options_of :: "(string \<Rightarrow> string option) \<Rightarrow> parsed_options" where
  "options_of os =
     \<lparr>po_journal_root = os ''--journal-root'', po_revision_root = os ''--revision-root'',
      po_transaction_root = os ''--transaction-root'', po_socket_path = os ''--socket-path'',
      po_allowed_user_id = map_option decimal_value (os ''--allowed-uid''),
      po_allowed_group_id = map_option decimal_value (os ''--allowed-gid''),
      po_allowed_group_seen = (os ''--allowed-gid'' \<noteq> None)\<rparr>"

lemma no_options_empty: "no_options = options_of Map.empty"
  by (simp add: no_options_def options_of_def)

lemma assign_option_step:
  "assign_option k v (options_of os) = Inr opts \<longleftrightarrow>
     proper_option (k, v) \<and> os k = None \<and> opts = options_of (os(k \<mapsto> v))"
proof -
  consider "v = []" | "v \<noteq> []" "k \<in> path_options" | "v \<noteq> []" "k \<in> id_options"
    | "v \<noteq> []" "k \<notin> path_options" "k \<notin> id_options" by blast
  then show ?thesis
  proof cases
    case 1
    then show ?thesis by (simp add: assign_option_def proper_option_def numeric_id_def)
  next
    case 2
    then consider "k = ''--journal-root''" | "k = ''--revision-root''" | "k = ''--transaction-root''"
      | "k = ''--socket-path''" unfolding path_options_def by blast
    then show ?thesis
      using 2 by cases (auto simp: assign_option_def assign_once_def options_of_def proper_option_def)
  next
    case 3
    have disjoint: "k \<notin> path_options" using 3 by (auto simp: path_options_def id_options_def)
    from 3 consider "k = ''--allowed-uid''" | "k = ''--allowed-gid''" unfolding id_options_def by blast
    then show ?thesis
    proof cases
      case 1
      with 3 disjoint show ?thesis
        using parse_id_None [of v] parse_id_iff [of v]
        by (cases "parse_id v") (auto simp: assign_option_def assign_once_def options_of_def proper_option_def)
    next
      case 2
      with 3 disjoint show ?thesis
        using parse_id_None [of v] parse_id_iff [of v]
        by (cases "parse_id v") (auto simp: assign_option_def assign_once_def options_of_def proper_option_def)
    qed
  next
    case 4
    then show ?thesis
      by (auto simp: assign_option_def proper_option_def path_options_def id_options_def)
  qed
qed

lemma option_words_simps [simp]:
  "option_words [] = []" "option_words ((k, v) # os) = k # v # option_words os"
  by (simp_all add: option_words_def)

lemma option_words_Nil [simp]: "[] = option_words os \<longleftrightarrow> os = []"
  by (cases os) auto

lemma option_words_Cons:
  "k # v # arguments = option_words os \<longleftrightarrow> (\<exists>rest. os = (k, v) # rest \<and> arguments = option_words rest)"
  by (cases os) auto

lemma parse_options_iff:
  "parse_options arguments (options_of m) = Inr opts \<longleftrightarrow>
     (\<exists>os. arguments = option_words os \<and> proper_options os \<and> (\<forall>k \<in> fst ` set os. m k = None) \<and>
        opts = options_of (m ++ map_of os))"
proof (induction arguments "options_of m" arbitrary: m rule: parse_options.induct)
  case 1
  show ?case by (auto simp: proper_options_def)
next
  case (2 option)
  have "[option] \<noteq> option_words os" for os by (cases os) auto
  then show ?case by simp
next
  case (3 k v words)
  show ?case
  proof (cases "proper_option (k, v) \<and> m k = None")
    case False
    then have "assign_option k v (options_of m) \<noteq> Inr opts1" for opts1
      using assign_option_step [of k v m opts1] by blast
    then obtain e where "assign_option k v (options_of m) = Inl e"
      by (cases "assign_option k v (options_of m)") blast+
    with False show ?thesis by (auto simp: option_words_Cons proper_options_def)
  next
    case True
    then have step: "assign_option k v (options_of m) = Inr (options_of (m(k \<mapsto> v)))"
      using assign_option_step [of k v m] by blast
    have absorb: "m ++ map_of ((k, v) # rest) = m(k \<mapsto> v) ++ map_of rest"
      if "k \<notin> fst ` set rest" for rest :: "(string \<times> string) list"
      using that by (simp add: map_add_upd_left [symmetric] dom_map_of_conv_image_fst)
    have "parse_options (k # v # words) (options_of m) = Inr opts \<longleftrightarrow>
        parse_options words (options_of (m(k \<mapsto> v))) = Inr opts" by (simp add: step)
    also have "\<dots> \<longleftrightarrow> (\<exists>rest. words = option_words rest \<and> proper_options rest \<and>
        (\<forall>j \<in> fst ` set rest. (m(k \<mapsto> v)) j = None) \<and>
        opts = options_of (m(k \<mapsto> v) ++ map_of rest))"
      by (rule 3 [OF step])
    also have "\<dots> \<longleftrightarrow> (\<exists>rest. words = option_words rest \<and> proper_options ((k, v) # rest) \<and>
        (\<forall>j \<in> fst ` set ((k, v) # rest). m j = None) \<and>
        opts = options_of (m ++ map_of ((k, v) # rest)))"
    proof (rule arg_cong [where f = Ex], rule ext)
      fix rest :: "(string \<times> string) list"
      have "(\<forall>j \<in> fst ` set rest. (m(k \<mapsto> v)) j = None) \<longleftrightarrow>
          k \<notin> fst ` set rest \<and> (\<forall>j \<in> fst ` set rest. m j = None)" by auto
      with True absorb [of rest] show "(words = option_words rest \<and> proper_options rest \<and>
          (\<forall>j \<in> fst ` set rest. (m(k \<mapsto> v)) j = None) \<and>
          opts = options_of (m(k \<mapsto> v) ++ map_of rest)) =
        (words = option_words rest \<and> proper_options ((k, v) # rest) \<and>
          (\<forall>j \<in> fst ` set ((k, v) # rest). m j = None) \<and>
          opts = options_of (m ++ map_of ((k, v) # rest)))"
        by (auto simp: proper_options_def)
    qed
    also have "\<dots> \<longleftrightarrow> (\<exists>os. k # v # words = option_words os \<and> proper_options os \<and>
        (\<forall>j \<in> fst ` set os. m j = None) \<and> opts = options_of (m ++ map_of os))"
      unfolding option_words_Cons by blast
    finally show ?thesis .
  qed
qed

lemma check_options_missing:
  "po_journal_root opts = None \<or> po_revision_root opts = None \<or> po_transaction_root opts = None \<or>
     po_socket_path opts = None \<or> po_allowed_user_id opts = None \<Longrightarrow>
   check_options n command opts = invalid_config ''Required daemon options are missing.''"
  by (cases "po_journal_root opts"; cases "po_revision_root opts"; cases "po_transaction_root opts";
      cases "po_socket_path opts"; cases "po_allowed_user_id opts") (simp_all add: check_options_def)

text \<open>What the checks after the loop accept.\<close>

lemma check_options_iff:
  "cr_status (check_options n command (options_of (map_of os))) = Config_parsed \<and>
     cr_config (check_options n command (options_of (map_of os))) = Some c \<longleftrightarrow>
   means_config os c \<and> proper_config n c"
proof -
  have swap: "paths_overlap (parent_path p) q = paths_overlap q (parent_path p)" for p q
    by (auto simp: paths_overlap_def)
  let ?r = "check_options n command (options_of (map_of os))"
  show ?thesis
  proof (cases "\<exists>j r t p u. map_of os ''--journal-root'' = Some j \<and> map_of os ''--revision-root'' = Some r \<and>
      map_of os ''--transaction-root'' = Some t \<and> map_of os ''--socket-path'' = Some p \<and>
      map_of os ''--allowed-uid'' = Some u")
    case False
    then have "map_of os ''--journal-root'' = None \<or> map_of os ''--revision-root'' = None \<or>
        map_of os ''--transaction-root'' = None \<or> map_of os ''--socket-path'' = None \<or>
        map_of os ''--allowed-uid'' = None" by (meson option.exhaust_sel)
    then have "?r = invalid_config ''Required daemon options are missing.''" "\<not> means_config os c"
      by (auto intro: check_options_missing simp: options_of_def means_config_def)
    then show ?thesis by (simp add: invalid_config_def)
  next
    case True
    then obtain j r t p u where some: "map_of os ''--journal-root'' = Some j"
      "map_of os ''--revision-root'' = Some r" "map_of os ''--transaction-root'' = Some t"
      "map_of os ''--socket-path'' = Some p" "map_of os ''--allowed-uid'' = Some u" by blast
    let ?c = "\<lparr>dc_journal_root = j, dc_revision_root = r, dc_transaction_root = t, dc_socket_path = p,
      dc_allowed_user_id = decimal_value u,
      dc_allowed_group_id = map_option decimal_value (map_of os ''--allowed-gid'')\<rparr>"
    have means: "means_config os c \<longleftrightarrow> c = ?c"
      by (cases c) (auto simp: means_config_def some)
    have "cr_status ?r = Config_parsed \<and> cr_config ?r = Some c \<longleftrightarrow> c = ?c \<and> proper_config n ?c"
      by (auto simp: check_options_def options_of_def some proper_config_def config_roots_def
          config_directories_def safe_absolute_proper invalid_config_def swap)
    with means show ?thesis by blast
  qed
qed

definition command_name :: "daemon_command \<Rightarrow> string option" where
  "command_name command =
     (case command of Command_check_configuration \<Rightarrow> Some ''check-config''
      | Command_serve_read_only \<Rightarrow> Some ''serve-read-only'' | _ \<Rightarrow> None)"

lemma command_name_inject: "command_name a = Some x \<Longrightarrow> command_name b = Some x \<Longrightarrow> a = b"
  by (auto simp: command_name_def split: daemon_command.splits)

lemma parse_command:
  "command_name command = Some name \<Longrightarrow> parse_daemon_arguments n (name # rest) =
     (case parse_options rest no_options of
        Inl m \<Rightarrow> invalid_config m | Inr opts \<Rightarrow> check_options n command opts)"
  by (cases command) (auto simp: parse_daemon_arguments_def command_name_def)

lemma parse_no_command:
  assumes "\<And>name rest command. arguments = name # rest \<Longrightarrow> command_name command \<noteq> Some name"
  shows "cr_status (parse_daemon_arguments n arguments) \<noteq> Config_parsed"
proof -
  have "arguments = [] \<or> hd arguments \<noteq> ''check-config'' \<and> hd arguments \<noteq> ''serve-read-only''"
    using assms [of "hd arguments" "tl arguments" Command_check_configuration]
      assms [of "hd arguments" "tl arguments" Command_serve_read_only]
    by (cases arguments) (auto simp: command_name_def)
  then show ?thesis by (auto simp: parse_daemon_arguments_def invalid_config_def)
qed

lemma check_options_command:
  "cr_status (check_options n command opts) = Config_parsed \<Longrightarrow> cr_command (check_options n command opts) = command"
  by (auto simp: check_options_def invalid_config_def Let_def split: option.splits if_splits)

lemma arguments_documented:
  "(\<exists>r. parse_daemon_arguments n arguments = r \<and> cr_status r = Config_parsed \<and> cr_command r = command \<and>
      cr_config r = Some c) \<longleftrightarrow>
   (\<exists>name os. arguments = name # option_words os \<and> command_name command = Some name \<and>
      proper_options os \<and> means_config os c \<and> proper_config n c)"
  (is "?parsed \<longleftrightarrow> ?documented")
proof (cases "\<exists>name rest given. arguments = name # rest \<and> command_name given = Some name")
  case False
  then have "cr_status (parse_daemon_arguments n arguments) \<noteq> Config_parsed"
    by (intro parse_no_command) blast
  with False show ?thesis by blast
next
  case True
  then obtain name rest given where args: "arguments = name # rest" "command_name given = Some name" by blast
  have options: "parse_options rest no_options = Inr opts \<longleftrightarrow>
      (\<exists>os. rest = option_words os \<and> proper_options os \<and> opts = options_of (map_of os))" for opts
    using parse_options_iff [of rest Map.empty opts] by (simp add: no_options_empty)
  let ?r = "parse_daemon_arguments n arguments"
  have "?parsed \<longleftrightarrow> command = given \<and> (\<exists>opts. parse_options rest no_options = Inr opts \<and>
      cr_status (check_options n given opts) = Config_parsed \<and> cr_config (check_options n given opts) = Some c)"
  proof (cases "parse_options rest no_options")
    case (Inl m)
    then have "?r = invalid_config m" by (simp add: args(1) parse_command [OF args(2)])
    with Inl show ?thesis by (simp add: invalid_config_def)
  next
    case (Inr opts)
    then have "?r = check_options n given opts" by (simp add: args(1) parse_command [OF args(2)])
    with Inr check_options_command [of n given opts] show ?thesis by auto
  qed
  also have "\<dots> \<longleftrightarrow> command = given \<and> (\<exists>os. rest = option_words os \<and> proper_options os \<and>
      means_config os c \<and> proper_config n c)"
    unfolding options using check_options_iff [of n given _ c] by blast
  also have "\<dots> \<longleftrightarrow> ?documented"
  proof
    assume "?documented"
    then obtain name' os where "arguments = name' # option_words os" "command_name command = Some name'"
      "proper_options os" "means_config os c" "proper_config n c" by blast
    with args command_name_inject [of command name given]
    show "command = given \<and> (\<exists>os. rest = option_words os \<and> proper_options os \<and>
        means_config os c \<and> proper_config n c)" by blast
  qed (use args in blast)
  finally show ?thesis .
qed


end
