(* ===== verification/Daemon_Sandbox.thy ===== *)
theory Daemon_Sandbox
  imports Daemon_Config
begin

text \<open>
  The daemon's confinement (\<open>daemon/process_sandbox.cpp\<close>): the policy made from a
  configuration, its validation, and its application through the \<open>SandboxSystem\<close>
  interface. The interface is a parameter of \<open>apply_daemon_sandbox\<close>; the calls made to it
  are part of the result.
\<close>

section \<open>Policies\<close>

record unveil_rule =
  ur_path :: string
  ur_permissions :: string

record sandbox_policy =
  sp_unveil_rules :: "unveil_rule list"
  sp_promises :: string

datatype sandbox_status =
  Sandbox_applied | Sandbox_unsupported | Sandbox_invalid_policy | Sandbox_unveil_failed
| Sandbox_unveil_lock_failed | Sandbox_pledge_failed

record sandbox_result =
  sb_status :: sandbox_status
  sb_event_id :: string
  sb_message :: string

definition can_continue :: "sandbox_result \<Rightarrow> bool" where
  "can_continue r \<longleftrightarrow> sb_status r = Sandbox_applied \<or> sb_status r = Sandbox_unsupported"

definition enforced :: "sandbox_result \<Rightarrow> bool" where
  "enforced r \<longleftrightarrow> sb_status r = Sandbox_applied"

definition private_socket_promises :: string where
  "private_socket_promises = ''stdio rpath wpath cpath fattr flock unix proc exec''"

definition delegated_socket_promises :: string where
  "delegated_socket_promises = ''stdio rpath wpath cpath fattr chown flock unix proc exec''"

definition valid_permissions :: "string \<Rightarrow> bool" where
  "valid_permissions permissions \<longleftrightarrow>
     permissions \<noteq> [] \<and> length permissions \<le> 4 \<and>
     list_all (\<lambda>p. p = CHR ''r'' \<or> p = CHR ''w'' \<or> p = CHR ''x'' \<or> p = CHR ''c'') permissions \<and>
     distinct permissions"

text \<open>
  \<open>valid_path\<close> is the check that \<open>config.cpp\<close> calls \<open>safe_absolute_path\<close>;
  the loop over the set of paths asks that they are pairwise different as paths.
\<close>

fun disjoint_paths :: "unveil_rule list \<Rightarrow> bool" where
  "disjoint_paths [] = True"
| "disjoint_paths (r # rs) =
     (list_all (\<lambda>other. \<not> paths_overlap (ur_path r) (ur_path other)) rs \<and> disjoint_paths rs)"

definition valid_policy :: "sandbox_policy \<Rightarrow> bool" where
  "valid_policy policy \<longleftrightarrow>
     (let rules = sp_unveil_rules policy
      in (sp_promises policy = private_socket_promises \<or> sp_promises policy = delegated_socket_promises) \<and>
         length rules = 6 \<and>
         ur_permissions (rules ! 0) = ''rwc'' \<and> ur_permissions (rules ! 1) = ''r'' \<and>
         ur_permissions (rules ! 2) = ''rwc'' \<and> ur_permissions (rules ! 3) = ''rwc'' \<and>
         path_equal (ur_path (rules ! 4)) ''/sbin/pfctl'' \<and> ur_permissions (rules ! 4) = ''x'' \<and>
         path_equal (ur_path (rules ! 5)) ''/dev/pf'' \<and> ur_permissions (rules ! 5) = ''rw'' \<and>
         list_all (\<lambda>r. safe_absolute_path (ur_path r) \<and> valid_permissions (ur_permissions r)) rules \<and>
         distinct (map (\<lambda>r. path_elements (ur_path r)) rules) \<and>
         disjoint_paths (take 4 rules))"

definition make_read_only_daemon_sandbox_policy :: "daemon_config \<Rightarrow> sandbox_policy" where
  "make_read_only_daemon_sandbox_policy c =
     \<lparr>sp_unveil_rules =
        [\<lparr>ur_path = dc_journal_root c, ur_permissions = ''rwc''\<rparr>,
         \<lparr>ur_path = dc_revision_root c, ur_permissions = ''r''\<rparr>,
         \<lparr>ur_path = dc_transaction_root c, ur_permissions = ''rwc''\<rparr>,
         \<lparr>ur_path = parent_path (dc_socket_path c), ur_permissions = ''rwc''\<rparr>,
         \<lparr>ur_path = ''/sbin/pfctl'', ur_permissions = ''x''\<rparr>,
         \<lparr>ur_path = ''/dev/pf'', ur_permissions = ''rw''\<rparr>],
      sp_promises = (if dc_allowed_group_id c \<noteq> None then delegated_socket_promises
        else private_socket_promises)\<rparr>"

section \<open>Application\<close>

text \<open>The platform's answers: whether it has a sandbox, and the result of each call.\<close>

record sandbox_system =
  ss_supported :: bool
  ss_unveil :: "unveil_rule option \<Rightarrow> int"
  ss_pledge :: "string \<Rightarrow> int"

text \<open>\<open>Lock_unveil\<close> is the call with two null pointers.\<close>

datatype sandbox_call = Unveil unveil_rule | Lock_unveil | Pledge string

fun unveil_all :: "sandbox_system \<Rightarrow> unveil_rule list \<Rightarrow> bool \<times> sandbox_call list" where
  "unveil_all s [] = (True, [])"
| "unveil_all s (r # rs) =
     (if ss_unveil s (Some r) \<noteq> 0 then (False, [Unveil r])
      else (case unveil_all s rs of (ok, calls) \<Rightarrow> (ok, Unveil r # calls)))"

definition apply_daemon_sandbox ::
  "sandbox_policy \<Rightarrow> sandbox_system \<Rightarrow> sandbox_result \<times> sandbox_call list" where
  "apply_daemon_sandbox policy s =
     (if \<not> valid_policy policy
      then (\<lparr>sb_status = Sandbox_invalid_policy, sb_event_id = ''GH-SBX-1002'',
              sb_message = ''Daemon sandbox policy is outside safe bounds.''\<rparr>, [])
      else if \<not> ss_supported s
      then (\<lparr>sb_status = Sandbox_unsupported, sb_event_id = ''GH-SBX-1001'',
              sb_message = ''Daemon process sandbox is unavailable on this platform.''\<rparr>, [])
      else (case unveil_all s (sp_unveil_rules policy) of (unveiled, calls) \<Rightarrow>
        if \<not> unveiled
        then (\<lparr>sb_status = Sandbox_unveil_failed, sb_event_id = ''GH-SBX-2001'',
                sb_message = ''Daemon filesystem sandbox could not be applied.''\<rparr>, calls)
        else if ss_unveil s None \<noteq> 0
        then (\<lparr>sb_status = Sandbox_unveil_lock_failed, sb_event_id = ''GH-SBX-2002'',
                sb_message = ''Daemon filesystem sandbox could not be locked.''\<rparr>, calls @ [Lock_unveil])
        else if ss_pledge s (sp_promises policy) \<noteq> 0
        then (\<lparr>sb_status = Sandbox_pledge_failed, sb_event_id = ''GH-SBX-2003'',
                sb_message = ''Daemon system-call sandbox could not be applied.''\<rparr>,
              calls @ [Lock_unveil, Pledge (sp_promises policy)])
        else (\<lparr>sb_status = Sandbox_applied, sb_event_id = ''GH-SBX-0001'',
                sb_message = ''Daemon process sandbox applied and locked.''\<rparr>,
              calls @ [Lock_unveil, Pledge (sp_promises policy)])))"

text \<open>
  \<open>NativeSandboxSystem\<close>: the two system calls on OpenBSD; elsewhere there is no sandbox and
  each call fails.
\<close>

definition native_sandbox :: "bool \<Rightarrow> (unveil_rule option \<Rightarrow> int) \<Rightarrow> (string \<Rightarrow> int) \<Rightarrow> sandbox_system" where
  "native_sandbox openbsd unveil pledge =
     \<lparr>ss_supported = openbsd,
      ss_unveil = (\<lambda>rule. if openbsd then unveil rule else - 1),
      ss_pledge = (\<lambda>promises. if openbsd then pledge promises else - 1)\<rparr>"

text \<open>A daemon on another system runs on, unconfined and saying so.\<close>

lemma native_sandbox_elsewhere:
  assumes "valid_policy policy"
  shows "can_continue (fst (apply_daemon_sandbox policy (native_sandbox False unveil pledge)))"
    "\<not> enforced (fst (apply_daemon_sandbox policy (native_sandbox False unveil pledge)))"
    "snd (apply_daemon_sandbox policy (native_sandbox False unveil pledge)) = []"
  using assms by (simp_all add: apply_daemon_sandbox_def native_sandbox_def can_continue_def enforced_def)

section \<open>What is confined\<close>

text \<open>
  The confinement a policy asks for: \<open>unveil\<close> grants an operation on a path if the
  deepest rule at or above the path has the permission.
\<close>

definition rules_above :: "sandbox_policy \<Rightarrow> string list \<Rightarrow> unveil_rule list" where
  "rules_above policy elements =
     filter (\<lambda>r. prefix (path_elements (ur_path r)) elements) (sp_unveil_rules policy)"

definition grants :: "sandbox_policy \<Rightarrow> char \<Rightarrow> string list \<Rightarrow> bool" where
  "grants policy permission elements \<longleftrightarrow>
     (\<exists>r \<in> set (rules_above policy elements). permission \<in> set (ur_permissions r) \<and>
        (\<forall>other \<in> set (rules_above policy elements).
           length (path_elements (ur_path other)) \<le> length (path_elements (ur_path r))))"

lemma disjoint_paths_sorted:
  "disjoint_paths rs \<longleftrightarrow> sorted_wrt (\<lambda>p q. \<not> paths_overlap p q) (map ur_path rs)"
  by (induction rs) (auto simp: list_all_iff)

lemma unveil_all_ok: "unveil_all s rs = (True, calls) \<Longrightarrow> calls = map Unveil rs"
  by (induction rs arbitrary: calls) (auto split: if_splits prod.splits)

lemma unveil_all_iff: "fst (unveil_all s rs) \<longleftrightarrow> (\<forall>r \<in> set rs. ss_unveil s (Some r) = 0)"
  by (induction rs) (auto split: prod.splits)

lemma prefix_unveil_all: "unveil_all s rs = (ok, calls) \<Longrightarrow> prefix calls (map Unveil rs)"
  by (induction rs arbitrary: ok calls) (auto split: if_splits prod.splits)

lemma fixed_paths:
  "path_elements ''/sbin/pfctl'' = [''/'', ''sbin'', ''pfctl'']" "path_elements ''/dev/pf'' = [''/'', ''dev'', ''pf'']"
  "safe_absolute_path ''/sbin/pfctl''" "safe_absolute_path ''/dev/pf''"
  by code_simp+

text \<open>The socket directory of an accepted configuration is a proper path itself.\<close>

lemma socket_directory_proper:
  assumes "proper_config n c"
  shows "proper_path (parent_path (dc_socket_path c))"
proof -
  let ?p = "dc_socket_path c"
  have p: "proper_path ?p" "path_filename ?p \<noteq> []" using assms by (simp_all add: proper_config_def)
  then have rel: "is_absolute ?p" "relative_part ?p \<noteq> []"
    by (auto simp: proper_path_def path_filename_def)
  note parent = parent_elements [OF rel]
  have "path_elements (parent_path ?p) \<noteq> [''/'']"
  proof
    assume root: "path_elements (parent_path ?p) = [''/'']"
    have "\<not> paths_overlap (dc_journal_root c) (parent_path ?p)"
      using assms by (auto simp: proper_config_def config_directories_def config_roots_def)
    moreover have "is_absolute (dc_journal_root c)"
      using assms by (simp add: proper_config_def config_roots_def proper_path_def)
    ultimately show False
      using root by (simp add: paths_overlap_def is_same_or_ancestor_prefix path_elements_def)
  qed
  moreover have "dot_free (path_elements (parent_path ?p))"
    using p(1) by (auto simp: proper_path_def dot_free_def parent(1) dest: in_set_butlastD)
  moreover have "CHR 0x00 \<notin> set (parent_path ?p)" using p(1) parent(3) by (auto simp: proper_path_def)
  ultimately show ?thesis using parent(2) by (simp add: proper_path_def)
qed

text \<open>No configured directory is one of the two fixed paths.\<close>

definition avoids_fixed :: "daemon_config \<Rightarrow> bool" where
  "avoids_fixed c \<longleftrightarrow>
     list_all (\<lambda>d. \<not> path_equal d ''/sbin/pfctl'' \<and> \<not> path_equal d ''/dev/pf'') (config_directories c)"

lemma made_policy_valid:
  assumes "proper_config n c"
  shows "valid_policy (make_read_only_daemon_sandbox_policy c) \<longleftrightarrow> avoids_fixed c"
proof -
  have proper: "list_all proper_path (config_directories c)"
    using assms socket_directory_proper [OF assms] by (simp add: proper_config_def config_directories_def)
  have different: "path_elements p \<noteq> path_elements q" if "\<not> paths_overlap p q" for p q
    using that by (auto simp: paths_overlap_def is_same_or_ancestor_prefix)
  have apart: "sorted_wrt (\<lambda>p q. \<not> paths_overlap p q) (config_directories c)"
    using assms by (simp add: proper_config_def)
  then have distinct: "distinct (map path_elements (config_directories c))"
    by (auto simp: config_directories_def config_roots_def dest!: different)
  show ?thesis
    using proper apart distinct
    by (auto simp: valid_policy_def make_read_only_daemon_sandbox_policy_def disjoint_paths_sorted
        valid_permissions_def path_equal_def fixed_paths safe_absolute_proper [symmetric] avoids_fixed_def
        config_directories_def config_roots_def)
qed

text \<open>
  For an accepted configuration the sandbox is in force exactly when the platform has one, no
  configured directory is \<open>/sbin/pfctl\<close> or \<open>/dev/pf\<close>, and every call succeeded;
  then the calls were the six rules in their order, the lock, and the promises last, so that nothing
  can be unveiled any more. Whatever happens, the calls are a prefix of this sequence.
\<close>

theorem sandbox_enforced_iff:
  assumes "proper_config n c"
    and "apply_daemon_sandbox (make_read_only_daemon_sandbox_policy c) s = (r, calls)"
  shows "let policy = make_read_only_daemon_sandbox_policy c;
       full = map Unveil (sp_unveil_rules policy) @ [Lock_unveil, Pledge (sp_promises policy)]
     in prefix calls full \<and> (enforced r \<longrightarrow> calls = full) \<and>
        (enforced r \<longleftrightarrow> ss_supported s \<and> avoids_fixed c \<and>
           (\<forall>rule \<in> set (sp_unveil_rules policy). ss_unveil s (Some rule) = 0) \<and>
           ss_unveil s None = 0 \<and> ss_pledge s (sp_promises policy) = 0)"
proof -
  let ?policy = "make_read_only_daemon_sandbox_policy c"
  obtain ok done_calls where all: "unveil_all s (sp_unveil_rules ?policy) = (ok, done_calls)" by fastforce
  have "ok \<longleftrightarrow> (\<forall>rule \<in> set (sp_unveil_rules ?policy). ss_unveil s (Some rule) = 0)"
    using unveil_all_iff [of s "sp_unveil_rules ?policy"] all by simp
  then show ?thesis
    using assms(2) all prefix_unveil_all [OF all] unveil_all_ok [of s _ done_calls] made_policy_valid [OF assms(1)]
    by (auto simp: apply_daemon_sandbox_def Let_def enforced_def split: if_splits intro: prefix_order.trans)
qed


definition sample_config :: daemon_config where
  "sample_config =
     \<lparr>dc_journal_root = ''/var/log/gatehold'', dc_revision_root = ''/var/db/gatehold/revisions'',
      dc_transaction_root = ''/var/db/gatehold/transactions'', dc_socket_path = ''/var/run/gatehold/api.sock'',
      dc_allowed_user_id = 1000, dc_allowed_group_id = Some 100\<rparr>"

lemma sample_config_proper: "proper_config 104 sample_config"
  by code_simp

lemma sandbox_enforced_iff_witness:
  "case apply_daemon_sandbox (make_read_only_daemon_sandbox_policy sample_config)
      \<lparr>ss_supported = True, ss_unveil = (\<lambda>_. 0), ss_pledge = (\<lambda>_. 0)\<rparr> of
     (r, calls) \<Rightarrow> enforced r \<and> length calls = 8"
proof -
  obtain r calls where run: "apply_daemon_sandbox (make_read_only_daemon_sandbox_policy sample_config)
      \<lparr>ss_supported = True, ss_unveil = (\<lambda>_. 0), ss_pledge = (\<lambda>_. 0)\<rparr> = (r, calls)" by fastforce
  have "avoids_fixed sample_config" by code_simp
  with sandbox_enforced_iff [OF sample_config_proper run] have "enforced r \<and> length calls = 8"
    by (auto simp: Let_def make_read_only_daemon_sandbox_policy_def)
  then show ?thesis by (simp only: run prod.case)
qed


end
