(* ===== verification/Daemon_Startup.thy ===== *)
theory Daemon_Startup
  imports Local_Service Daemon_Sandbox
begin

text \<open>
  What the daemon checks before it serves: the preflight of its four directories
  (\<open>filesystem_preflight.cpp\<close>) and the lock that keeps a second instance out
  (\<open>process_lock.cpp\<close>). \<open>std::filesystem::canonical\<close> is a parameter. The theorems
  say that a passed preflight has established what the stores and the listener rely on, and that
  neither check changes anything but the lock file.
\<close>

section \<open>Directory preflight\<close>

datatype directory_role = Role_none | Role_journal | Role_revisions | Role_transactions | Role_socket_parent

definition role_string :: "directory_role \<Rightarrow> string" where
  "role_string r = (case r of Role_none \<Rightarrow> ''none'' | Role_journal \<Rightarrow> ''journal'' | Role_revisions \<Rightarrow> ''revisions''
     | Role_transactions \<Rightarrow> ''transactions'' | Role_socket_parent \<Rightarrow> ''socket-parent'')"

datatype filesystem_status =
  Filesystem_ready | Filesystem_unsafe_directory | Filesystem_socket_path_occupied | Filesystem_io_error

record filesystem_result =
  fs_status :: filesystem_status
  fs_failed_role :: directory_role
  fs_journal_root_ready :: bool
  fs_event_id :: string
  fs_message :: string

definition filesystem_ok :: "filesystem_result \<Rightarrow> bool" where
  "filesystem_ok r \<longleftrightarrow> fs_status r = Filesystem_ready"

record expectation =
  ex_role :: directory_role
  ex_path :: string
  ex_socket_parent :: bool

definition filesystem_failure ::
  "filesystem_status \<Rightarrow> directory_role \<Rightarrow> bool \<Rightarrow> string \<Rightarrow> string \<Rightarrow> filesystem_result" where
  "filesystem_failure status r ready event_id m =
     \<lparr>fs_status = status, fs_failed_role = r, fs_journal_root_ready = ready,
      fs_event_id = event_id, fs_message = m\<rparr>"

text \<open>\<open>S_IWGRP | S_IWOTH\<close> is octal 022, \<open>S_IXGRP\<close> octal 010.\<close>

definition directory_permitted :: "expectation \<Rightarrow> nat \<Rightarrow> node \<Rightarrow> bool" where
  "directory_permitted expected euid n \<longleftrightarrow>
     owner n = euid \<and> mode n AND 18 = 0 \<and>
     \<not> (ex_socket_parent expected \<and> (mode n AND 16 \<noteq> 0 \<or> mode n AND 7 \<noteq> 0))"

definition group_admitted :: "expectation \<Rightarrow> u32 \<Rightarrow> daemon_config \<Rightarrow> node \<Rightarrow> bool" where
  "group_admitted expected socket_mode config n \<longleftrightarrow>
     \<not> (ex_socket_parent expected \<and> socket_mode = delegated_mode \<and>
        (case dc_allowed_group_id config of
           None \<Rightarrow> True | Some g \<Rightarrow> group n \<noteq> g \<or> mode n AND 8 = 0))"

text \<open>The directory again through a descriptor that follows no link.\<close>

definition reopen_directory :: "expectation \<Rightarrow> bool \<Rightarrow> node \<Rightarrow> filesystem_result io" where
  "reopen_directory expected ready before = do {
     reopened \<leftarrow> open_directory (ex_path expected);
     if \<not> reopened
     then return (filesystem_failure Filesystem_io_error (ex_role expected) ready ''GH-DMN-2002''
       ''Daemon directory could not be opened without following links.'')
     else do {
       status \<leftarrow> stat_directory (ex_path expected);
       closed \<leftarrow> close_descriptor;
       return (if map_option inode status \<noteq> Some (inode before) \<or> \<not> closed
         then filesystem_failure Filesystem_io_error (ex_role expected) ready ''GH-DMN-2002''
           ''Daemon directory identity changed during preflight.''
         else \<lparr>fs_status = Filesystem_ready, fs_failed_role = Role_none, fs_journal_root_ready = ready,
           fs_event_id = ''GH-DMN-0003'', fs_message = ''Daemon directory passed filesystem preflight.''\<rparr>)
     }
   }"

definition inspect_directory ::
  "expectation \<Rightarrow> bool \<Rightarrow> u32 \<Rightarrow> daemon_config \<Rightarrow> nat \<Rightarrow> node \<Rightarrow> filesystem_result io" where
  "inspect_directory expected ready socket_mode config euid before =
     (if \<not> directory_permitted expected euid before
      then return (filesystem_failure Filesystem_unsafe_directory (ex_role expected) ready
        ''GH-DMN-1003'' ''Daemon directory ownership or permissions are unsafe.'')
      else if \<not> group_admitted expected socket_mode config before
      then return (filesystem_failure Filesystem_unsafe_directory (ex_role expected) ready
        ''GH-DMN-1003'' ''Controller socket directory does not permit the configured group.'')
      else reopen_directory expected ready before)"

definition check_directory ::
  "(string \<Rightarrow> string option) \<Rightarrow> expectation \<Rightarrow> bool \<Rightarrow> u32 \<Rightarrow> daemon_config \<Rightarrow> nat \<Rightarrow> filesystem_result io" where
  "check_directory canonical expected ready socket_mode config euid = do {
     canonical_path \<leftarrow> canonical_call canonical (ex_path expected);
     status \<leftarrow> (case canonical_path of
         None \<Rightarrow> return None
       | Some c \<Rightarrow> (if path_equal c (ex_path expected) then stat_directory (ex_path expected) else return None));
     (case status of
        None \<Rightarrow> return (filesystem_failure Filesystem_unsafe_directory (ex_role expected) ready
          ''GH-DMN-1003'' ''Daemon directory is missing, aliased, or not a directory.'')
      | Some before \<Rightarrow>
          (if kind before \<noteq> Directory
           then return (filesystem_failure Filesystem_unsafe_directory (ex_role expected) ready
             ''GH-DMN-1003'' ''Daemon directory is missing, aliased, or not a directory.'')
           else inspect_directory expected ready socket_mode config euid before))
   }"

fun check_directories ::
  "(string \<Rightarrow> string option) \<Rightarrow> bool \<Rightarrow> u32 \<Rightarrow> daemon_config \<Rightarrow> nat \<Rightarrow> expectation list \<Rightarrow> filesystem_result io" where
  "check_directories canonical ready socket_mode config euid [] =
     return \<lparr>fs_status = Filesystem_ready, fs_failed_role = Role_none, fs_journal_root_ready = True,
       fs_event_id = ''GH-DMN-0005'', fs_message = ''Daemon filesystem configuration is valid.''\<rparr>"
| "check_directories canonical ready socket_mode config euid (expected # rest) = do {
     checked \<leftarrow> check_directory canonical expected ready socket_mode config euid;
     if \<not> filesystem_ok checked then return checked
     else check_directories canonical (ready \<or> ex_role expected = Role_journal) socket_mode config euid rest
   }"

definition expectations :: "daemon_config \<Rightarrow> expectation list" where
  "expectations config =
     [\<lparr>ex_role = Role_journal, ex_path = dc_journal_root config, ex_socket_parent = False\<rparr>,
      \<lparr>ex_role = Role_revisions, ex_path = dc_revision_root config, ex_socket_parent = False\<rparr>,
      \<lparr>ex_role = Role_transactions, ex_path = dc_transaction_root config, ex_socket_parent = False\<rparr>,
      \<lparr>ex_role = Role_socket_parent, ex_path = parent_path (dc_socket_path config), ex_socket_parent = True\<rparr>]"

definition validate_daemon_filesystem_configuration ::
  "(string \<Rightarrow> string option) \<Rightarrow> daemon_config \<Rightarrow> u32 \<Rightarrow> nat \<Rightarrow> filesystem_result io" where
  "validate_daemon_filesystem_configuration canonical config socket_mode euid =
     check_directories canonical False socket_mode config euid (expectations config)"

definition config_socket :: "daemon_config \<Rightarrow> path" where
  "config_socket config = (parent_path (dc_socket_path config), path_filename (dc_socket_path config))"

definition preflight_daemon_filesystem ::
  "(string \<Rightarrow> string option) \<Rightarrow> daemon_config \<Rightarrow> u32 \<Rightarrow> nat \<Rightarrow> filesystem_result io" where
  "preflight_daemon_filesystem canonical config socket_mode euid = do {
     configured \<leftarrow> validate_daemon_filesystem_configuration canonical config socket_mode euid;
     if \<not> filesystem_ok configured then return configured
     else do {
       existing \<leftarrow> stat_entry (config_socket config);
       e \<leftarrow> saved_errno;
       return (if existing \<noteq> None
         then filesystem_failure Filesystem_socket_path_occupied Role_socket_parent True ''GH-DMN-1004''
           ''Controller socket path is already occupied.''
         else if e \<noteq> ENOENT
         then filesystem_failure Filesystem_io_error Role_socket_parent True ''GH-DMN-2002''
           ''Controller socket path availability could not be verified.''
         else \<lparr>fs_status = Filesystem_ready, fs_failed_role = Role_none, fs_journal_root_ready = True,
           fs_event_id = ''GH-DMN-0003'', fs_message = ''All daemon directories passed filesystem preflight.''\<rparr>)
     }
   }"

section \<open>The process lock\<close>

datatype lock_status = Lock_acquired | Lock_already_running | Lock_unsafe_lock_file | Lock_io_error

text \<open>The lock is its open descriptor; owning it is what the result carries.\<close>

record lock_result =
  lk_status :: lock_status
  lk_owned :: bool
  lk_event_id :: string
  lk_message :: string

definition lock_ok :: "lock_result \<Rightarrow> bool" where
  "lock_ok r \<longleftrightarrow> lk_status r = Lock_acquired \<and> lk_owned r"

definition lock_filename :: string where
  "lock_filename = ''.gateholdd.lock''"

definition lock_failure :: "lock_status \<Rightarrow> string \<Rightarrow> string \<Rightarrow> lock_result" where
  "lock_failure status event_id m =
     \<lparr>lk_status = status, lk_owned = False, lk_event_id = event_id, lk_message = m\<rparr>"

text \<open>The permission bits are exactly octal 0600.\<close>

definition safe_lock_file :: "nat \<Rightarrow> node \<Rightarrow> bool" where
  "safe_lock_file uid n \<longleftrightarrow>
     kind n = Regular_file \<and> owner n = uid \<and> links n = 1 \<and> mode n AND 511 = 384"

definition confirm_lock :: "path \<Rightarrow> nat \<Rightarrow> node \<Rightarrow> lock_result io" where
  "confirm_lock p uid reopened = do {
     named \<leftarrow> stat_entry p;
     closed \<leftarrow> close_descriptor;
     if \<not> (case named of None \<Rightarrow> False | Some n \<Rightarrow> safe_lock_file uid n \<and> inode n = inode reopened) \<or> \<not> closed
     then do {
       flock;
       close_descriptor;
       return (lock_failure Lock_io_error ''GH-DMN-2003''
         ''Daemon process-lock identity changed during acquisition.'')
     }
     else return \<lparr>lk_status = Lock_acquired, lk_owned = True, lk_event_id = ''GH-DMN-0004'',
       lk_message = ''Daemon process exclusivity lock acquired.''\<rparr>
   }"

text \<open>\<open>EWOULDBLOCK\<close> and \<open>EAGAIN\<close> are one number on the supported platforms.\<close>

definition hold_lock :: "path \<Rightarrow> nat \<Rightarrow> lock_result io" where
  "hold_lock p uid = do {
     reopened \<leftarrow> stat_entry p;
     (case reopened of
        None \<Rightarrow> do {
          close_descriptor; close_descriptor;
          return (lock_failure Lock_unsafe_lock_file ''GH-DMN-1006'' ''Daemon process-lock entry is unsafe.'')
        }
      | Some n \<Rightarrow>
          (if \<not> safe_lock_file uid n then do {
             close_descriptor; close_descriptor;
             return (lock_failure Lock_unsafe_lock_file ''GH-DMN-1006'' ''Daemon process-lock entry is unsafe.'')
           }
           else do {
             locked \<leftarrow> flock;
             e \<leftarrow> saved_errno;
             if \<not> locked then do {
               close_descriptor; close_descriptor;
               return (if e = EAGAIN
                 then lock_failure Lock_already_running ''GH-DMN-1005''
                   ''Another daemon instance owns the process lock.''
                 else lock_failure Lock_io_error ''GH-DMN-2003'' ''Daemon process lock could not be acquired.'')
             }
             else confirm_lock p uid n
           }))
   }"

definition take_lock :: "path \<Rightarrow> nat \<Rightarrow> lock_result io" where
  "take_lock p uid = do {
     available \<leftarrow> open_or_create p 384;
     e \<leftarrow> saved_errno;
     if \<not> available then do {
       close_descriptor;
       return (if e = ELOOP \<or> e = EISDIR
         then lock_failure Lock_unsafe_lock_file ''GH-DMN-1006'' ''Daemon process-lock entry is unsafe.''
         else lock_failure Lock_io_error ''GH-DMN-2003'' ''Daemon process lock could not be opened.'')
     }
     else hold_lock p uid
   }"

definition acquire_lock :: "string \<Rightarrow> nat \<Rightarrow> lock_result io" where
  "acquire_lock root uid = do {
     directory \<leftarrow> open_directory root;
     if \<not> directory
     then return (lock_failure Lock_io_error ''GH-DMN-2003''
       ''Daemon process-lock directory could not be opened safely.'')
     else do {
       status \<leftarrow> stat_directory root;
       if \<not> (case status of None \<Rightarrow> False | Some n \<Rightarrow> safe_directory uid n) then do {
         close_descriptor;
         return (lock_failure Lock_unsafe_lock_file ''GH-DMN-1006'' ''Daemon process-lock directory is unsafe.'')
       }
       else do {
         existing \<leftarrow> stat_entry (root, lock_filename);
         e \<leftarrow> saved_errno;
         if (case existing of None \<Rightarrow> False | Some n \<Rightarrow> \<not> safe_lock_file uid n) then do {
           close_descriptor;
           return (lock_failure Lock_unsafe_lock_file ''GH-DMN-1006'' ''Daemon process-lock entry is unsafe.'')
         }
         else if existing = None \<and> e \<noteq> ENOENT then do {
           close_descriptor;
           return (lock_failure Lock_io_error ''GH-DMN-2003''
             ''Daemon process-lock entry could not be inspected.'')
         }
         else take_lock (root, lock_filename) uid
       }
     }
   }"

section \<open>What the preflight establishes\<close>

text \<open>Nothing has happened but questions to the system.\<close>

definition asked :: "world \<Rightarrow> world \<Rightarrow> bool" where
  "asked w0 w \<longleftrightarrow> (\<exists>rs e. w = settle rs e w0)"

lemma asked_refl [simp]: "asked w w"
  unfolding asked_def by (rule exI [of _ "script w"], rule exI [of _ "last_errno w"]) simp

lemma asked_settle: "asked w0 w \<Longrightarrow> asked w0 (settle rs e w)"
  by (auto simp: asked_def) blast

lemma asked_sel:
  "asked w0 w \<Longrightarrow> dirs w = dirs w0 \<and> entries w = entries w0 \<and> actions w = actions w0 \<and> same_setting w0 w"
  by (auto simp: asked_def)

text \<open>A directory of the daemon that is what the preflight asks for.\<close>

definition sound_directory ::
  "(string \<Rightarrow> string option) \<Rightarrow> expectation \<Rightarrow> u32 \<Rightarrow> daemon_config \<Rightarrow> nat \<Rightarrow> world \<Rightarrow> bool" where
  "sound_directory canonical expected socket_mode config euid w \<longleftrightarrow>
     (\<exists>c n. canonical (ex_path expected) = Some c \<and> path_equal c (ex_path expected) \<and>
        dirs w (ex_path expected) = Some n \<and> kind n = Directory \<and>
        directory_permitted expected euid n \<and> group_admitted expected socket_mode config n)"

definition prepared_system ::
  "(string \<Rightarrow> string option) \<Rightarrow> daemon_config \<Rightarrow> u32 \<Rightarrow> nat \<Rightarrow> world \<Rightarrow> bool" where
  "prepared_system canonical config socket_mode euid w \<longleftrightarrow>
     (\<forall>x \<in> set (expectations config). sound_directory canonical x socket_mode config euid w) \<and>
     entries w (config_socket config) = None"

lemma filesystem_failure_not_ok [simp]:
  "filesystem_ok (filesystem_failure status x ready i m) \<longleftrightarrow> status = Filesystem_ready"
  "fs_journal_root_ready (filesystem_failure status x ready i m) = ready"
  by (simp_all add: filesystem_ok_def filesystem_failure_def)

lemma wp_asked_plain: "asked w0 w \<Longrightarrow> (\<And>ok w'. asked w0 w' \<Longrightarrow> Q ok w') \<Longrightarrow> wp plain_call Q w"
  by (rule wp_plain_call) (auto intro: asked_settle)

lemma wp_asked_directory:
  assumes "asked w0 w" "\<And>w'. asked w0 w' \<Longrightarrow> Q None w'" "\<And>n w'. asked w0 w' \<Longrightarrow> dirs w0 p = Some n \<Longrightarrow> Q (Some n) w'"
  shows "wp (stat_directory p) Q w"
  by (rule wp_stat_directory) (use assms asked_sel [OF assms(1)] in \<open>auto intro: asked_settle\<close>)

lemma wp_asked_open:
  assumes "asked w0 w" "\<And>ok w'. asked w0 w' \<Longrightarrow> Q ok w'"
  shows "wp (open_directory p) Q w"
  by (rule wp_open_directory) (use assms in \<open>auto intro: asked_settle\<close>)

lemma wp_asked_canonical:
  assumes "asked w0 w" "\<And>w'. asked w0 w' \<Longrightarrow> Q None w'" "\<And>w'. asked w0 w' \<Longrightarrow> Q (canonical p) w'"
  shows "wp (canonical_call canonical p) Q w"
proof -
  have step: "asked w0 (w\<lparr>script := rs\<rparr>)" for rs
    using asked_settle [OF assms(1), where rs = rs and e = "last_errno w"] by simp
  show ?thesis
    unfolding canonical_call_def
    by (simp, rule wp_next_outcome) (auto intro: assms(2,3) step split: outcome.split)
qed

lemma wp_reopen_directory:
  assumes "asked w0 w" "\<And>r w'. asked w0 w' \<Longrightarrow> fs_journal_root_ready r = ready \<Longrightarrow> Q r w'"
  shows "wp (reopen_directory expected ready before) Q w"
  unfolding reopen_directory_def
  by (auto intro!: wp_asked_open [OF assms(1)] wp_asked_directory wp_asked_plain assms(2) split: if_splits)

lemma wp_check_directory:
  assumes "asked w0 w"
    and "\<And>r w'. asked w0 w' \<Longrightarrow> fs_journal_root_ready r = ready \<Longrightarrow>
      (filesystem_ok r \<Longrightarrow> sound_directory canonical expected socket_mode config euid w0) \<Longrightarrow> Q r w'"
  shows "wp (check_directory canonical expected ready socket_mode config euid) Q w"
proof -
  have failed: "Q (filesystem_failure status x ready i m) w'" if "asked w0 w'" "status \<noteq> Filesystem_ready" for status x i m w'
    using that by (intro assms(2)) auto
  have inspect: "wp (inspect_directory expected ready socket_mode config euid n) Q w'"
    if "asked w0 w'" "dirs w0 (ex_path expected) = Some n" "kind n = Directory"
      "canonical (ex_path expected) = Some c" "path_equal c (ex_path expected)" for n c w'
    using that unfolding inspect_directory_def
    by (auto intro!: failed wp_reopen_directory assms(2) simp: sound_directory_def)
  show ?thesis
    unfolding check_directory_def
  proof (subst wp_bind, rule wp_asked_canonical [OF assms(1)], goal_cases)
    case (1 w')
    then show ?case by (simp add: failed)
  next
    case (2 w')
    then show ?case
      by (cases "canonical (ex_path expected)")
        (auto simp: failed intro!: wp_asked_directory [OF 2] inspect)
  qed
qed

text \<open>The walk over the expectations; those in \<open>seen\<close> have passed.\<close>

definition journal_sound ::
  "(string \<Rightarrow> string option) \<Rightarrow> u32 \<Rightarrow> daemon_config \<Rightarrow> nat \<Rightarrow> expectation list \<Rightarrow> world \<Rightarrow> bool" where
  "journal_sound canonical socket_mode config euid xs w \<longleftrightarrow>
     (\<exists>x \<in> set xs. ex_role x = Role_journal \<and> sound_directory canonical x socket_mode config euid w)"

lemma wp_check_directories:
  assumes "asked w0 w" "\<forall>x \<in> set seen. sound_directory canonical x socket_mode config euid w0"
    and "ready \<longrightarrow> (\<exists>x \<in> set seen. ex_role x = Role_journal)" "\<exists>x \<in> set (seen @ xs). ex_role x = Role_journal"
    and "\<And>r w'. asked w0 w' \<Longrightarrow>
      (filesystem_ok r \<Longrightarrow> \<forall>x \<in> set (seen @ xs). sound_directory canonical x socket_mode config euid w0) \<Longrightarrow>
      (fs_journal_root_ready r \<Longrightarrow> journal_sound canonical socket_mode config euid (seen @ xs) w0) \<Longrightarrow> Q r w'"
  shows "wp (check_directories canonical ready socket_mode config euid xs) Q w"
  using assms
proof (induction xs arbitrary: ready seen w)
  case Nil
  then show ?case by (auto simp: journal_sound_def)
next
  case (Cons x xs)
  show ?case
    unfolding check_directories.simps
  proof (subst wp_bind, rule wp_check_directory [OF Cons.prems(1)], goal_cases)
    case (1 r w')
    show ?case
    proof (cases "filesystem_ok r")
      case True
      with 1(3) have sound: "sound_directory canonical x socket_mode config euid w0" by simp
      have "wp (check_directories canonical (ready \<or> ex_role x = Role_journal) socket_mode config euid xs) Q w'"
        by (rule Cons.IH [OF 1(1), of "seen @ [x]"]) (use Cons.prems sound in auto)
      then show ?thesis using True by simp
    next
      case False
      have "journal_sound canonical socket_mode config euid (seen @ x # xs) w0" if "fs_journal_root_ready r"
        using that 1(2) Cons.prems(2,3) by (auto simp: journal_sound_def)
      with False 1(1) show ?thesis by (auto intro: Cons.prems(5))
    qed
  qed
qed

lemma wp_preflight:
  "wp (preflight_daemon_filesystem canonical config socket_mode euid) (\<lambda>r w'. asked w w' \<and>
     (filesystem_ok r \<longrightarrow> prepared_system canonical config socket_mode euid w) \<and>
     (fs_journal_root_ready r \<longrightarrow> journal_sound canonical socket_mode config euid (expectations config) w)) w"
  unfolding preflight_daemon_filesystem_def validate_daemon_filesystem_configuration_def
proof (subst wp_bind, rule wp_check_directories [where seen = "[]" and ?w0.0 = w], goal_cases)
  case 4
  then show ?case by (simp add: expectations_def)
next
  case (5 r w')
  show ?case
  proof (cases "filesystem_ok r")
    case False
    with 5 show ?thesis by simp
  next
    case True
    with 5(2) have sound: "\<forall>x \<in> set (expectations config). sound_directory canonical x socket_mode config euid w" by simp
    then have journal: "journal_sound canonical socket_mode config euid (expectations config) w"
      by (simp add: journal_sound_def expectations_def)
    from asked_sel [OF 5(1)] have same: "entries w' = entries w" by simp
    show ?thesis
      by (simp only: True simp_thms if_False wp_bind, rule wp_stat_entry_errno)
        (use sound journal same 5(1) in \<open>auto simp: prepared_system_def intro: asked_settle\<close>)
  qed
qed simp_all

text \<open>Without faults the converse holds.\<close>

lemma wp_next_outcome_calm [simp]: "script w = [] \<Longrightarrow> wp next_outcome Q w = Q Fine w"
  by (simp add: wp_def next_outcome_def)

lemma calm_check_directory:
  assumes "script w = []" "sound_directory canonical expected socket_mode config euid w"
    and "\<And>r. filesystem_ok r \<Longrightarrow> Q r w"
  shows "wp (check_directory canonical expected ready socket_mode config euid) Q w"
  using assms(1,2) assms(3) [of "\<lparr>fs_status = Filesystem_ready, fs_failed_role = Role_none,
    fs_journal_root_ready = ready, fs_event_id = ''GH-DMN-0003'',
    fs_message = ''Daemon directory passed filesystem preflight.''\<rparr>"]
  by (auto simp: sound_directory_def check_directory_def canonical_call_def stat_directory_def inspect_directory_def
      reopen_directory_def open_directory_def plain_call_def filesystem_ok_def)

lemma calm_check_directories:
  assumes "script w = []" "\<forall>x \<in> set xs. sound_directory canonical x socket_mode config euid w"
    and "\<And>r. filesystem_ok r \<Longrightarrow> Q r w"
  shows "wp (check_directories canonical ready socket_mode config euid xs) Q w"
  using assms(2)
proof (induction xs arbitrary: ready)
  case Nil
  then show ?case by (simp add: assms(3) filesystem_ok_def)
next
  case (Cons x xs)
  then show ?case
    unfolding check_directories.simps
    by (subst wp_bind, intro calm_check_directory [OF assms(1)]) auto
qed

lemma calm_preflight:
  assumes "script w = []" "prepared_system canonical config socket_mode euid w"
  shows "wp (preflight_daemon_filesystem canonical config socket_mode euid) (\<lambda>r w'. filesystem_ok r) w"
  unfolding preflight_daemon_filesystem_def validate_daemon_filesystem_configuration_def
  using assms
  by (subst wp_bind, intro calm_check_directories)
    (auto simp: prepared_system_def stat_entry_def set_errno_def saved_errno_def, simp_all add: filesystem_ok_def)

text \<open>
  A passed preflight has established what the daemon relies on: each of its four directories is,
  under its own name and through no link, a directory of the daemon's user that nobody else can write,
  the socket directory admits the configured group and nobody else, and the socket's name is free.
  Without faults of the system it passes in every such system. It changes nothing, and it calls the
  journal usable only when the journal directory has passed.
\<close>

theorem preflight_establishes:
  assumes "run_state (preflight_daemon_filesystem canonical config socket_mode euid) w = (r, w')"
  shows "(filesystem_ok r \<longrightarrow> prepared_system canonical config socket_mode euid w) \<and>
     (script w = [] \<and> prepared_system canonical config socket_mode euid w \<longrightarrow> filesystem_ok r) \<and>
     (fs_journal_root_ready r \<longrightarrow> (\<exists>d. dirs w (dc_journal_root config) = Some d \<and> safe_directory euid d)) \<and>
     entries w' = entries w \<and> actions w' = actions w"
proof -
  from wpD [OF wp_preflight assms] have "asked w w'"
    and sound: "filesystem_ok r \<longrightarrow> prepared_system canonical config socket_mode euid w"
    and journal: "fs_journal_root_ready r \<longrightarrow> journal_sound canonical socket_mode config euid (expectations config) w"
    by auto
  moreover have "script w = [] \<and> prepared_system canonical config socket_mode euid w \<longrightarrow> filesystem_ok r"
    using wpD [OF calm_preflight assms] by blast
  moreover have "journal_sound canonical socket_mode config euid (expectations config) w \<longrightarrow>
      (\<exists>d. dirs w (dc_journal_root config) = Some d \<and> safe_directory euid d)"
    by (auto simp: journal_sound_def expectations_def sound_directory_def directory_permitted_def safe_directory_def)
  ultimately show ?thesis using asked_sel by blast
qed

section \<open>What the process lock establishes\<close>

text \<open>Between \<open>w0\<close> and \<open>w\<close> at most the lock file \<open>p\<close> was created.\<close>

definition lock_only :: "path \<Rightarrow> world \<Rightarrow> world \<Rightarrow> bool" where
  "lock_only p w0 w \<longleftrightarrow>
     same_setting w0 w \<and> only_touches {p} w0 w \<and> actions w = actions w0 \<and>
     (entries w p = entries w0 p \<or>
      entries w0 p = None \<and> (\<exists>n. entries w p = Some n \<and> kind n = Regular_file \<and> content n = []))"

lemma lock_only_refl [simp]: "lock_only p w w"
  by (simp add: lock_only_def)

lemma lock_only_settle [simp]:
  "lock_only p w0 (w\<lparr>script := rs\<rparr>) = lock_only p w0 w" "lock_only p w0 (w\<lparr>last_errno := e\<rparr>) = lock_only p w0 w"
  by (simp_all add: lock_only_def)

lemma lock_failure_sel [simp]:
  "lk_status (lock_failure status i m) = status" "\<not> lk_owned (lock_failure status i m)"
  "\<not> lock_ok (lock_failure status i m)"
  by (simp_all add: lock_ok_def lock_failure_def)

definition lock_outcome :: "path \<Rightarrow> nat \<Rightarrow> world \<Rightarrow> lock_result \<Rightarrow> world \<Rightarrow> bool" where
  "lock_outcome p uid w0 r w \<longleftrightarrow>
     lock_only p w0 w \<and> (lock_ok r \<longrightarrow> (\<exists>n. entries w p = Some n \<and> safe_lock_file uid n)) \<and>
     (lk_status r = Lock_acquired \<longleftrightarrow> lk_owned r)"

lemma lock_outcome_failure [simp]:
  "lock_outcome p uid w0 (lock_failure status i m) w \<longleftrightarrow> lock_only p w0 w \<and> status \<noteq> Lock_acquired"
  by (auto simp: lock_outcome_def)

lemma wp_lock_plain: "lock_only p w0 w \<Longrightarrow> (\<And>ok w'. lock_only p w0 w' \<Longrightarrow> entries w' = entries w \<Longrightarrow> Q ok w') \<Longrightarrow>
    wp plain_call Q w"
  by (rule wp_plain_call) simp

lemma wp_confirm_lock:
  assumes "lock_only p w0 w"
  shows "wp (confirm_lock p uid n) (lock_outcome p uid w0) w"
  unfolding confirm_lock_def
proof (subst wp_bind, rule wp_stat_entry, goal_cases)
  case (1 rs e)
  then show ?case using assms by (auto intro!: wp_lock_plain)
next
  case (2 rs e m)
  then show ?case
    using assms
    by (simp only: wp_bind, intro wp_lock_plain [where p = p and ?w0.0 = w0])
      (auto intro!: wp_lock_plain [where p = p and ?w0.0 = w0], auto simp: lock_outcome_def)
qed

lemma wp_take_lock:
  assumes "lock_only p w0 w"
  shows "wp (take_lock p uid) (lock_outcome p uid w0) w"
proof -
  have fresh: "lock_only p w0 (created p m (settle rs e w))" if "entries w p = None" for m rs e
    using assms that by (auto simp: lock_only_def created_def)
  have hold: "wp (hold_lock p uid) (lock_outcome p uid w0) w1" if "lock_only p w0 w1" for w1
    using that unfolding hold_lock_def
    by (auto intro!: wp_stat_entry wp_lock_plain lock_outcome_failure wp_confirm_lock split: if_splits)
  show ?thesis
    unfolding take_lock_def
    by (simp only: wp_bind, rule wp_open_or_create)
      (use assms fresh in \<open>auto intro!: wp_lock_plain lock_outcome_failure hold simp: saved_errno_def\<close>)
qed

lemma wp_acquire_lock:
  "wp (acquire_lock root uid) (\<lambda>r w'. lock_outcome (root, lock_filename) uid w r w' \<and>
     (lock_ok r \<longrightarrow> (\<exists>d. dirs w root = Some d \<and> safe_directory uid d))) w"
proof -
  let ?p = "(root, lock_filename)"
  show ?thesis
    unfolding acquire_lock_def
    by (auto intro!: wp_open_directory wp_stat_directory wp_stat_entry wp_take_lock
        wp_lock_plain [where p = ?p and ?w0.0 = w] simp: saved_errno_def)
qed

text \<open>
  The process lock touches nothing but its own file, which it creates empty or leaves as it is. When
  the lock is reported acquired, the transaction root is a directory of the daemon that nobody else
  can write, and the locked name refers to a private regular file of the daemon with a single link.
\<close>

theorem process_lock_sound:
  assumes "run_state (acquire_lock root uid) w = (r, w')"
  shows "(\<forall>p. p \<noteq> (root, lock_filename) \<longrightarrow> entries w' p = entries w p) \<and>
     (entries w (root, lock_filename) \<noteq> None \<longrightarrow> entries w' = entries w) \<and>
     (lock_ok r \<longrightarrow>
        (\<exists>d. dirs w root = Some d \<and> safe_directory uid d) \<and>
        (\<exists>n. entries w' (root, lock_filename) = Some n \<and> safe_lock_file uid n)) \<and>
     (lk_status r = Lock_acquired \<longleftrightarrow> lk_owned r)"
proof -
  from wpD [OF wp_acquire_lock assms]
  have "lock_outcome (root, lock_filename) uid w r w'"
    and dir: "lock_ok r \<longrightarrow> (\<exists>d. dirs w root = Some d \<and> safe_directory uid d)" by auto
  then have only: "lock_only (root, lock_filename) w w'"
    and rest: "lock_ok r \<longrightarrow> (\<exists>n. entries w' (root, lock_filename) = Some n \<and> safe_lock_file uid n)"
      "lk_status r = Lock_acquired \<longleftrightarrow> lk_owned r"
    by (auto simp: lock_outcome_def)
  from only have other: "\<forall>p. p \<noteq> (root, lock_filename) \<longrightarrow> entries w' p = entries w p"
    by (auto simp: lock_only_def only_touches_def)
  have "entries w' = entries w" if "entries w (root, lock_filename) \<noteq> None"
    using only other that by (intro ext) (metis lock_only_def)
  with other dir rest show ?thesis by blast
qed

section \<open>Concrete runs\<close>

lemma preflight_establishes_witness:
  "prepared_system Some
     \<lparr>dc_journal_root = ''/j'', dc_revision_root = ''/r'', dc_transaction_root = ''/t'',
      dc_socket_path = ''/run/s'', dc_allowed_user_id = 0, dc_allowed_group_id = None\<rparr> 384 0 idle_world"
proof -
  let ?config = "\<lparr>dc_journal_root = ''/j'', dc_revision_root = ''/r'', dc_transaction_root = ''/t'',
      dc_socket_path = ''/run/s'', dc_allowed_user_id = 0, dc_allowed_group_id = None\<rparr>"
  obtain r w' where run: "run_state (preflight_daemon_filesystem Some ?config 384 0) idle_world = (r, w')" by fastforce
  have "filesystem_ok (fst (run_state (preflight_daemon_filesystem Some ?config 384 0) idle_world))" by code_simp
  with preflight_establishes [OF run] run show ?thesis by simp
qed

lemma process_lock_sound_witness:
  "\<exists>n. entries (snd (run_state (acquire_lock ''/t'' 0) idle_world)) (''/t'', lock_filename) = Some n \<and> safe_lock_file 0 n"
proof -
  obtain r w' where run: "run_state (acquire_lock ''/t'' 0) idle_world = (r, w')" by fastforce
  have "lock_ok (fst (run_state (acquire_lock ''/t'' 0) idle_world))" by code_simp
  with process_lock_sound [OF run] run show ?thesis by simp
qed

end
