(* ===== verification/Signal_Bridge.thy ===== *)
theory Signal_Bridge
  imports Journal
begin

text \<open>
  The signal bridge (\<open>posix_signal_stop_bridge.cpp\<close>): a thread that waits for SIGINT and
  SIGTERM and turns the first one into a stop request. Threads are numbers with a mask of blocked
  signals each; the worker runs by being woken, so that its interleaving with its owner is a sequence
  of steps. A \<open>stop\<close> that waits for a worker which is never woken again is the value
  \<open>None\<close>. The invariants are proved by rule induction over every interleaving of any number
  of bridges of one process.
\<close>

section \<open>Results and state\<close>

datatype bridge_status =
  Bridge_started | Bridge_stopped | Bridge_already_started | Bridge_already_stopped
| Bridge_globally_active | Bridge_not_started | Bridge_wrong_thread | Bridge_audit_failed
| Bridge_mask_failed | Bridge_thread_start_failed | Bridge_wait_failed | Bridge_wake_failed
| Bridge_mask_restore_failed

record bridge_result =
  bg_status :: bridge_status
  bg_event_id :: string
  bg_message :: string

definition bridge_ok :: "bridge_result \<Rightarrow> bool" where
  "bridge_ok r \<longleftrightarrow> bg_status r \<in> {Bridge_started, Bridge_stopped}"

definition bridge_result_of :: "bridge_status \<Rightarrow> string \<Rightarrow> string \<Rightarrow> bridge_result" where
  "bridge_result_of status event_id m = \<lparr>bg_status = status, bg_event_id = event_id, bg_message = m\<rparr>"

datatype bridge_phase = Phase_idle | Phase_active | Phase_stopped

text \<open>The worker thread: none to join, in \<open>sigwait\<close>, or returned and not yet joined.\<close>

datatype worker = No_worker | Waiting | Returned

type_synonym thread = nat

record bridge =
  br_phase :: bridge_phase
  br_previous_mask :: "nat set"
  br_owner :: thread
  br_worker :: worker
  br_worker_stop :: bool
  br_stop_requested :: bool
  br_received :: nat
  br_wait_error :: nat
  br_signal_audited :: bool
  br_owns_claim :: bool

definition new_bridge :: bridge where
  "new_bridge = \<lparr>br_phase = Phase_idle, br_previous_mask = {}, br_owner = 0, br_worker = No_worker,
     br_worker_stop = False, br_stop_requested = False, br_received = 0, br_wait_error = 0,
     br_signal_audited = True, br_owns_claim = False\<rparr>"

text \<open>What the bridges of one process share: the flag, and the masks of its threads.\<close>

record signals =
  sg_claim :: bool
  sg_masks :: "thread \<Rightarrow> nat set"

definition SIGINT :: nat where "SIGINT = 2"
definition SIGTERM :: nat where "SIGTERM = 15"

definition termination_signal_set :: "nat set" where
  "termination_signal_set = {SIGINT, SIGTERM}"

definition signal_name :: "nat \<Rightarrow> string" where
  "signal_name n = (if n = SIGINT then ''SIGINT'' else if n = SIGTERM then ''SIGTERM'' else ''UNKNOWN'')"

definition signal_event :: "string \<Rightarrow> severity \<Rightarrow> string \<Rightarrow> string \<Rightarrow> string \<Rightarrow> event" where
  "signal_event timestamp sev event_id outcome m =
     \<lparr>ev_timestamp = timestamp, ev_severity = sev, ev_event_id = event_id,
      ev_component = ''posix-signal-stop-bridge'', ev_operation_id = ''process-lifetime'',
      ev_action = ''process.signal-stop'', ev_outcome = outcome, ev_message = m, ev_attributes = []\<rparr>"

definition bridge_append :: "string \<Rightarrow> (string \<Rightarrow> event) \<Rightarrow> bool io" where
  "bridge_append root build = do {
     timestamp \<leftarrow> read_clock;
     j \<leftarrow> journal_append root (build timestamp);
     return (journal_ok j)
   }"

definition release_claim :: "signals \<times> bridge \<Rightarrow> signals \<times> bridge" where
  "release_claim s = (case s of (sg, b) \<Rightarrow>
     (if br_owns_claim b then (sg\<lparr>sg_claim := False\<rparr>, b\<lparr>br_owns_claim := False\<rparr>) else (sg, b)))"

section \<open>Start\<close>

text \<open>The worker is started; a failure puts the mask back.\<close>

definition start_worker :: "string \<Rightarrow> thread \<Rightarrow> signals \<Rightarrow> bridge \<Rightarrow> (bridge_result \<times> signals \<times> bridge) io" where
  "start_worker root t sg b = do {
     started \<leftarrow> plain_call;
     if \<not> started then do {
       restored \<leftarrow> plain_call;
       let sg = (if restored then sg\<lparr>sg_masks := (sg_masks sg)(t := br_previous_mask b)\<rparr> else sg);
       bridge_append root (\<lambda>ts. signal_event ts Error ''GH-SIG-2003'' ''failed''
         ''Signal-waiting thread could not be started.'');
       let s = release_claim (sg, b);
       return (if \<not> restored
         then bridge_result_of Bridge_mask_restore_failed ''GH-SIG-2006''
           ''The signal-waiting thread failed and the prior signal mask could not be restored.''
         else bridge_result_of Bridge_thread_start_failed ''GH-SIG-2003''
           ''Signal-waiting thread could not be started.'', s)
     }
     else return (bridge_result_of Bridge_started ''GH-SIG-0001''
       ''Synchronous SIGINT and SIGTERM monitoring started.'',
       sg, b\<lparr>br_worker := Waiting, br_phase := Phase_active\<rparr>)
   }"

definition bridge_start :: "string \<Rightarrow> thread \<Rightarrow> signals \<Rightarrow> bridge \<Rightarrow> (bridge_result \<times> signals \<times> bridge) io" where
  "bridge_start root t sg b =
     (if br_phase b = Phase_active
      then return (bridge_result_of Bridge_already_started ''GH-SIG-1001''
        ''Signal stop bridge is already active.'', sg, b)
      else if br_phase b = Phase_stopped
      then return (bridge_result_of Bridge_already_stopped ''GH-SIG-1002''
        ''Signal stop bridge is one-shot and has already stopped.'', sg, b)
      else if sg_claim sg
      then return (bridge_result_of Bridge_globally_active ''GH-SIG-1003''
        ''Another signal stop bridge is already active in this process.'', sg, b)
      else do {
        let sg = sg\<lparr>sg_claim := True\<rparr>;
        let b = b\<lparr>br_owns_claim := True\<rparr>;
        startup_audited \<leftarrow> bridge_append root (\<lambda>ts. signal_event ts Info ''GH-SIG-0001'' ''starting''
          ''Synchronous SIGINT and SIGTERM monitoring is starting.'');
        if \<not> startup_audited
        then return (bridge_result_of Bridge_audit_failed ''GH-SIG-2001''
          ''Signal monitoring did not start because startup audit failed.'', release_claim (sg, b))
        else do {
          masked \<leftarrow> plain_call;
          if \<not> masked then do {
            bridge_append root (\<lambda>ts. signal_event ts Error ''GH-SIG-2002'' ''failed''
              ''SIGINT and SIGTERM could not be blocked.'');
            return (bridge_result_of Bridge_mask_failed ''GH-SIG-2002''
              ''SIGINT and SIGTERM could not be blocked.'', release_claim (sg, b))
          }
          else start_worker root t
            (sg\<lparr>sg_masks := (sg_masks sg)(t := sg_masks sg t \<union> termination_signal_set)\<rparr>)
            (b\<lparr>br_previous_mask := sg_masks sg t, br_owner := t\<rparr>)
        }
      })"

section \<open>The worker\<close>

text \<open>\<open>sigwait\<close> returns an error number or one of the two signals.\<close>

datatype wake = Wake_error nat | Wake_signal nat

definition worker_wake :: "string \<Rightarrow> wake \<Rightarrow> bridge \<Rightarrow> bridge io" where
  "worker_wake root x b =
     (if br_worker b \<noteq> Waiting then return b
      else case x of
        Wake_error e \<Rightarrow> do {
          logged \<leftarrow> bridge_append root (\<lambda>ts. signal_event ts Error ''GH-SIG-2004'' ''failed''
            ''Synchronous signal waiting failed.'');
          return (b\<lparr>br_wait_error := e, br_stop_requested := True, br_signal_audited := logged,
            br_worker := Returned\<rparr>)
        }
      | Wake_signal n \<Rightarrow>
          (if br_worker_stop b then return (b\<lparr>br_worker := Returned\<rparr>)
           else if br_received b = 0 then do {
             logged \<leftarrow> bridge_append root (\<lambda>ts. add_attribute ''signal'' (signal_name n)
               (signal_event ts Info ''GH-SIG-0002'' ''stop-requested''
                 ''A termination signal requested cooperative service stop.''));
             return (b\<lparr>br_received := n, br_stop_requested := True, br_signal_audited := logged\<rparr>)
           }
           else return b))"

fun worker_wakes :: "string \<Rightarrow> wake list \<Rightarrow> bridge \<Rightarrow> bridge io" where
  "worker_wakes root [] b = return b"
| "worker_wakes root (x # xs) b = do { b \<leftarrow> worker_wake root x b; worker_wakes root xs b }"

section \<open>Stop and destruction\<close>

text \<open>
  The worker is told to stop and woken with a signal of its own; \<open>join\<close> then waits for it. The
  list holds what else wakes it until then. \<open>None\<close>: it is never woken, and \<open>join\<close>
  does not return.
\<close>

definition join_worker :: "string \<Rightarrow> wake list \<Rightarrow> bridge \<Rightarrow> (bool \<times> bridge option) io" where
  "join_worker root xs b = do {
     woken \<leftarrow> plain_call;
     b \<leftarrow> worker_wakes root (xs @ (if woken then [Wake_signal SIGTERM] else [])) (b\<lparr>br_worker_stop := True\<rparr>);
     return (woken, if br_worker b = Waiting then None else Some (b\<lparr>br_worker := No_worker\<rparr>))
   }"

definition finish_stop ::
  "string \<Rightarrow> thread \<Rightarrow> bool \<Rightarrow> signals \<Rightarrow> bridge \<Rightarrow> (bridge_result \<times> signals \<times> bridge) io" where
  "finish_stop root t woken sg b = do {
     restored \<leftarrow> plain_call;
     let sg = (if restored then sg\<lparr>sg_masks := (sg_masks sg)(t := br_previous_mask b)\<rparr> else sg);
     let s = release_claim (sg, b\<lparr>br_phase := Phase_stopped\<rparr>);
     if \<not> woken then do {
       bridge_append root (\<lambda>ts. signal_event ts Error ''GH-SIG-2005'' ''failed''
         ''Signal-waiting thread could not be woken for shutdown.'');
       return (bridge_result_of Bridge_wake_failed ''GH-SIG-2005''
         ''Signal-waiting thread could not be woken for shutdown.'', s)
     }
     else if \<not> restored then do {
       bridge_append root (\<lambda>ts. signal_event ts Error ''GH-SIG-2006'' ''failed''
         ''The starting thread signal mask could not be restored.'');
       return (bridge_result_of Bridge_mask_restore_failed ''GH-SIG-2006''
         ''The starting thread signal mask could not be restored.'', s)
     }
     else if br_wait_error b \<noteq> 0
     then return (bridge_result_of Bridge_wait_failed ''GH-SIG-2004'' ''Synchronous signal waiting failed.'', s)
     else do {
       stopped_audited \<leftarrow> bridge_append root (\<lambda>ts. signal_event ts Info ''GH-SIG-0003'' ''stopped''
         ''Synchronous SIGINT and SIGTERM monitoring stopped.'');
       return (if \<not> stopped_audited
         then bridge_result_of Bridge_audit_failed ''GH-SIG-2007''
           ''Signal monitoring stopped, but shutdown audit failed.''
         else bridge_result_of Bridge_stopped ''GH-SIG-0003''
           ''Synchronous SIGINT and SIGTERM monitoring stopped.'', s)
     }
   }"

definition bridge_stop ::
  "string \<Rightarrow> thread \<Rightarrow> wake list \<Rightarrow> signals \<Rightarrow> bridge \<Rightarrow> (bridge_result \<times> signals \<times> bridge) option io" where
  "bridge_stop root t xs sg b =
     (if br_phase b = Phase_idle
      then return (Some (bridge_result_of Bridge_not_started ''GH-SIG-1004''
        ''Signal stop bridge has not started.'', sg, b))
      else if br_phase b = Phase_stopped
      then return (Some (bridge_result_of Bridge_already_stopped ''GH-SIG-1002''
        ''Signal stop bridge has already stopped.'', sg, b))
      else if br_owner b \<noteq> t then do {
        bridge_append root (\<lambda>ts. signal_event ts Warning ''GH-SIG-1005'' ''rejected''
          ''Signal bridge cleanup was requested from the wrong thread.'');
        return (Some (bridge_result_of Bridge_wrong_thread ''GH-SIG-1005''
          ''Signal stop bridge must be stopped by its starting thread.'', sg, b))
      }
      else do {
        (woken, joined) \<leftarrow> join_worker root xs b;
        (case joined of
           None \<Rightarrow> return None
         | Some b \<Rightarrow> do { r \<leftarrow> finish_stop root t woken sg b; return (Some r) })
      })"

text \<open>The destructor joins the worker if there is one, and puts the mask back on the owner's thread.\<close>

definition bridge_destroy ::
  "string \<Rightarrow> thread \<Rightarrow> wake list \<Rightarrow> signals \<Rightarrow> bridge \<Rightarrow> (signals \<times> bridge) option io" where
  "bridge_destroy root t xs sg b =
     (if br_phase b \<noteq> Phase_active then return (Some (sg, b))
      else do {
        (woken, joined) \<leftarrow> (if br_worker b = No_worker then return (True, Some b) else join_worker root xs b);
        (case joined of
           None \<Rightarrow> return None
         | Some b \<Rightarrow>
             (if br_owner b = t then do {
                restored \<leftarrow> plain_call;
                let sg = (if restored then sg\<lparr>sg_masks := (sg_masks sg)(t := br_previous_mask b)\<rparr> else sg);
                return (Some (release_claim (sg, b\<lparr>br_phase := Phase_stopped\<rparr>)))
              }
              else return (Some (release_claim (sg, b\<lparr>br_phase := Phase_stopped\<rparr>)))))
      })"

section \<open>One bridge\<close>

text \<open>
  What holds of a bridge between two steps: it owns the process-wide flag exactly while it is active,
  it has a worker exactly while it is active, and it has requested a stop exactly if a signal was
  received or waiting failed.
\<close>

definition proper_wake :: "wake \<Rightarrow> bool" where
  "proper_wake x = (case x of Wake_error e \<Rightarrow> e \<noteq> 0 | Wake_signal n \<Rightarrow> n \<in> termination_signal_set)"

definition stop_justified :: "bridge \<Rightarrow> bool" where
  "stop_justified b \<longleftrightarrow>
     (br_stop_requested b \<longleftrightarrow> br_received b \<noteq> 0 \<or> br_wait_error b \<noteq> 0) \<and>
     br_received b \<in> insert 0 termination_signal_set"

definition bridge_good :: "bridge \<Rightarrow> bool" where
  "bridge_good b \<longleftrightarrow>
     stop_justified b \<and> (br_owns_claim b \<longleftrightarrow> br_phase b = Phase_active) \<and>
     (br_worker b = No_worker \<longleftrightarrow> br_phase b \<noteq> Phase_active) \<and>
     (br_phase b \<noteq> Phase_stopped \<longrightarrow> \<not> br_worker_stop b) \<and>
     (br_worker b = Returned \<longrightarrow> br_wait_error b \<noteq> 0)"

lemma stop_justified_update [simp]:
  "stop_justified (b\<lparr>br_phase := p\<rparr>) = stop_justified b" "stop_justified (b\<lparr>br_previous_mask := m\<rparr>) = stop_justified b"
  "stop_justified (b\<lparr>br_owner := t\<rparr>) = stop_justified b" "stop_justified (b\<lparr>br_worker := k\<rparr>) = stop_justified b"
  "stop_justified (b\<lparr>br_worker_stop := x\<rparr>) = stop_justified b"
  "stop_justified (b\<lparr>br_owns_claim := x\<rparr>) = stop_justified b"
  "stop_justified (b\<lparr>br_signal_audited := x\<rparr>) = stop_justified b"
  by (simp_all add: stop_justified_def)

lemma termination_signals [simp]: "n \<in> termination_signal_set \<Longrightarrow> n \<noteq> 0"
  by (auto simp: termination_signal_set_def SIGINT_def SIGTERM_def)

lemma sigterm [simp]: "proper_wake (Wake_signal SIGTERM)"
  by (simp add: proper_wake_def termination_signal_set_def)

lemma new_bridge_good [simp]: "bridge_good new_bridge" "\<not> br_owns_claim new_bridge"
  by (simp_all add: bridge_good_def stop_justified_def new_bridge_def)

lemma wp_bridge_append: "(\<And>ok w'. Q ok w') \<Longrightarrow> wp (bridge_append root build) Q w"
  by (simp add: wpI)

lemma wp_answer: "(\<And>ok w'. Q ok w') \<Longrightarrow> wp plain_call Q w"
  by (simp add: wpI)

text \<open>A start changes nothing, or it takes the free flag and either keeps it or gives it back.\<close>

lemma wp_bridge_start:
  assumes "bridge_good b"
    and "\<And>r. Q (r, sg, b) w"
    and "\<And>r sg' b' w'. bridge_good b' \<Longrightarrow> \<not> sg_claim sg \<Longrightarrow> \<not> br_owns_claim b \<Longrightarrow>
      sg_claim sg' = br_owns_claim b' \<Longrightarrow> br_phase b = Phase_idle \<Longrightarrow> Q (r, sg', b') w'"
  shows "wp (bridge_start root t sg b) Q w"
proof (cases "br_phase b = Phase_idle \<and> \<not> sg_claim sg")
  case True
  with assms(1) have idle: "\<not> br_owns_claim b" "br_worker b = No_worker" "stop_justified b" "\<not> br_worker_stop b"
    by (auto simp: bridge_good_def)
  have worker: "wp (start_worker root t sg' b') Q w'"
    if "br_owns_claim b'" "br_phase b' = Phase_idle" "br_worker b' = No_worker" "stop_justified b'"
      "\<not> br_worker_stop b'" "sg_claim sg'" for sg' b' w'
    using True idle(1) that unfolding start_worker_def
    by (auto simp: release_claim_def Let_def bridge_good_def wp_if intro!: wp_answer wp_bridge_append assms(3))
  show ?thesis
    using True idle unfolding bridge_start_def
    by (auto simp: release_claim_def Let_def bridge_good_def wp_if
        intro!: wp_answer wp_bridge_append assms(3) worker)
next
  case False
  then show ?thesis
    by (cases "br_phase b") (auto simp: bridge_start_def intro: assms(2))
qed

text \<open>The worker keeps phase and flag, and never takes a stop request back.\<close>

definition woken_from :: "bridge \<Rightarrow> bridge \<Rightarrow> bool" where
  "woken_from b b' \<longleftrightarrow>
     br_phase b' = br_phase b \<and> br_owns_claim b' = br_owns_claim b \<and> br_owner b' = br_owner b \<and>
     br_previous_mask b' = br_previous_mask b \<and> br_worker_stop b' = br_worker_stop b \<and>
     (br_worker b' = No_worker \<longleftrightarrow> br_worker b = No_worker) \<and> (stop_justified b \<longrightarrow> stop_justified b') \<and>
     (br_stop_requested b \<longrightarrow> br_stop_requested b')"

lemma woken_from_refl [simp]: "woken_from b b"
  by (simp add: woken_from_def)

lemma woken_from_trans: "woken_from b b1 \<Longrightarrow> woken_from b1 b2 \<Longrightarrow> woken_from b b2"
  by (simp add: woken_from_def)

lemma wp_worker_wake:
  assumes "proper_wake x"
    and "\<And>b' w'. woken_from b b' \<Longrightarrow> (bridge_good b \<Longrightarrow> bridge_good b') \<Longrightarrow>
      (br_worker b = Waiting \<Longrightarrow> br_worker_stop b \<Longrightarrow> br_worker b' = Returned) \<Longrightarrow>
      (br_worker b \<noteq> Waiting \<Longrightarrow> b' = b) \<Longrightarrow>
      (br_worker b = Waiting \<Longrightarrow> \<not> br_worker_stop b \<Longrightarrow> stop_justified b \<Longrightarrow> br_stop_requested b') \<Longrightarrow>
      Q b' w'"
  shows "wp (worker_wake root x b) Q w"
proof (cases "br_worker b = Waiting")
  case False
  then show ?thesis by (auto simp: worker_wake_def intro: assms(2))
next
  case True
  show ?thesis
    using assms(1) True unfolding worker_wake_def proper_wake_def
    by (cases x)
      (auto simp: wp_if woken_from_def bridge_good_def stop_justified_def intro!: wp_bridge_append assms(2))
qed

lemma wp_worker_wakes:
  assumes "list_all proper_wake xs" "br_worker_stop b"
    and "\<And>b' w'. woken_from b b' \<Longrightarrow> (br_worker b = Waiting \<Longrightarrow> br_worker b' = Waiting \<longleftrightarrow> xs = []) \<Longrightarrow>
      (br_worker b \<noteq> Waiting \<Longrightarrow> b' = b) \<Longrightarrow> Q b' w'"
  shows "wp (worker_wakes root xs b) Q w"
  using assms
proof (induction xs arbitrary: b w)
  case Nil
  then show ?case by simp
next
  case (Cons x xs)
  show ?case
    unfolding worker_wakes.simps
  proof (subst wp_bind, rule wp_worker_wake, goal_cases)
    case 1
    then show ?case using Cons.prems(1) by simp
  next
    case (2 b1 w1)
    then have stop: "br_worker_stop b1" using Cons.prems(2) by (simp add: woken_from_def)
    show ?case
    proof (rule Cons.IH [OF _ stop], goal_cases)
      case 1
      then show ?case using Cons.prems(1) by simp
    next
      case (2 b2 w2)
      with \<open>woken_from b b1\<close> \<open>br_worker b = Waiting \<Longrightarrow> br_worker_stop b \<Longrightarrow> br_worker b1 = Returned\<close>
        \<open>br_worker b \<noteq> Waiting \<Longrightarrow> b1 = b\<close> Cons.prems(2)
      show ?case by (intro Cons.prems(3)) (auto intro: woken_from_trans)
    qed
  qed
qed

lemma wp_kill:
  assumes "\<And>w'. Q (case script w of Fault e # rs \<Rightarrow> False | _ \<Rightarrow> True) w'"
  shows "wp plain_call Q w"
  using assms
  by (auto simp: plain_call_def wp_def next_outcome_def genuine_def set_errno_def modify_def split: list.splits outcome.splits)

definition kill_fails :: "world \<Rightarrow> bool" where
  "kill_fails w \<longleftrightarrow> (case script w of Fault e # rs \<Rightarrow> True | _ \<Rightarrow> False)"

lemma wp_join_worker:
  assumes "list_all proper_wake xs" "br_worker b \<noteq> No_worker"
    and "\<And>ok b' w'. \<not> (br_worker b = Waiting \<and> xs = [] \<and> kill_fails w) \<Longrightarrow>
      woken_from (b\<lparr>br_worker_stop := True, br_worker := No_worker\<rparr>) b' \<Longrightarrow> br_worker b' = No_worker \<Longrightarrow>
      Q (ok, Some b') w'"
    and "\<And>ok w'. br_worker b = Waiting \<Longrightarrow> xs = [] \<Longrightarrow> kill_fails w \<Longrightarrow> Q (ok, None) w'"
  shows "wp (join_worker root xs b) Q w"
  unfolding join_worker_def
proof (subst wp_bind, rule wp_kill, subst wp_bind, rule wp_worker_wakes, goal_cases)
  case (1 w1)
  then show ?case using assms(1) by simp
next
  case (3 w1 b1 w2)
  let ?woken = "case script w of Fault e # rs \<Rightarrow> False | _ \<Rightarrow> True"
  have kill: "?woken \<longleftrightarrow> \<not> kill_fails w" by (simp add: kill_fails_def split: list.split outcome.split)
  show ?case
  proof (cases "br_worker b1 = Waiting")
    case True
    with 3 have "br_worker b = Waiting \<and> xs = [] \<and> kill_fails w" by (cases "br_worker b") (auto simp: kill split: if_splits)
    with True assms(4) show ?thesis by simp
  next
    case False
    have "woken_from (b\<lparr>br_worker_stop := True, br_worker := No_worker\<rparr>) (b1\<lparr>br_worker := No_worker\<rparr>)"
      using 3(1) by (simp add: woken_from_def)
    moreover have "\<not> (br_worker b = Waiting \<and> xs = [] \<and> kill_fails w)" using False 3(2) by (auto simp: kill)
    ultimately show ?thesis using False assms(3) by simp
  qed
qed simp

text \<open>An active bridge that was joined and let go.\<close>

definition ended_from :: "bridge \<Rightarrow> bridge \<Rightarrow> bool" where
  "ended_from b b' \<longleftrightarrow>
     br_phase b' = Phase_stopped \<and> \<not> br_owns_claim b' \<and> br_worker b' = No_worker \<and>
     (stop_justified b \<longrightarrow> stop_justified b') \<and> (br_stop_requested b \<longrightarrow> br_stop_requested b')"

lemma ended_good: "bridge_good b \<Longrightarrow> ended_from b b' \<Longrightarrow> bridge_good b'"
  by (simp add: bridge_good_def ended_from_def)

lemma wp_finish_stop:
  assumes "br_owns_claim b" "br_worker b = No_worker"
    and "\<And>r sg' b' w'. ended_from b b' \<Longrightarrow> \<not> sg_claim sg' \<Longrightarrow>
      (bridge_ok r \<Longrightarrow> woken \<and> sg_masks sg' t = br_previous_mask b \<and> br_wait_error b = 0) \<Longrightarrow>
      br_wait_error b' = br_wait_error b \<Longrightarrow> Q (r, sg', b') w'"
  shows "wp (finish_stop root t woken sg b) Q w"
  unfolding finish_stop_def
  using assms(1,2)
  by (auto simp: Let_def release_claim_def wp_if ended_from_def bridge_ok_def bridge_result_of_def
      intro!: wp_answer wp_bridge_append assms(3) split: if_splits)

lemma wp_bridge_stop:
  assumes "bridge_good b" "list_all proper_wake xs"
    and "\<And>r w'. br_phase b \<noteq> Phase_active \<or> br_owner b \<noteq> t \<Longrightarrow> \<not> bridge_ok r \<Longrightarrow> Q (Some (r, sg, b)) w'"
    and "\<And>r sg' b' w'. br_phase b = Phase_active \<Longrightarrow> br_owner b = t \<Longrightarrow>
      \<not> (br_worker b = Waiting \<and> xs = [] \<and> kill_fails w) \<Longrightarrow> ended_from b b' \<Longrightarrow> \<not> sg_claim sg' \<Longrightarrow>
      (bridge_ok r \<Longrightarrow> sg_masks sg' t = br_previous_mask b \<and> br_wait_error b' = 0) \<Longrightarrow>
      Q (Some (r, sg', b')) w'"
    and "\<And>w'. br_phase b = Phase_active \<Longrightarrow> br_owner b = t \<Longrightarrow> br_worker b = Waiting \<Longrightarrow> xs = [] \<Longrightarrow>
      kill_fails w \<Longrightarrow> Q None w'"
  shows "wp (bridge_stop root t xs sg b) Q w"
proof (cases "br_phase b = Phase_active \<and> br_owner b = t")
  case False
  then show ?thesis
    by (cases "br_phase b")
      (auto simp: bridge_stop_def bridge_ok_def bridge_result_of_def intro!: wp_bridge_append assms(3))
next
  case True
  with assms(1) have good: "br_worker b \<noteq> No_worker" "br_owns_claim b"
    by (auto simp: bridge_good_def)
  show ?thesis
    unfolding bridge_stop_def
  proof (simp only: True simp_thms if_False bridge_phase.distinct wp_bind,
      rule wp_join_worker [OF assms(2) good(1)], goal_cases)
    case (1 woken b1 w1)
    have owns: "br_owns_claim b1" using 1(2) good(2) by (simp add: woken_from_def)
    show ?case
    proof (simp only: prod.case option.case wp_bind, rule wp_finish_stop [OF owns 1(3)], goal_cases)
      case (1 r sg' b' w')
      have "ended_from b b'"
        using 1(1) \<open>woken_from _ b1\<close> by (auto simp: ended_from_def woken_from_def)
      moreover have "sg_masks sg' t = br_previous_mask b \<and> br_wait_error b' = 0" if "bridge_ok r"
        using 1(3) [OF that] 1(4) \<open>woken_from _ b1\<close> by (simp add: woken_from_def)
      ultimately show ?case using True 1(2) \<open>\<not> (_ \<and> xs = [] \<and> _)\<close> by (auto intro: assms(4))
    qed
  next
    case (2 woken w1)
    with True show ?case by (auto intro: assms(5))
  qed
qed

lemma wp_bridge_destroy:
  assumes "bridge_good b" "list_all proper_wake xs"
    and "\<And>w'. br_phase b \<noteq> Phase_active \<Longrightarrow> Q (Some (sg, b)) w'"
    and "\<And>sg' b' w'. br_phase b = Phase_active \<Longrightarrow> ended_from b b' \<Longrightarrow> \<not> sg_claim sg' \<Longrightarrow> Q (Some (sg', b')) w'"
    and "\<And>w'. Q None w'"
  shows "wp (bridge_destroy root t xs sg b) Q w"
proof (cases "br_phase b = Phase_active")
  case False
  then show ?thesis by (auto simp: bridge_destroy_def intro: assms(3))
next
  case True
  with assms(1) have good: "br_worker b \<noteq> No_worker" "br_owns_claim b" by (auto simp: bridge_good_def)
  show ?thesis
    unfolding bridge_destroy_def
  proof (simp only: True good(1) simp_thms if_False wp_bind, rule wp_join_worker [OF assms(2) good(1)], goal_cases)
    case (1 woken b1 w1)
    have owns: "br_owns_claim b1" using 1(2) good(2) by (simp add: woken_from_def)
    have ended: "ended_from b (b1\<lparr>br_phase := Phase_stopped, br_owns_claim := False\<rparr>)"
      using 1(2,3) by (simp add: ended_from_def woken_from_def)
    show ?case
      using owns by (auto simp: Let_def release_claim_def wp_if intro!: wp_answer assms(4) True ended)
  next
    case (2 woken w1)
    then show ?case by (simp add: assms(5))
  qed
qed

section \<open>All bridges of a process\<close>

text \<open>
  \<open>bridges root w0 sg bs w\<close>: from fresh bridges and a free flag, in any interleaving of calls
  from any threads, wake-ups of the workers and other changes of the world.
\<close>

inductive bridges :: "string \<Rightarrow> signals \<Rightarrow> (nat \<Rightarrow> bridge) \<Rightarrow> world \<Rightarrow> bool" for root where
  fresh: "\<not> sg_claim sg \<Longrightarrow> bridges root sg (\<lambda>_. new_bridge) w"
| start: "bridges root sg bs w \<Longrightarrow> run_state (bridge_start root t sg (bs i)) w = ((r, sg', b), w') \<Longrightarrow>
    bridges root sg' (bs(i := b)) w'"
| wake: "bridges root sg bs w \<Longrightarrow> proper_wake x \<Longrightarrow> run_state (worker_wake root x (bs i)) w = (b, w') \<Longrightarrow>
    bridges root sg (bs(i := b)) w'"
| stop: "bridges root sg bs w \<Longrightarrow> list_all proper_wake xs \<Longrightarrow>
    run_state (bridge_stop root t xs sg (bs i)) w = (Some (r, sg', b), w') \<Longrightarrow> bridges root sg' (bs(i := b)) w'"
| destroy: "bridges root sg bs w \<Longrightarrow> list_all proper_wake xs \<Longrightarrow>
    run_state (bridge_destroy root t xs sg (bs i)) w = (Some (sg', b), w') \<Longrightarrow> bridges root sg' (bs(i := b)) w'"
| outside: "bridges root sg bs w \<Longrightarrow> bridges root sg bs w'"

definition bridges_good :: "signals \<Rightarrow> (nat \<Rightarrow> bridge) \<Rightarrow> bool" where
  "bridges_good sg bs \<longleftrightarrow>
     (\<forall>i. bridge_good (bs i)) \<and> (sg_claim sg \<longleftrightarrow> (\<exists>i. br_owns_claim (bs i))) \<and>
     (\<forall>i j. br_owns_claim (bs i) \<and> br_owns_claim (bs j) \<longrightarrow> i = j)"

text \<open>Replacing one bridge is fine when its claim and the flag move together.\<close>

lemma bridges_good_update:
  assumes "bridges_good sg bs" "bridge_good b"
    and "sg_claim sg' = sg_claim sg \<and> br_owns_claim b = br_owns_claim (bs i) \<or>
      \<not> sg_claim sg \<and> sg_claim sg' = br_owns_claim b \<or>
      br_owns_claim (bs i) \<and> \<not> br_owns_claim b \<and> \<not> sg_claim sg'"
  shows "bridges_good sg' (bs(i := b))"
  using assms(3)
proof (elim disjE conjE, goal_cases)
  case 1
  then show ?case using assms(1,2) unfolding bridges_good_def by (auto split: if_splits)
next
  case 2
  then have "\<not> br_owns_claim (bs j)" for j using assms(1) by (auto simp: bridges_good_def)
  then show ?case using 2 assms(1,2) unfolding bridges_good_def by auto
next
  case 3
  then have "\<not> br_owns_claim (bs j)" if "j \<noteq> i" for j using assms(1) that by (auto simp: bridges_good_def)
  then show ?case using 3 assms(1,2) unfolding bridges_good_def by (auto split: if_splits)
qed

lemma bridges_invariant: "bridges root sg bs w \<Longrightarrow> bridges_good sg bs"
proof (induction rule: bridges.induct)
  case (fresh sg w)
  then show ?case by (simp add: bridges_good_def)
next
  case (start sg bs w t i r sg' b w')
  have "wp (bridge_start root t sg (bs i)) (\<lambda>x w'. bridges_good (fst (snd x)) (bs(i := snd (snd x)))) w"
  proof (rule wp_bridge_start, goal_cases)
    case 1
    then show ?case using start.IH by (simp add: bridges_good_def)
  next
    case (2 r)
    then show ?case using start.IH by simp
  next
    case (3 r sg' b' w')
    have "bridges_good sg' (bs(i := b'))"
      by (rule bridges_good_update [OF start.IH 3(1)]) (use 3 in simp)
    then show ?case by (simp only: fst_conv snd_conv)
  qed
  from wpD [OF this start.hyps(2)] show ?case by (simp only: fst_conv snd_conv)
next
  case (wake sg bs w x i b w')
  have good: "bridge_good (bs i)" using wake.IH by (simp add: bridges_good_def)
  have "wp (worker_wake root x (bs i)) (\<lambda>b w'. bridges_good sg (bs(i := b))) w"
  proof (rule wp_worker_wake [OF wake.hyps(2)], goal_cases)
    case (1 b' w')
    show ?case
      by (rule bridges_good_update [OF wake.IH]) (use 1(1,2) good in \<open>simp_all add: woken_from_def\<close>)
  qed
  from wpD [OF this wake.hyps(3)] show ?case .
next
  case (stop sg bs w xs t i r sg' b w')
  have good: "bridge_good (bs i)" using stop.IH by (simp add: bridges_good_def)
  let ?Q = "\<lambda>x (w' :: world). \<forall>r sg' b. x = Some (r, sg', b) \<longrightarrow> bridges_good sg' (bs(i := b))"
  have "wp (bridge_stop root t xs sg (bs i)) ?Q w"
  proof (rule wp_bridge_stop [OF good stop.hyps(2)], goal_cases)
    case (2 r sg' b' w')
    have "bridges_good sg' (bs(i := b'))"
      by (rule bridges_good_update [OF stop.IH ended_good [OF good 2(4)]])
        (use 2 good in \<open>simp add: ended_from_def bridge_good_def\<close>)
    then show ?case by blast
  qed (use stop.IH in simp_all)
  from wpD [OF this stop.hyps(3)] show ?case by blast
next
  case (destroy sg bs w xs t i sg' b w')
  have good: "bridge_good (bs i)" using destroy.IH by (simp add: bridges_good_def)
  let ?Q = "\<lambda>x (w' :: world). \<forall>sg' b. x = Some (sg', b) \<longrightarrow> bridges_good sg' (bs(i := b))"
  have "wp (bridge_destroy root t xs sg (bs i)) ?Q w"
  proof (rule wp_bridge_destroy [OF good destroy.hyps(2)], goal_cases)
    case (2 sg' b' w')
    have "bridges_good sg' (bs(i := b'))"
      by (rule bridges_good_update [OF destroy.IH ended_good [OF good 2(2)]])
        (use 2 good in \<open>simp add: ended_from_def bridge_good_def\<close>)
    then show ?case by blast
  qed (use destroy.IH in simp_all)
  from wpD [OF this destroy.hyps(3)] show ?case by blast
qed


text \<open>
  The service has been asked to stop exactly when a termination signal has been received or
  waiting has failed, and the first wake-up of a waiting worker asks it to.
\<close>

theorem stop_request_justified:
  assumes "bridges root sg bs w"
  shows "(br_stop_requested (bs i) \<longleftrightarrow> br_received (bs i) \<noteq> 0 \<or> br_wait_error (bs i) \<noteq> 0) \<and>
     br_received (bs i) \<in> {0, SIGINT, SIGTERM} \<and>
     (\<forall>x b w'. proper_wake x \<and> br_worker (bs i) = Waiting \<and>
        run_state (worker_wake root x (bs i)) w = (b, w') \<longrightarrow> br_stop_requested b)"
proof -
  have good: "bridge_good (bs i)" using bridges_invariant [OF assms] by (simp add: bridges_good_def)
  have "br_stop_requested b"
    if "proper_wake x" "br_worker (bs i) = Waiting" "run_state (worker_wake root x (bs i)) w = (b, w')" for x b w'
  proof -
    have "wp (worker_wake root x (bs i)) (\<lambda>b w'. br_stop_requested b) w"
      using good that(2) by (intro wp_worker_wake [OF that(1)]) (auto simp: bridge_good_def)
    from wpD [OF this that(3)] show ?thesis .
  qed
  with good show ?thesis
    unfolding bridge_good_def stop_justified_def termination_signal_set_def by blast
qed

text \<open>
  C39. Stopping by the owner returns exactly unless the worker still waits, the signal that should
  wake it cannot be sent, and nothing else wakes it: then the call blocks for good. When it returns, the
  bridge is stopped for good and the flag is free; a success means that the owner's signal mask is
  what it was before the start and that waiting never failed.
\<close>

theorem bridge_stop_by_owner:
  assumes "bridges root sg bs w" and "br_phase (bs i) = Phase_active" and "list_all proper_wake xs"
    and "run_state (bridge_stop root (br_owner (bs i)) xs sg (bs i)) w = (x, w')"
  shows "(x = None \<longleftrightarrow> br_worker (bs i) = Waiting \<and> xs = [] \<and> kill_fails w) \<and>
     (\<forall>r sg' b. x = Some (r, sg', b) \<longrightarrow> br_phase b = Phase_stopped \<and> \<not> sg_claim sg' \<and>
        (bridge_ok r \<longrightarrow> sg_masks sg' (br_owner (bs i)) = br_previous_mask (bs i) \<and> br_wait_error b = 0))"
proof -
  have good: "bridge_good (bs i)" using bridges_invariant [OF assms(1)] by (simp add: bridges_good_def)
  let ?Q = "\<lambda>x (w' :: world). (x = None \<longleftrightarrow> br_worker (bs i) = Waiting \<and> xs = [] \<and> kill_fails w) \<and>
     (\<forall>r sg' b. x = Some (r, sg', b) \<longrightarrow> br_phase b = Phase_stopped \<and> \<not> sg_claim sg' \<and>
        (bridge_ok r \<longrightarrow> sg_masks sg' (br_owner (bs i)) = br_previous_mask (bs i) \<and> br_wait_error b = 0))"
  have "wp (bridge_stop root (br_owner (bs i)) xs sg (bs i)) ?Q w"
  proof (rule wp_bridge_stop [OF good assms(3)], goal_cases)
    case (1 r w')
    with assms(2) show ?case by simp
  next
    case (2 r sg' b' w')
    then show ?case by (simp add: ended_from_def)
  next
    case (3 w')
    then show ?case by simp
  qed
  from wpD [OF this assms(4)] show ?thesis .
qed

section \<open>A concrete bridge\<close>

definition free_signals :: signals where
  "free_signals = \<lparr>sg_claim = False, sg_masks = (\<lambda>_. {})\<rparr>"

text \<open>The first bridge of a process, started by thread 3 without faults.\<close>

lemma sample_bridge_started:
  obtains sg b w' where "bridges ''/j'' sg ((\<lambda>_. new_bridge)(0 := b)) w'"
    "br_phase b = Phase_active" "br_worker b = Waiting" "br_owner b = 3" "sg_claim sg" "script w' = []"
proof -
  let ?x = "run_state (bridge_start ''/j'' 3 free_signals new_bridge) idle_world"
  obtain r sg b w' where run: "?x = ((r, sg, b), w')" by (metis surj_pair)
  have fields: "br_phase (snd (snd (fst ?x))) = Phase_active" "br_worker (snd (snd (fst ?x))) = Waiting"
    "br_owner (snd (snd (fst ?x))) = 3" "sg_claim (fst (snd (fst ?x)))" "script (snd ?x) = []"
    by code_simp+
  have "bridges ''/j'' free_signals (\<lambda>_. new_bridge) idle_world"
    by (rule bridges.fresh) (simp add: free_signals_def)
  then have "bridges ''/j'' sg ((\<lambda>_. new_bridge)(0 := b)) w'"
    by (rule bridges.start) (rule run)
  with fields show ?thesis unfolding run by (intro that) simp_all
qed


lemma stop_request_justified_witness:
  "\<exists>sg bs w. bridges ''/j'' sg bs w \<and> \<not> br_stop_requested (bs 1) \<and> br_worker (bs 0) = Waiting \<and>
     br_stop_requested (fst (run_state (worker_wake ''/j'' (Wake_signal SIGTERM) (bs 0)) w))"
proof -
  obtain sg b w where reached: "bridges ''/j'' sg ((\<lambda>_. new_bridge)(0 := b)) w" "br_worker b = Waiting"
    by (rule sample_bridge_started)
  obtain b' w' where run: "run_state (worker_wake ''/j'' (Wake_signal SIGTERM) b) w = (b', w')" by fastforce
  with stop_request_justified [OF reached(1), of 0] reached(2) have "br_stop_requested b'"
    by (metis sigterm fun_upd_same)
  moreover have "\<not> br_stop_requested (((\<lambda>_. new_bridge)(0 := b)) (1 :: nat))" by (simp add: new_bridge_def)
  ultimately show ?thesis
    using reached run by (intro exI [of _ sg] exI [of _ "(\<lambda>_. new_bridge)(0 := b)"] exI [of _ w]) simp
qed

lemma bridge_stop_by_owner_witness:
  "\<exists>sg bs w. bridges ''/j'' sg bs w \<and> fst (run_state (bridge_stop ''/j'' 3 [] sg (bs 0)) w) \<noteq> None"
proof -
  obtain sg b w where reached: "bridges ''/j'' sg ((\<lambda>_. new_bridge)(0 := b)) w"
    "br_phase b = Phase_active" "br_owner b = 3" "script w = []"
    by (rule sample_bridge_started)
  obtain x w' where run: "run_state (bridge_stop ''/j'' 3 [] sg b) w = (x, w')" by fastforce
  from bridge_stop_by_owner [of "''/j''" sg "(\<lambda>_. new_bridge)(0 := b)" w 0 "[]" x w'] reached run
  have "x \<noteq> None" by (simp add: kill_fails_def)
  with run reached(1) show ?thesis by (intro exI conjI) (assumption, simp)
qed

end
