(* ===== verification/Command_Line.thy ===== *)
theory Command_Line
  imports Renderer Events
begin

text \<open>
  The command line tool (\<open>cli/main.cpp\<close>): what it prints to its two streams and the exit code it
  returns, as a function of the arguments after the program's name. \<open>inet_pton\<close> is the parameter
  that the renderer has. It looks at the first argument only.
\<close>

section \<open>The tool\<close>

definition product_name :: string where "product_name = ''SASD Gatehold''"
definition version :: string where "version = ''0.1.0-dev''"

record tool_result =
  tool_output :: string
  tool_errors :: string
  tool_code :: int

definition printed :: "string \<Rightarrow> tool_result" where
  "printed s = \<lparr>tool_output = s, tool_errors = [], tool_code = 0\<rparr>"

definition help_text :: string where
  "help_text =
     product_name @ '' command-line interface'' @ newline # newline #
     ''Usage:'' @ newline #
     ''  gateholdctl --help       Show this help'' @ newline #
     ''  gateholdctl --version    Show version information'' @ newline # newline #
     ''Development commands:'' @ newline #
     ''  gateholdctl render-example  Render a safe example PF ruleset'' @ newline #
     ''  gateholdctl event-example   Emit a sanitized example event'' @ newline # newline #
     ''Gatehold is in pre-alpha development. Firewall management commands'' @ newline #
     ''will be added only after their validation and rollback paths exist.'' @ [newline]"

definition example_rule :: rule where
  "example_rule = \<lparr>rule_id = ''allow-lan-https'', description = ''Allow LAN clients to reach HTTPS services'',
     rule_action = Pass, rule_direction = Inbound, rule_family = Inet, rule_interface = ''em1'', rule_protocol = Tcp,
     source = \<lparr>network = ''192.0.2.0/24'', port = None\<rparr>, destination = \<lparr>network = ''any'', port = Some 443\<rparr>,
     rule_log = True, rule_quick = True, rule_enabled = True\<rparr>"

definition make_example_ruleset :: rule_set where
  "make_example_ruleset = \<lparr>rs_revision = 1, rs_rules = [example_rule]\<rparr>"

definition issue_line :: "validation_issue \<Rightarrow> string" where
  "issue_line i = issue_code i @ '' ['' @ issue_field i @ '']: '' @ issue_message i @ [newline]"

definition render_example :: "(address_family \<Rightarrow> string \<Rightarrow> bool) \<Rightarrow> tool_result" where
  "render_example pton =
     (let r = render pton make_example_ruleset
      in if \<not> render_ok r
         then \<lparr>tool_output = [], tool_errors = concat (map issue_line (render_validation r)), tool_code = 1\<rparr>
         else printed (render_ruleset r))"

definition example_event :: event where
  "example_event = \<lparr>ev_timestamp = ''2026-09-18T12:00:00Z'', ev_severity = Info, ev_event_id = ''GH-CFG-0001'',
     ev_component = ''gateholdctl'', ev_operation_id = ''example-operation'', ev_action = ''pf.ruleset.render'',
     ev_outcome = ''succeeded'', ev_message = ''Example ruleset rendered without activation.'',
     ev_attributes = attribute_map [(''revision'', ''1''), (''rule_count'', ''1'')]\<rparr>"

definition emit_example_event :: tool_result where
  "emit_example_event = printed (format_event example_event @ [newline])"

definition gateholdctl :: "(address_family \<Rightarrow> string \<Rightarrow> bool) \<Rightarrow> string list \<Rightarrow> tool_result" where
  "gateholdctl pton arguments =
     (case arguments of
        [] \<Rightarrow> printed help_text
      | argument # ignored \<Rightarrow>
          (if argument = ''--help'' \<or> argument = ''-h'' \<or> argument = ''help'' then printed help_text
           else if argument = ''--version'' \<or> argument = ''-V'' \<or> argument = ''version''
           then printed (product_name @ '' '' @ version @ [newline])
           else if argument = ''render-example'' then render_example pton
           else if argument = ''event-example'' then emit_example_event
           else \<lparr>tool_output = [],
             tool_errors = ''Unknown command: '' @ argument @ newline #
               ''Run 'gateholdctl --help' for usage information.'' @ [newline],
             tool_code = 2\<rparr>))"

section \<open>What it prints\<close>

text \<open>The example is a valid rule set exactly when the C library reads the address of its source.\<close>

lemma example_source:
  "parse_network pton ''192.0.2.0/24'' =
     (if pton Inet ''192.0.2.0'' then \<lparr>network_valid = True, network_family = Inet\<rparr>
      else if pton Inet6 ''192.0.2.0'' then \<lparr>network_valid = True, network_family = Inet6\<rparr>
      else no_network)"
proof -
  have "from_chars 4294967295 ''24'' = (Conversion_ok, 24, [])" by code_simp
  then show ?thesis by (simp add: parse_network_def parse_address_def c_string_def)
qed

lemma example_valid: "report_ok (validate_rule_set pton make_example_ruleset) \<longleftrightarrow> pton Inet ''192.0.2.0''"
proof -
  have "is_valid_rule_id (rule_id example_rule)" "\<not> contains_control_character (description example_rule)"
    "length (description example_rule) \<le> 160" "is_valid_interface (rule_interface example_rule)"
    by code_simp+
  then have "well_formed_rule pton example_rule \<longleftrightarrow> pton Inet ''192.0.2.0''"
    by (auto simp: well_formed_rule_def families_def example_rule_def example_source no_network_def
        parse_network_def [where net = "''any''"])
  then show ?thesis
    by (simp add: report_ok_def validate_rule_set_def validate_rules_Nil validate_rule_Nil make_example_ruleset_def)
qed

text \<open>The rendered example is what PF is meant to read: the default policy and one rule.\<close>

theorem example_statements:
  assumes "numeric_addresses pton" and "pton Inet ''192.0.2.0''"
  shows "tool_code (gateholdctl pton [''render-example'']) = 0 \<and>
     statements (tool_output (gateholdctl pton [''render-example''])) = default_statements @ [rule_words example_rule]"
proof -
  have valid: "report_ok (validate_rule_set pton make_example_ruleset)" using assms(2) by (simp add: example_valid)
  then have ruleset: "render_ruleset (render pton make_example_ruleset) = render_header 1 @ render_rule example_rule"
    by (simp add: render_def make_example_ruleset_def)
  have "CHR 0x00 \<notin> set (render_header 1 @ render_rule example_rule)" by code_simp
  moreover have "\<not> continues example_rule" "rule_enabled example_rule" by code_simp+
  ultimately have "statements (render_ruleset (render pton make_example_ruleset)) =
      default_statements @ map rule_words (filter rule_enabled (rs_rules make_example_ruleset))"
    by (intro statements_of_render [OF assms(1) valid]) (simp_all only: ruleset, simp_all add: make_example_ruleset_def)
  with \<open>rule_enabled example_rule\<close> have "statements (render_ruleset (render pton make_example_ruleset)) =
      default_statements @ [rule_words example_rule]" by (simp add: make_example_ruleset_def)
  with valid show ?thesis
    by (simp add: gateholdctl_def render_example_def Let_def render_ok_def printed_def render_def)
qed

text \<open>The tool fails only for an unknown command or an example that the C library cannot read.\<close>

theorem tool_code_zero_iff:
  "tool_code (gateholdctl pton arguments) = 0 \<longleftrightarrow>
     (case arguments of
        [] \<Rightarrow> True
      | argument # ignored \<Rightarrow>
          argument \<in> {''--help'', ''-h'', ''help'', ''--version'', ''-V'', ''version'', ''event-example''} \<or>
          argument = ''render-example'' \<and> pton Inet ''192.0.2.0'')"
  by (auto simp: gateholdctl_def printed_def emit_example_event_def render_example_def render_ok_def Let_def
      render_def example_valid split: list.split)

end
