(* ===== verification/Daemon.thy ===== *)
theory Daemon
  imports Daemon_Startup Signal_Bridge Command_Line
begin

text \<open>
  The daemon program (\<open>daemon/main.cpp\<close>): from the command line to the exit code. It
  builds the components from the parsed configuration and connects them; here the wiring that the
  other theories assume is a theorem about the configuration the parser accepts. The process ends with
  its exit code and what it has printed to its two streams. The wake-ups of the signal thread while the service runs are taken
  together, after the service returns and before the bridge is stopped; the answers of the stop
  token are part of the surroundings.
\<close>

section \<open>Assembly\<close>

text \<open>What the platform and the surroundings contribute to one run.\<close>

record daemon_system =
  ds_sun_path_size :: nat
  ds_canonical :: "string \<Rightarrow> string option"
  ds_bound_mode :: u32
  ds_sandbox :: sandbox_system
  ds_thread :: thread
  ds_signals :: signals
  ds_input :: "accept_event list service_input"
  ds_wakes :: "wake list"
  ds_last_wakes :: "wake list"

definition default_pfctl :: pfctl where
  "default_pfctl = \<lparr>pfctl_executable = ''/sbin/pfctl'', pfctl_timeout = 5000\<rparr>"

definition default_rate_config :: rate_config where
  "default_rate_config = \<lparr>rc_maximum_admissions = 30, rc_window = 60000\<rparr>"

definition default_service_config :: service_config where
  "default_service_config = \<lparr>sc_accept_poll_interval = 250, sc_session_io_timeout = 5000,
     sc_maximum_consecutive_listener_errors = 3\<rparr>"

definition daemon_activation :: "daemon_config \<Rightarrow> activation_service" where
  "daemon_activation config =
     \<lparr>as_revisions = dc_revision_root config, as_transactions = dc_transaction_root config,
      as_validator = default_pfctl, as_loader = default_pfctl, as_journal = dc_journal_root config,
      as_authorizer = read_only_authorizer, as_gate = unavailable_confirmation_gate,
      as_probes = [fail_closed_probe]\<rparr>"

definition daemon_listener :: "daemon_system \<Rightarrow> daemon_config \<Rightarrow> identity_result \<Rightarrow> listener" where
  "daemon_listener ds config identity =
     \<lparr>ls_session = \<lparr>ps_controller = \<lparr>ctl_service = daemon_activation config, ctl_journal = dc_journal_root config\<rparr>,
        ps_journal = dc_journal_root config,
        ps_policy = \<lparr>pp_user_id = dc_allowed_user_id config, pp_group_id = dc_allowed_group_id config\<rparr>\<rparr>,
      ls_journal = dc_journal_root config,
      ls_config = \<lparr>lc_socket_path = dc_socket_path config, lc_socket_mode = id_socket_mode identity,
        lc_socket_group_id = id_socket_group_id identity, lc_listen_backlog = 8,
        lc_admission_rate_limit = default_rate_config\<rparr>,
      ls_sun_path_size = ds_sun_path_size ds, ls_bound_mode = ds_bound_mode ds, ls_canonical = ds_canonical ds\<rparr>"

definition daemon_service :: "daemon_system \<Rightarrow> daemon_config \<Rightarrow> identity_result \<Rightarrow> local_service" where
  "daemon_service ds config identity =
     \<lparr>svc_controller = \<lparr>ctl_service = daemon_activation config, ctl_journal = dc_journal_root config\<rparr>,
      svc_acceptor = local_acceptor (daemon_listener ds config identity), svc_journal = dc_journal_root config,
      svc_config = default_service_config\<rparr>"

definition fresh_service_state :: "listener \<Rightarrow> listener_state service_state" where
  "fresh_service_state ls =
     \<lparr>ss_running = False, ss_controller = Ctl_created, ss_listener = new_listener ls\<rparr>"

section \<open>The command\<close>

definition usage_exit_code :: int where "usage_exit_code = 2"
definition startup_exit_code :: int where "startup_exit_code = 3"
definition service_exit_code :: int where "service_exit_code = 4"
definition cleanup_exit_code :: int where "cleanup_exit_code = 5"

definition daemon_event :: "severity \<Rightarrow> string \<Rightarrow> string \<Rightarrow> string \<Rightarrow> string \<Rightarrow> event" where
  "daemon_event sev event_id outcome m timestamp =
     \<lparr>ev_timestamp = timestamp, ev_severity = sev, ev_event_id = event_id, ev_component = ''gateholdd'',
      ev_operation_id = ''daemon-lifetime'', ev_action = ''daemon.serve-read-only'', ev_outcome = outcome,
      ev_message = m, ev_attributes = attribute_map [(''activation_policy'', ''deny-all'')]\<rparr>"

definition daemon_append :: "daemon_config \<Rightarrow> (string \<Rightarrow> event) \<Rightarrow> bool io" where
  "daemon_append config build = do {
     timestamp \<leftarrow> read_clock;
     j \<leftarrow> journal_append (dc_journal_root config) (build timestamp);
     return (journal_ok j)
   }"

text \<open>How a process ends: nothing on standard output, the lines on standard error, the code.\<close>

definition ended :: "int \<Rightarrow> string \<Rightarrow> tool_result" where
  "ended code errors = \<lparr>tool_output = [], tool_errors = errors, tool_code = code\<rparr>"

definition error_line :: "string \<Rightarrow> string \<Rightarrow> string" where
  "error_line event_id m = event_id @ '': '' @ m @ [newline]"

definition startup_unaudited :: string where
  "startup_unaudited = ''GH-DMN-2001: Daemon startup could not be audited.'' @ [newline]"

definition check_daemon_configuration :: "daemon_system \<Rightarrow> daemon_config \<Rightarrow> tool_result io" where
  "check_daemon_configuration ds config = do {
     euid \<leftarrow> gets effective_uid;
     egid \<leftarrow> gets effective_gid;
     let identity = validate_daemon_identity config euid egid;
     if \<not> id_valid identity
     then return (ended usage_exit_code (error_line (id_event_id identity) (id_message identity)))
     else do {
       filesystem \<leftarrow> validate_daemon_filesystem_configuration (ds_canonical ds) config (id_socket_mode identity) euid;
       return (if \<not> filesystem_ok filesystem
         then ended startup_exit_code (error_line (fs_event_id filesystem) (fs_message filesystem))
         else printed (''GH-DMN-0005: Daemon configuration is valid.'' @ [newline]))
     }
   }"

text \<open>
  A refused preflight is logged if the journal directory had passed; a refused lock always is. The
  result is what goes to standard error when that fails.
\<close>

definition log_preflight :: "daemon_config \<Rightarrow> filesystem_result \<Rightarrow> string io" where
  "log_preflight config r =
     (if fs_journal_root_ready r then do {
        audited \<leftarrow> daemon_append config (\<lambda>t. add_attribute ''directory_role'' (role_string (fs_failed_role r))
          (daemon_event (if fs_status r = Filesystem_io_error then Error else Warning) (fs_event_id r)
            ''rejected'' (fs_message r) t));
        return (if audited then [] else startup_unaudited)
      }
      else return [])"

definition log_lock :: "daemon_config \<Rightarrow> lock_result \<Rightarrow> string io" where
  "log_lock config r = do {
     audited \<leftarrow> daemon_append config (\<lambda>t. add_attribute ''startup_gate'' ''process-lock''
       (daemon_event (if lk_status r = Lock_io_error then Error else Warning) (lk_event_id r)
         ''rejected'' (lk_message r) t));
     return (if audited then [] else startup_unaudited)
   }"

definition sandbox_event :: "sandbox_result \<Rightarrow> string \<Rightarrow> event" where
  "sandbox_event r timestamp =
     add_attribute ''sandbox_enforced'' (if enforced r then ''true'' else ''false'')
       (daemon_event (if enforced r then Info else if can_continue r then Warning else Error) (sb_event_id r)
         (if enforced r then ''accepted'' else if can_continue r then ''unavailable'' else ''rejected'')
         (sb_message r) timestamp)"

text \<open>The gates that are logged, in order; \<open>Some\<close> ends the run, with these lines.\<close>

definition daemon_gates :: "daemon_system \<Rightarrow> daemon_config \<Rightarrow> filesystem_result \<Rightarrow> lock_result \<Rightarrow> string option io" where
  "daemon_gates ds config filesystem lock = do {
     audited1 \<leftarrow> daemon_append config (\<lambda>t. add_attribute ''directory_count'' ''4''
       (daemon_event Info (fs_event_id filesystem) ''accepted'' (fs_message filesystem) t));
     if \<not> audited1 then return (Some startup_unaudited)
     else do {
       audited2 \<leftarrow> daemon_append config (\<lambda>t. add_attribute ''startup_gate'' ''process-lock''
         (daemon_event Info (lk_event_id lock) ''accepted'' (lk_message lock) t));
       if \<not> audited2 then return (Some startup_unaudited)
       else do {
         audited3 \<leftarrow> daemon_append config (daemon_event Info ''GH-DMN-0001'' ''starting''
           ''Read-only privileged controller daemon is starting.'');
         if \<not> audited3 then return (Some startup_unaudited)
         else do {
           let sandbox = fst (apply_daemon_sandbox (make_read_only_daemon_sandbox_policy config) (ds_sandbox ds));
           audited4 \<leftarrow> daemon_append config (sandbox_event sandbox);
           return (if \<not> audited4 then Some startup_unaudited
             else if \<not> can_continue sandbox then Some (error_line (sb_event_id sandbox) (sb_message sandbox))
             else None)
         }
       }
     }
   }"

definition daemon_exit_code :: "bool \<Rightarrow> bool \<Rightarrow> bool \<Rightarrow> bool \<Rightarrow> int" where
  "daemon_exit_code service_stopped signal_stopped signal_audited shutdown_audited =
     (if \<not> service_stopped then service_exit_code
      else if \<not> signal_stopped \<or> \<not> signal_audited \<or> \<not> shutdown_audited then cleanup_exit_code
      else 0)"

text \<open>After the service has returned.\<close>

definition shutdown_errors :: "service_result \<Rightarrow> bridge_result \<Rightarrow> bool \<Rightarrow> bool \<Rightarrow> string" where
  "shutdown_errors r signal_stop signal_audited shutdown_audited =
     (if service_ok r then [] else error_line (sv_event_id r) (sv_message r)) @
     (if bridge_ok signal_stop then [] else error_line (bg_event_id signal_stop) (bg_message signal_stop)) @
     (if signal_audited then [] else ''GH-DMN-2004: Termination signal audit failed.'' @ [newline]) @
     (if shutdown_audited then [] else ''GH-DMN-2004: Daemon shutdown audit failed.'' @ [newline])"

definition daemon_finish ::
  "daemon_system \<Rightarrow> daemon_config \<Rightarrow> signals \<Rightarrow> bridge \<Rightarrow> service_result \<Rightarrow> tool_result option io" where
  "daemon_finish ds config sg b r = do {
     b \<leftarrow> worker_wakes (dc_journal_root config) (ds_wakes ds) b;
     stopped \<leftarrow> bridge_stop (dc_journal_root config) (ds_thread ds) (ds_last_wakes ds) sg b;
     (case stopped of
        None \<Rightarrow> return None
      | Some (signal_stop, sg, b) \<Rightarrow> do {
          let clean = (service_ok r \<and> bridge_ok signal_stop \<and> br_signal_audited b);
          shutdown_audited \<leftarrow> daemon_append config (daemon_event (if clean then Info else Error) ''GH-DMN-0002''
            (if clean then ''stopped'' else ''failed'') ''Read-only privileged controller daemon stopped.'');
          return (Some (ended
            (daemon_exit_code (service_ok r) (bridge_ok signal_stop) (br_signal_audited b) shutdown_audited)
            (shutdown_errors r signal_stop (br_signal_audited b) shutdown_audited)))
        })
   }"

text \<open>Up to a started signal bridge; \<open>Inl\<close> is an end of the process.\<close>

definition daemon_prepare ::
  "daemon_system \<Rightarrow> daemon_config \<Rightarrow> (tool_result + identity_result \<times> signals \<times> bridge) io" where
  "daemon_prepare ds config = do {
     euid \<leftarrow> gets effective_uid;
     egid \<leftarrow> gets effective_gid;
     let identity = validate_daemon_identity config euid egid;
     if \<not> id_valid identity
     then return (Inl (ended usage_exit_code (error_line (id_event_id identity) (id_message identity))))
     else do {
       filesystem \<leftarrow> preflight_daemon_filesystem (ds_canonical ds) config (id_socket_mode identity) euid;
       if \<not> filesystem_ok filesystem then do {
         unlogged \<leftarrow> log_preflight config filesystem;
         return (Inl (ended startup_exit_code
           (unlogged @ error_line (fs_event_id filesystem) (fs_message filesystem))))
       }
       else do {
         lock \<leftarrow> acquire_lock (dc_transaction_root config) euid;
         if \<not> lock_ok lock then do {
           unlogged \<leftarrow> log_lock config lock;
           return (Inl (ended startup_exit_code (unlogged @ error_line (lk_event_id lock) (lk_message lock))))
         }
         else do {
           refused \<leftarrow> daemon_gates ds config filesystem lock;
           (case refused of
              Some errors \<Rightarrow> return (Inl (ended startup_exit_code errors))
            | None \<Rightarrow> do {
                (signal_start, sg, b) \<leftarrow> bridge_start (dc_journal_root config) (ds_thread ds) (ds_signals ds) new_bridge;
                return (if \<not> bridge_ok signal_start
                  then Inl (ended startup_exit_code (error_line (bg_event_id signal_start) (bg_message signal_start)))
                  else Inr (identity, sg, b))
              })
         }
       }
     }
   }"

definition run_read_only_daemon :: "daemon_system \<Rightarrow> daemon_config \<Rightarrow> world \<Rightarrow> (tool_result \<times> world) option" where
  "run_read_only_daemon ds config w =
     (case run_state (daemon_prepare ds config) w of
        (Inl ending, w) \<Rightarrow> Some (ending, w)
      | (Inr (identity, sg, b), w) \<Rightarrow>
          (let svc = daemon_service ds config identity
           in case run_service svc (ds_input ds) (fresh_service_state (daemon_listener ds config identity)) w of
                None \<Rightarrow> None
              | Some ((r, st), w) \<Rightarrow>
                  (case run_state (daemon_finish ds config sg b r) w of
                     (None, w) \<Rightarrow> None
                   | (Some ending, w) \<Rightarrow> Some (ending, w))))"

definition daemon_help :: string where
  "daemon_help =
     product_name @ '' privileged controller daemon'' @ newline # newline #
     ''Usage:'' @ newline #
     ''  gateholdd --help'' @ newline #
     ''  gateholdd --version'' @ newline #
     ''  gateholdd check-config OPTIONS'' @ newline #
     ''  gateholdd serve-read-only '' @ CHR 0x5C # newline #
     ''    --journal-root ABSOLUTE_PATH '' @ CHR 0x5C # newline #
     ''    --revision-root ABSOLUTE_PATH '' @ CHR 0x5C # newline #
     ''    --transaction-root ABSOLUTE_PATH '' @ CHR 0x5C # newline #
     ''    --socket-path ABSOLUTE_PATH '' @ CHR 0x5C # newline #
     ''    --allowed-uid NUMERIC_UID [--allowed-gid NUMERIC_GID]'' @ newline # newline #
     ''The bootstrap daemon performs startup recovery and serves status,'' @ newline #
     ''but denies every new PF activation. It stays in the foreground.'' @ [newline]"

text \<open>The process: its end, with what it printed, and the world it leaves.\<close>

definition gateholdd_process :: "daemon_system \<Rightarrow> string list \<Rightarrow> world \<Rightarrow> (tool_result \<times> world) option" where
  "gateholdd_process ds arguments w =
     (let parsed = parse_daemon_arguments (ds_sun_path_size ds) arguments;
          refused = ended usage_exit_code (error_line (cr_event_id parsed) (cr_message parsed) @
            ''Run 'gateholdd --help' for usage information.'' @ [newline])
      in if cr_status parsed = Config_help_requested then Some (printed daemon_help, w)
         else if cr_status parsed = Config_version_requested
         then Some (printed (product_name @ '' daemon '' @ version @ [newline]), w)
         else (case cr_config parsed of
             None \<Rightarrow> Some (refused, w)
           | Some config \<Rightarrow>
               (if \<not> config_ok parsed then Some (refused, w)
                else if cr_command parsed = Command_check_configuration
                then Some (run_state (check_daemon_configuration ds config) w)
                else run_read_only_daemon ds config w)))"

text \<open>Its exit code alone.\<close>

definition gateholdd :: "daemon_system \<Rightarrow> string list \<Rightarrow> world \<Rightarrow> (int \<times> world) option" where
  "gateholdd ds arguments w = map_option (\<lambda>(ending, w'). (tool_code ending, w')) (gateholdd_process ds arguments w)"

lemma ended_sel [simp]:
  "tool_code (ended code errors) = code" "tool_errors (ended code errors) = errors"
  "tool_code (printed text) = 0" "tool_errors (printed text) = []"
  by (simp_all add: ended_def printed_def)

section \<open>The wiring\<close>

lemma proper_config_apart:
  assumes "proper_config n config"
  shows "distinct (config_directories config)"
  using assms
  by (auto simp: proper_config_def config_directories_def config_roots_def)

lemma daemon_service_sel [simp]:
  "service_activation (daemon_service ds config identity) = daemon_activation config"
  "svc_acceptor (daemon_service ds config identity) = local_acceptor (daemon_listener ds config identity)"
  "svc_journal (daemon_service ds config identity) = dc_journal_root config"
  "ctl_journal (svc_controller (daemon_service ds config identity)) = dc_journal_root config"
  "ps_controller (ls_session (daemon_listener ds config identity)) = svc_controller (daemon_service ds config identity)"
  "ps_journal (ls_session (daemon_listener ds config identity)) = dc_journal_root config"
  "ls_journal (daemon_listener ds config identity) = dc_journal_root config"
  "as_journal (daemon_activation config) = dc_journal_root config"
  "as_revisions (daemon_activation config) = dc_revision_root config"
  "as_transactions (daemon_activation config) = dc_transaction_root config"
  "as_authorizer (daemon_activation config) = read_only_authorizer"
  "socket_entry (daemon_listener ds config identity) = config_socket config"
  by (simp_all add: daemon_service_def daemon_listener_def daemon_activation_def socket_entry_def config_socket_def)

lemma daemon_separate: "proper_config n config \<Longrightarrow> separate (daemon_activation config)"
  using proper_config_apart [of n config]
  by (auto simp: separate_def config_directories_def config_roots_def)

text \<open>
  Every configuration the parser accepts is assembled into a correctly wired daemon: journal,
  archive and record store have three different roots, the socket lies in none of them, session,
  controller and service share one journal and one controller, and the authorizer denies.
\<close>

lemma daemon_assembled:
  "proper_config n config \<Longrightarrow>
     service_wired (daemon_listener ds config identity) (daemon_service ds config identity) \<and> denies (daemon_activation config)"
  using proper_config_apart [of n config] read_only_denies [of "daemon_activation config"]
  by (auto simp: service_wired_def listener_apart_def listener_wired_def session_wired_def wired_def
      separate_def config_directories_def config_roots_def config_socket_def)

lemma fresh_service_released: "released (ss_listener (fresh_service_state ls))" "\<not> ss_running (fresh_service_state ls)"
  by (simp_all add: fresh_service_state_def released_def listener_idle_def new_listener_def)

text \<open>Every component accepts the configuration that the daemon gives it.\<close>

lemma proper_filename:
  assumes "proper_path p" "path_filename p \<noteq> []"
  shows "path_filename p \<notin> {''.'', ''..''}"
proof -
  have "path_filename p \<in> set (path_names (relative_part p))"
    using assms(2) by (cases "path_names (relative_part p)") (auto simp: path_filename_def)
  then have "path_filename p \<in> set (path_elements p)" by (simp add: path_elements_def)
  with assms(1) show ?thesis by (auto simp: proper_path_def dot_free_def)
qed

lemma identity_socket:
  "id_valid (validate_daemon_identity config euid egid) \<Longrightarrow>
     id_socket_mode (validate_daemon_identity config euid egid) =
       (if dc_allowed_group_id config = None then private_mode else delegated_mode) \<and>
     id_socket_group_id (validate_daemon_identity config euid egid) = dc_allowed_group_id config"
  by (cases "dc_allowed_group_id config") (auto simp: validate_daemon_identity_def split: if_splits)

lemma daemon_listener_accepted:
  assumes "proper_config (ds_sun_path_size ds) config" "id_valid (validate_daemon_identity config euid egid)"
  defines "ls \<equiv> daemon_listener ds config (validate_daemon_identity config euid egid)"
  shows "listener_config_ok ls (new_listener ls)"
proof -
  have proper: "proper_path (dc_socket_path config)" and filename: "path_filename (dc_socket_path config) \<noteq> []"
    and short: "length (dc_socket_path config) < ds_sun_path_size ds"
    using assms(1) by (auto simp: proper_config_def)
  have "is_absolute (dc_socket_path config)" "is_normal (dc_socket_path config)" "CHR 0x00 \<notin> set (dc_socket_path config)"
    using proper by (auto simp: safe_absolute_proper [symmetric] safe_absolute_path_def)
  moreover have "rate_config_valid default_rate_config" by code_simp
  ultimately show ?thesis
    using proper_filename [OF proper filename] filename short identity_socket [OF assms(2)]
    by (simp add: ls_def listener_config_ok_def daemon_listener_def new_listener_def new_rate_limiter_def
        Let_def maximum_listen_backlog_def)
qed

lemma daemon_service_accepted: "service_config_ok (svc_config (daemon_service ds config identity))"
  unfolding daemon_service_def service.select_convs by code_simp

section \<open>Preparation leaves the firewall alone\<close>

lemma keeps_daemon_append [keeps_rule]:
  "proper_config n config \<Longrightarrow> keeps (sight (daemon_activation config)) (daemon_append config build)"
  unfolding daemon_append_def
  using keeps_journal_append [OF daemon_separate, of n config]
  by (intro keeps_rule) simp

lemma keeps_bridge_append [keeps_rule]:
  "proper_config n config \<Longrightarrow> keeps (sight (daemon_activation config)) (bridge_append (dc_journal_root config) build)"
  unfolding bridge_append_def
  using keeps_journal_append [OF daemon_separate, of n config]
  by (intro keeps_rule) simp

lemma keeps_preflight [keeps_rule]:
  "keeps (sight svc) (preflight_daemon_filesystem canonical config socket_mode euid)"
  by (rule keepsI, rule wp_mono [OF wp_preflight]) (auto simp: asked_def)

lemma keeps_acquire_lock [keeps_rule]:
  assumes "proper_config n config"
  shows "keeps (sight (daemon_activation config)) (acquire_lock (dc_transaction_root config) uid)"
proof (rule keepsI, rule wp_mono [OF wp_acquire_lock])
  fix w r w'
  assume "lock_outcome (dc_transaction_root config, lock_filename) uid w r w' \<and>
     (lock_ok r \<longrightarrow> (\<exists>d. dirs w (dc_transaction_root config) = Some d \<and> safe_directory uid d))"
  then have only: "lock_only (dc_transaction_root config, lock_filename) w w'" by (simp add: lock_outcome_def)
  then have other: "entries w' p = entries w p" if "p \<noteq> (dc_transaction_root config, lock_filename)" for p
    using that by (auto simp: lock_only_def dest: only_touches_entry)
  from only have uid: "effective_uid w' = effective_uid w" and acts: "actions w' = actions w"
    by (auto simp: lock_only_def same_setting_def)
  have "transaction_path (dc_transaction_root config) \<noteq> (dc_transaction_root config, lock_filename)"
    by (simp add: transaction_path_def lock_filename_def transaction_filename_def)
  then show "sight (daemon_activation config) w' = sight (daemon_activation config) w"
    using daemon_separate [OF assms] other uid acts
    by (simp add: sight_def firewall_view_def revision_text_def [abs_def] marker_def stored_def
        revision_path_def marker_path_def separate_def)
qed

lemma keeps_bridge_start [keeps_rule]:
  "proper_config n config \<Longrightarrow>
     keeps (sight (daemon_activation config)) (bridge_start (dc_journal_root config) t sg b)"
  unfolding bridge_start_def start_worker_def Let_def by (intro keeps_rule)

lemma keeps_wake [keeps_rule]: "(\<And>e. keeps f (g e)) \<Longrightarrow> (\<And>n. keeps f (h n)) \<Longrightarrow>
    keeps f (case x of Wake_error e \<Rightarrow> g e | Wake_signal n \<Rightarrow> h n)"
  by (cases x) auto

lemma keeps_worker_wakes [keeps_rule]:
  "proper_config n config \<Longrightarrow>
     keeps (sight (daemon_activation config)) (worker_wakes (dc_journal_root config) xs b)"
  by (induction xs arbitrary: b) (auto simp: worker_wake_def intro!: keeps_rule)

lemma keeps_bridge_stop [keeps_rule]:
  "proper_config n config \<Longrightarrow>
     keeps (sight (daemon_activation config)) (bridge_stop (dc_journal_root config) t xs sg b)"
  unfolding bridge_stop_def join_worker_def finish_stop_def saved_errno_def Let_def
  by (intro keeps_rule)

lemma keeps_daemon_gates [keeps_rule]:
  "proper_config n config \<Longrightarrow> keeps (sight (daemon_activation config)) (daemon_gates ds config filesystem lock)"
  unfolding daemon_gates_def Let_def by (intro keeps_rule)

lemma keeps_daemon_prepare:
  "proper_config n config \<Longrightarrow> keeps (sight (daemon_activation config)) (daemon_prepare ds config)"
  unfolding daemon_prepare_def log_preflight_def log_lock_def Let_def by (intro keeps_rule)

lemma keeps_daemon_finish:
  "proper_config n config \<Longrightarrow> keeps (sight (daemon_activation config)) (daemon_finish ds config sg b r)"
  unfolding daemon_finish_def Let_def by (intro keeps_rule)

section \<open>What the startup recovery may do\<close>

text \<open>Nothing without a readable pending record; with one, at most a load of its rollback revision.\<close>

definition recovery_step :: "activation_service \<Rightarrow> firewall_view \<Rightarrow> firewall_view \<Rightarrow> bool" where
  "recovery_step svc v v' \<longleftrightarrow>
     (case fv_pending v of
        Pending t \<Rightarrow> fv_texts v' = fv_texts v \<and>
          (fv_loads v' = fv_loads v \<or> (\<exists>b. fv_loads v' = fv_loads v @ [rollback_load svc t v b]))
      | _ \<Rightarrow> v' = v)"

lemma recovery_step_refl [simp]: "recovery_step svc v v"
  by (cases "fv_pending v") (simp_all add: recovery_step_def)

lemma conclusion_step:
  assumes "recovery_conclusion svc w0 v r w"
  shows "recovery_step svc v (firewall_view svc w)"
proof (cases "fv_pending v")
  case (Pending t)
  with assms have outcome: "recovery_outcome svc w0 v t r w" by (simp add: recovery_conclusion_def)
  show ?thesis
  proof (cases "recovery_ok r")
    case True
    with outcome have "firewall_view svc w = recovered_view svc t v"
      by (simp add: recovery_outcome_def situation_def)
    with Pending show ?thesis by (auto simp: recovery_step_def recovered_view_def)
  next
    case False
    with outcome Pending show ?thesis by (auto simp: recovery_outcome_def recovery_step_def situation_def)
  qed
qed (use assms in \<open>auto simp: recovery_conclusion_def recovery_step_def situation_def\<close>)

lemma wp_start_step:
  assumes "wired c"
  shows "wp (controller_start c st)
    (\<lambda>x w'. recovery_step (ctl_service c) (firewall_view (ctl_service c) w) (firewall_view (ctl_service c) w')) w"
proof (cases "st = Ctl_created")
  case False
  then show ?thesis by (simp add: controller_start_def)
next
  case True
  let ?svc = "ctl_service c" and ?v = "firewall_view (ctl_service c) w"
  have sep: "separate ?svc" using assms by (simp add: wired_def)
  have after: "wp (controller_append c sev i op act outcome m st') (\<lambda>_ w'. recovery_step ?svc ?v (firewall_view ?svc w')) w1"
    if "recovery_step ?svc ?v (firewall_view ?svc w1)" for sev i op act outcome m st' w1
    by (rule wp_keeps [OF keeps_controller_append [OF assms] refl]) (use that in \<open>auto dest: sight_view\<close>)
  show ?thesis
    unfolding controller_start_def
  proof (simp only: True simp_thms if_False, subst wp_bind,
      rule wp_mono [OF keepsD [OF keeps_controller_append [OF assms]]], goal_cases)
    case (1 audited w1)
    then have "firewall_view ?svc w1 = ?v" by (rule sight_view)
    then have recover: "wp (recover_pending ?svc) (\<lambda>r w'. recovery_step ?svc ?v (firewall_view ?svc w')) w1"
      using wp_recover_pending [OF sep, of w1] by (auto elim!: wp_mono dest: conclusion_step)
    show ?case
      by (subst wp_bind, rule wp_mono [OF recover]) (auto intro!: after)
  qed
qed

lemma recovered_step:
  assumes "service_wired ls svc" "denies (service_activation svc)"
    "recovered_by (undisturbed svc) (svc_controller svc) ctl w u w1"
  shows "recovery_step (service_activation svc) (firewall_view (service_activation svc) w)
     (firewall_view (service_activation svc) w1)"
proof -
  obtain r ctl' w0 where run: "run_state (controller_start (svc_controller svc) ctl) w0 = ((r, ctl'), w1)"
    and "undisturbed svc w w0"
    using assms(3) by (auto simp: recovered_by_def)
  then have "firewall_view (service_activation svc) w0 = firewall_view (service_activation svc) w"
    using assms(2) by (auto simp: undisturbed_def dest: sight_view)
  with wpD [OF wp_start_step [OF service_wired_facts(4) [OF assms(1)]] run] show ?thesis by simp
qed

lemma run_read_only_daemon_step:
  assumes "proper_config n config" "run_read_only_daemon ds config w = Some (ending, w')"
  shows "recovery_step (daemon_activation config) (firewall_view (daemon_activation config) w)
     (firewall_view (daemon_activation config) w')"
proof -
  let ?svc = "daemon_activation config"
  obtain x w1 where prepared: "run_state (daemon_prepare ds config) w = (x, w1)" by fastforce
  with keeps_run [OF keeps_daemon_prepare [OF assms(1)]]
  have view1: "firewall_view ?svc w1 = firewall_view ?svc w" by (blast dest: sight_view)
  show ?thesis
  proof (cases x)
    case (Inl c)
    with assms(2) prepared view1 show ?thesis by (simp add: run_read_only_daemon_def)
  next
    case (Inr y)
    then obtain identity sg b where x: "x = Inr (identity, sg, b)" by (cases y) auto
    let ?service = "daemon_service ds config identity" and ?listener = "daemon_listener ds config identity"
    from assms(2) prepared x obtain r st w2 where
      served: "run_service ?service (ds_input ds) (fresh_service_state ?listener) w1 = Some ((r, st), w2)"
      and finished: "run_state (daemon_finish ds config sg b r) w2 = (Some ending, w')"
      by (auto simp: run_read_only_daemon_def Let_def split: option.splits prod.splits)
    from finished keeps_run [OF keeps_daemon_finish [OF assms(1)]]
    have view3: "firewall_view ?svc w' = firewall_view ?svc w2" by (blast dest: sight_view)
    from daemon_assembled [OF assms(1)] have wired: "service_wired ?listener ?service" "denies (service_activation ?service)"
      by simp_all
    from run_service_outcome [OF wired(1) fresh_service_released served] obtain w0 where
      "recovered_by (undisturbed ?service) (svc_controller ?service) (ss_controller (fresh_service_state ?listener)) w1 (sv_controller_startup r) w0"
      "undisturbed ?service w0 w2" by blast
    then have step: "recovery_step ?svc (firewall_view ?svc w1) (firewall_view ?svc w0)"
      and "firewall_view ?svc w2 = firewall_view ?svc w0"
      using recovered_step [OF wired] wired(2) by (fastforce simp: undisturbed_def dest: sight_view)+
    with view1 view3 show ?thesis by simp
  qed
qed

lemma wp_validate_filesystem:
  assumes "\<And>r w'. asked w w' \<Longrightarrow> (filesystem_ok r \<Longrightarrow> \<forall>x \<in> set (expectations config).
      sound_directory canonical x socket_mode config euid w) \<Longrightarrow> Q r w'"
  shows "wp (validate_daemon_filesystem_configuration canonical config socket_mode euid) Q w"
  unfolding validate_daemon_filesystem_configuration_def
  by (rule wp_check_directories [where seen = "[]" and ?w0.0 = w])
    (simp_all add: assms, simp add: expectations_def)

lemma check_changes_nothing:
  assumes "run_state (check_daemon_configuration ds config) w = (ending, w')"
  shows "asked w w' \<and> (tool_code ending = 0 \<longrightarrow>
     id_valid (validate_daemon_identity config (effective_uid w) (effective_gid w)) \<and>
     (\<forall>x \<in> set (expectations config). sound_directory (ds_canonical ds) x
        (id_socket_mode (validate_daemon_identity config (effective_uid w) (effective_gid w)))
        config (effective_uid w) w))"
proof -
  have "wp (check_daemon_configuration ds config) (\<lambda>ending w'. asked w w' \<and> (tool_code ending = 0 \<longrightarrow>
     id_valid (validate_daemon_identity config (effective_uid w) (effective_gid w)) \<and>
     (\<forall>x \<in> set (expectations config). sound_directory (ds_canonical ds) x
        (id_socket_mode (validate_daemon_identity config (effective_uid w) (effective_gid w)))
        config (effective_uid w) w))) w"
    unfolding check_daemon_configuration_def
    by (auto simp: wp_simp Let_def usage_exit_code_def startup_exit_code_def wp_if intro!: wp_validate_filesystem)
  from wpD [OF this assms] show ?thesis .
qed

lemma invalid_config_sel [simp]: "cr_config (invalid_config m) = None"
  by (simp add: invalid_config_def)

lemma checked_options_parsed: "cr_config (check_options n command opts) \<noteq> None \<Longrightarrow> cr_status (check_options n command opts) = Config_parsed"
  by (cases "po_journal_root opts"; cases "po_revision_root opts"; cases "po_transaction_root opts";
      cases "po_socket_path opts"; cases "po_allowed_user_id opts")
    (simp_all add: check_options_def Let_def split: if_split_asm)

lemma config_given:
  assumes "cr_config (parse_daemon_arguments n arguments) = Some config"
  shows "cr_status (parse_daemon_arguments n arguments) = Config_parsed"
proof (cases "parse_options (tl arguments) no_options")
  case (Inl m)
  with assms show ?thesis by (simp add: parse_daemon_arguments_def Let_def split: if_split_asm)
next
  case (Inr opts)
  with assms checked_options_parsed [of n _ opts] show ?thesis
    by (simp add: parse_daemon_arguments_def Let_def split: if_split_asm)
qed

lemma accepted_proper:
  assumes "cr_config (parse_daemon_arguments n arguments) = Some config"
  shows "proper_config n config"
  using arguments_documented [of n arguments "cr_command (parse_daemon_arguments n arguments)" config]
    config_given [OF assms] assms by auto

lemma gateholdd_cases:
  assumes "cr_config (parse_daemon_arguments (ds_sun_path_size ds) arguments) = Some config"
    and "gateholdd_process ds arguments w = Some (ending, w')"
  obtains (nothing) "w' = w"
  | (check) "proper_config (ds_sun_path_size ds) config"
      "run_state (check_daemon_configuration ds config) w = (ending, w')"
  | (run) "proper_config (ds_sun_path_size ds) config" "run_read_only_daemon ds config w = Some (ending, w')"
  using assms that accepted_proper [OF assms(1)]
  by (auto simp: gateholdd_process_def Let_def split: if_splits)

lemma gateholdd_step:
  assumes "cr_config (parse_daemon_arguments (ds_sun_path_size ds) arguments) = Some config"
    and "gateholdd ds arguments w = Some (code, w')"
  shows "recovery_step (daemon_activation config) (firewall_view (daemon_activation config) w)
     (firewall_view (daemon_activation config) w')"
proof -
  from assms(2) obtain ending where run: "gateholdd_process ds arguments w = Some (ending, w')"
    by (auto simp: gateholdd_def)
  from assms(1) run show ?thesis
  proof (cases rule: gateholdd_cases)
    case check
    from check_changes_nothing [OF check(2)] show ?thesis
      by (auto simp: asked_def firewall_view_def revision_text_def [abs_def] marker_def stored_def)
  qed (auto dest: run_read_only_daemon_step)
qed

section \<open>What the daemon guarantees\<close>

text \<open>What has been established when the service is about to run.\<close>

lemma wp_skip: "(\<And>a w'. wp (g a) Q w') \<Longrightarrow> wp (State_Monad.bind m g) Q w"
  by (subst wp_bind, rule wp_any)

lemma wp_branch: "(b \<Longrightarrow> wp m Q w) \<Longrightarrow> (\<not> b \<Longrightarrow> wp n Q w) \<Longrightarrow> wp (if b then m else n) Q w"
  by simp

lemma error_line_speaks [simp]: "error_line event_id m \<noteq> []" "startup_unaudited \<noteq> []"
  by (simp_all add: error_line_def startup_unaudited_def)

lemma wp_daemon_gates:
  "wp (daemon_gates ds config filesystem lock) (\<lambda>refused w'. refused \<noteq> Some [] \<and> (refused = None \<longrightarrow>
     can_continue (fst (apply_daemon_sandbox (make_read_only_daemon_sandbox_policy config) (ds_sandbox ds))))) w"
  unfolding daemon_gates_def Let_def by (intro wp_skip wp_branch) simp_all

lemma wp_daemon_prepare:
  "wp (daemon_prepare ds config) (\<lambda>x w'. case x of
       Inl ending \<Rightarrow> tool_code ending \<in> {usage_exit_code, startup_exit_code} \<and> tool_errors ending \<noteq> []
     | Inr (identity, sg, b) \<Rightarrow>
         identity = validate_daemon_identity config (effective_uid w) (effective_gid w) \<and> id_valid identity \<and>
         prepared_system (ds_canonical ds) config (id_socket_mode identity) (effective_uid w) w \<and>
         can_continue (fst (apply_daemon_sandbox (make_read_only_daemon_sandbox_policy config) (ds_sandbox ds))) \<and>
         bridge_good b) w"
  unfolding daemon_prepare_def Let_def
proof (simp only: wp_bind wp_gets, intro wp_branch, goal_cases)
  case 1
  then show ?case by simp
next
  case valid: 2
  show ?case
  proof (subst wp_bind, rule wp_mono [OF wp_preflight], rule wp_branch, goal_cases)
    case (1 filesystem w1)
    then show ?case by (intro wp_skip) simp
  next
    case prepared: (2 filesystem w1)
    show ?case
    proof (rule wp_skip, rule wp_branch, goal_cases)
      case (1 lock w2)
      show ?case by (rule wp_skip) simp
    next
      case (2 lock w2)
      show ?case
      proof (subst wp_bind, rule wp_mono [OF wp_daemon_gates], goal_cases)
        case (1 refused w3)
        with valid prepared show ?case
          by (cases refused) (auto simp: wp_bind intro!: wp_bridge_start [OF new_bridge_good(1)])
      qed
    qed
  qed
qed

lemma wp_wakes_good:
  "list_all proper_wake xs \<Longrightarrow> bridge_good b \<Longrightarrow> wp (worker_wakes root xs b) (\<lambda>b w'. bridge_good b) w"
  by (induction xs arbitrary: b w) (auto intro!: wp_worker_wake)

definition exit_codes :: "int set" where
  "exit_codes = {0, usage_exit_code, startup_exit_code, service_exit_code, cleanup_exit_code}"

text \<open>The code is a documented one, and it is zero exactly when standard error stayed empty.\<close>

definition proper_ending :: "tool_result \<Rightarrow> bool" where
  "proper_ending ending \<longleftrightarrow> tool_code ending \<in> exit_codes \<and> (tool_code ending = 0 \<longleftrightarrow> tool_errors ending = [])"

lemmas exit_code_defs = usage_exit_code_def startup_exit_code_def service_exit_code_def cleanup_exit_code_def

lemma proper_ending_simps [simp]:
  "proper_ending (printed text)"
  "proper_ending (ended usage_exit_code errors) \<longleftrightarrow> errors \<noteq> []"
  "proper_ending (ended startup_exit_code errors) \<longleftrightarrow> errors \<noteq> []"
  by (simp_all add: proper_ending_def exit_codes_def exit_code_defs)

lemma proper_shutdown:
  "proper_ending (ended (daemon_exit_code (service_ok r) (bridge_ok stop) audited1 audited2)
     (shutdown_errors r stop audited1 audited2))"
  by (auto simp: proper_ending_def daemon_exit_code_def shutdown_errors_def exit_codes_def exit_code_defs)

lemma wp_check_codes: "wp (check_daemon_configuration ds config) (\<lambda>ending w'. proper_ending ending) w"
  unfolding check_daemon_configuration_def Let_def
  by (intro wp_skip wp_branch) simp_all

lemma wp_finish_proper: "wp (daemon_finish ds config sg b r) (\<lambda>x w'. \<forall>ending. x = Some ending \<longrightarrow> proper_ending ending) w"
  unfolding daemon_finish_def Let_def
  by (intro wp_skip) (auto split: option.split prod.split intro!: wp_any simp: proper_shutdown)

text \<open>The end of a run returns when a wake-up is left for the signal thread.\<close>

lemma wp_daemon_finish:
  assumes "list_all proper_wake (ds_wakes ds)" "list_all proper_wake (ds_last_wakes ds)"
    "ds_last_wakes ds \<noteq> []" "bridge_good b"
  shows "wp (daemon_finish ds config sg b r) (\<lambda>x w'. x \<noteq> None) w"
proof -
  show ?thesis
    unfolding daemon_finish_def
  proof (subst wp_bind, rule wp_mono [OF wp_wakes_good [OF assms(1,4)]], subst wp_bind,
      rule wp_bridge_stop [OF _ assms(2)], goal_cases)
    case (1 b1 w1)
    then show ?case .
  next
    case (2 b1 w1 r' w2)
    show ?case unfolding option.case prod.case Let_def by (rule wp_skip) simp
  next
    case (3 b1 w1 r' sg' b2 w2)
    show ?case unfolding option.case prod.case Let_def by (rule wp_skip) simp
  next
    case (4 b1 w1 w2)
    with assms(3) show ?case by simp
  qed
qed

lemma run_read_only_daemon_returns:
  assumes "stop_before_round (ds_input ds) n" "\<And>k. k < n \<Longrightarrow> \<not> stop_before_round (ds_input ds) k" "n < 2 ^ 64"
    and "list_all proper_wake (ds_wakes ds)" "list_all proper_wake (ds_last_wakes ds)" "ds_last_wakes ds \<noteq> []"
  shows "run_read_only_daemon ds config w \<noteq> None"
proof -
  obtain x w1 where prepared: "run_state (daemon_prepare ds config) w = (x, w1)" by fastforce
  note outcome = wpD [OF wp_daemon_prepare prepared]
  show ?thesis
  proof (cases x)
    case (Inl ending)
    with prepared show ?thesis by (simp add: run_read_only_daemon_def)
  next
    case (Inr y)
    then obtain identity sg b where x: "x = Inr (identity, sg, b)" by (cases y) auto
    with outcome have good: "bridge_good b" by simp
    let ?service = "daemon_service ds config identity" and ?listener = "daemon_listener ds config identity"
    obtain r st w2 where served: "run_service ?service (ds_input ds) (fresh_service_state ?listener) w1 = Some ((r, st), w2)"
      using run_service_counted [OF assms(1-3)] by blast
    obtain z w3 where finished: "run_state (daemon_finish ds config sg b r) w2 = (z, w3)" by fastforce
    from wpD [OF wp_daemon_finish [OF assms(4-6) good] finished] obtain ending where "z = Some ending" by auto
    with prepared x served finished show ?thesis by (auto simp: run_read_only_daemon_def Let_def)
  qed
qed

lemma run_read_only_daemon_proper:
  assumes "run_read_only_daemon ds config w = Some (ending, w')"
  shows "proper_ending ending"
proof -
  obtain x w1 where prepared: "run_state (daemon_prepare ds config) w = (x, w1)" by fastforce
  show ?thesis
  proof (cases x)
    case (Inl early)
    with assms prepared wpD [OF wp_daemon_prepare prepared] show ?thesis
      by (auto simp: run_read_only_daemon_def proper_ending_def exit_codes_def exit_code_defs)
  next
    case (Inr y)
    then obtain identity sg b where "x = Inr (identity, sg, b)" by (cases y) auto
    with assms prepared obtain r w2 where "run_state (daemon_finish ds config sg b r) w2 = (Some ending, w')"
      by (auto simp: run_read_only_daemon_def Let_def split: option.splits prod.splits)
    from wpD [OF wp_finish_proper this] show ?thesis by simp
  qed
qed

lemma gateholdd_process_proper:
  assumes "gateholdd_process ds arguments w = Some (ending, w')"
  shows "proper_ending ending"
proof -
  have check: "proper_ending ending" if "run_state (check_daemon_configuration ds config) w = (ending, w')" for config
    using wpD [OF wp_check_codes that] .
  show ?thesis
    using assms
    by (auto simp: gateholdd_process_def Let_def split: if_splits option.splits
        dest: check run_read_only_daemon_proper)
qed

lemma daemon_exit_zero: "daemon_exit_code served stopped audited1 audited2 = 0 \<Longrightarrow> served \<and> stopped \<and> audited1 \<and> audited2"
  by (auto simp: daemon_exit_code_def service_exit_code_def cleanup_exit_code_def split: if_splits)

lemma run_read_only_daemon_success:
  assumes "run_read_only_daemon ds config w = Some (ending, w')" "tool_code ending = 0"
  shows "let identity = validate_daemon_identity config (effective_uid w) (effective_gid w) in
     id_valid identity \<and>
     prepared_system (ds_canonical ds) config (id_socket_mode identity) (effective_uid w) w \<and>
     can_continue (fst (apply_daemon_sandbox (make_read_only_daemon_sandbox_policy config) (ds_sandbox ds))) \<and>
     (\<exists>r st w1 w2. run_service (daemon_service ds config identity) (ds_input ds)
        (fresh_service_state (daemon_listener ds config identity)) w1 = Some ((r, st), w2) \<and> service_ok r)"
proof -
  obtain x w1 where prepared: "run_state (daemon_prepare ds config) w = (x, w1)" by fastforce
  note outcome = wpD [OF wp_daemon_prepare prepared]
  show ?thesis
  proof (cases x)
    case (Inl early)
    with prepared outcome assms show ?thesis
      by (auto simp: run_read_only_daemon_def exit_code_defs)
  next
    case (Inr y)
    then obtain identity sg b where x: "x = Inr (identity, sg, b)" by (cases y) auto
    let ?service = "daemon_service ds config identity" and ?listener = "daemon_listener ds config identity"
    from assms prepared x obtain r st w2 where
      served: "run_service ?service (ds_input ds) (fresh_service_state ?listener) w1 = Some ((r, st), w2)"
      and finished: "run_state (daemon_finish ds config sg b r) w2 = (Some ending, w')"
      by (auto simp: run_read_only_daemon_def Let_def split: option.splits prod.splits)
    have "wp (daemon_finish ds config sg b r) (\<lambda>z w'. (\<exists>e. z = Some e \<and> tool_code e = 0) \<longrightarrow> service_ok r) w2"
      unfolding daemon_finish_def Let_def
      by (intro wp_skip) (auto split: option.split prod.split intro!: wp_any dest: daemon_exit_zero)
    from wpD [OF this finished] assms(2) have "service_ok r" by simp
    with outcome x served show ?thesis by (auto simp: Let_def)
  qed
qed

lemma gateholdd_returns:
  assumes "stop_before_round (ds_input ds) n" and "\<And>k. k < n \<Longrightarrow> \<not> stop_before_round (ds_input ds) k"
    and "n < 2 ^ 64" and "list_all proper_wake (ds_wakes ds)"
    and "list_all proper_wake (ds_last_wakes ds)" and "ds_last_wakes ds \<noteq> []"
  shows "\<exists>code w'. gateholdd ds arguments w = Some (code, w') \<and> code \<in> exit_codes"
proof -
  have "gateholdd_process ds arguments w \<noteq> None"
    using run_read_only_daemon_returns [OF assms, of _ w]
    by (simp add: gateholdd_process_def Let_def split: option.split)
  then obtain ending w' where run: "gateholdd_process ds arguments w = Some (ending, w')" by auto
  from gateholdd_process_proper [OF this] run show ?thesis by (simp add: gateholdd_def proper_ending_def)
qed

text \<open>
  C34. Accepted means well formed. For every command line the parser accepts, and every identity the
  identity check admits, the daemon is assembled from parts that fit: journal, archive and record
  store live in different roots and the socket in none of them, session, listener and service share
  one controller and one journal, the authorizer denies, and every component accepts the
  configuration it is given, so its refusal of a bad configuration cannot be met.
\<close>

theorem daemon_well_formed:
  assumes "cr_config (parse_daemon_arguments (ds_sun_path_size ds) arguments) = Some config"
    and "id_valid (validate_daemon_identity config euid egid)"
  shows "let identity = validate_daemon_identity config euid egid;
       svc = daemon_service ds config identity; ls = daemon_listener ds config identity in
     service_wired ls svc \<and> denies (service_activation svc) \<and> service_config_ok (svc_config svc) \<and>
     listener_config_ok ls (new_listener ls)"
proof -
  have proper: "proper_config (ds_sun_path_size ds) config" by (rule accepted_proper [OF assms(1)])
  from daemon_assembled [OF proper] daemon_service_accepted daemon_listener_accepted [OF proper assms(2)]
  show ?thesis by (simp add: Let_def)
qed

text \<open>
  C3. The read-only daemon never activates. Whatever its command line, its surroundings and its peers
  do: if the process ends, the archive is as it was, and the only load of PF it can have made is
  one load of the rollback revision of a pending activation that it found at its start. Without a
  readable pending record archive, marker, record and loads are all as they were.
\<close>

theorem read_only_daemon_never_activates:
  assumes "cr_config (parse_daemon_arguments (ds_sun_path_size ds) arguments) = Some config"
    and "gateholdd ds arguments w = Some (code, w')"
  shows "recovery_step (daemon_activation config) (firewall_view (daemon_activation config) w)
     (firewall_view (daemon_activation config) w')"
  using assms by (rule gateholdd_step)



section \<open>A concrete run\<close>

definition sample_system :: daemon_system where
  "sample_system = \<lparr>ds_sun_path_size = 104, ds_canonical = Some, ds_bound_mode = 448,
     ds_sandbox = \<lparr>ss_supported = True, ss_unveil = (\<lambda>_. 0), ss_pledge = (\<lambda>_. 0)\<rparr>, ds_thread = 0,
     ds_signals = \<lparr>sg_claim = False, sg_masks = (\<lambda>_. {})\<rparr>, ds_input = sample_input,
     ds_wakes = [], ds_last_wakes = [Wake_signal SIGTERM]\<rparr>"

definition sample_arguments :: "string \<Rightarrow> string list" where
  "sample_arguments command = [command, ''--journal-root'', ''/j'', ''--revision-root'', ''/r'',
     ''--transaction-root'', ''/t'', ''--socket-path'', ''/run/s'', ''--allowed-uid'', ''0'']"

definition sample_run_config :: daemon_config where
  "sample_run_config = \<lparr>dc_journal_root = ''/j'', dc_revision_root = ''/r'', dc_transaction_root = ''/t'',
     dc_socket_path = ''/run/s'', dc_allowed_user_id = 0, dc_allowed_group_id = None\<rparr>"

lemma sample_parsed:
  "cr_config (parse_daemon_arguments (ds_sun_path_size sample_system) (sample_arguments ''serve-read-only'')) =
     Some sample_run_config"
  "cr_config (parse_daemon_arguments (ds_sun_path_size sample_system) (sample_arguments ''check-config'')) =
     Some sample_run_config"
  "cr_command (parse_daemon_arguments (ds_sun_path_size sample_system) (sample_arguments ''check-config'')) =
     Command_check_configuration"
  by code_simp+

lemma sample_checked:
  obtains ending w' where
    "gateholdd_process sample_system (sample_arguments ''check-config'') idle_world = Some (ending, w')"
    "tool_code ending = 0"
proof -
  have "tool_code (fst (run_state (check_daemon_configuration sample_system sample_run_config) idle_world)) = 0"
    by code_simp
  moreover have "config_ok (parse_daemon_arguments (ds_sun_path_size sample_system) (sample_arguments ''check-config''))"
    unfolding config_ok_def by (rule config_given [OF sample_parsed(2)])
  ultimately show ?thesis
    using that sample_parsed(2,3)
    by (cases "run_state (check_daemon_configuration sample_system sample_run_config) idle_world")
      (auto simp: gateholdd_process_def Let_def config_ok_def)
qed

lemma daemon_well_formed_witness:
  "service_wired (daemon_listener sample_system sample_run_config (validate_daemon_identity sample_run_config 0 0))
     (daemon_service sample_system sample_run_config (validate_daemon_identity sample_run_config 0 0))"
proof -
  have "id_valid (validate_daemon_identity sample_run_config 0 0)" by code_simp
  from daemon_well_formed [OF sample_parsed(1) this] show ?thesis by (simp add: Let_def)
qed

lemma read_only_daemon_never_activates_witness:
  "case gateholdd sample_system (sample_arguments ''serve-read-only'') idle_world of
     None \<Rightarrow> False
   | Some (code, w') \<Rightarrow> firewall_view (daemon_activation sample_run_config) w' =
       firewall_view (daemon_activation sample_run_config) idle_world"
proof -
  let ?svc = "daemon_activation sample_run_config"
  have wakes: "list_all proper_wake (ds_wakes sample_system)" "list_all proper_wake (ds_last_wakes sample_system)"
    "ds_last_wakes sample_system \<noteq> []" by (simp_all add: sample_system_def)
  have "\<exists>x. gateholdd sample_system (sample_arguments ''serve-read-only'') idle_world = Some x"
    using gateholdd_returns [OF _ _ _ wakes, of 2 "sample_arguments ''serve-read-only''" idle_world]
    by (auto simp: sample_system_def sample_input_def)
  then obtain code w' where run:
    "gateholdd sample_system (sample_arguments ''serve-read-only'') idle_world = Some (code, w')" by auto
  have "fv_pending (firewall_view ?svc idle_world) = Absent"
    by (simp add: firewall_view_def stored_def record_view_def)
  with read_only_daemon_never_activates [OF sample_parsed(1) run] show ?thesis
    by (simp add: run recovery_step_def)
qed



end
