(* ===== verification/Spec2Isabelle.thy ===== *)
theory Spec2Isabelle
  imports Preparation Process_Runner Health_Probes Timestamps Waiting Lock_Handle Daemon
begin

text \<open>
  SASD Gatehold manages the PF rule set of an OpenBSD host. This library models its C++ sources under
  \<open>src/src\<close> and \<open>src/include\<close> and proves what makes them correct.

  \<^bold>\<open>The program.\<close> A rule set is validated and rendered (\<open>model.cpp\<close>,
  \<open>pf_renderer.cpp\<close>), staged as a private file, checked with \<open>pfctl -nf\<close> and stored as an
  immutable numbered revision (\<open>candidate_store.cpp\<close>, \<open>native_validator.cpp\<close>,
  \<open>revision_store.cpp\<close>, joined by \<open>preparation_service.cpp\<close>). Activation
  (\<open>activation_service.cpp\<close>) is a transaction: it authorizes, writes a durable record
  (\<open>activation_transaction_store.cpp\<close>), loads the revision (\<open>pfctl_loader.cpp\<close>), probes
  (\<open>health_probes.cpp\<close>), waits for a confirmation, moves the last-known-good marker and clears the
  record, or rolls back; recovery resolves a record found at startup. The controller
  (\<open>privileged_pf_controller.cpp\<close>) admits activation only after recovery. Peers reach it over a
  Unix socket: \<open>local_listener.cpp\<close> accepts and rate-limits (\<open>admission_rate_limiter.cpp\<close>),
  \<open>local_protocol.cpp\<close> authenticates, parses and answers, \<open>controller_service.cpp\<close> runs the
  loop. The daemon (\<open>daemon/main.cpp\<close>) parses its command line (\<open>daemon/config.cpp\<close>),
  checks its directories, takes a process lock, confines itself, turns signals into stop requests
  (\<open>filesystem_preflight.cpp\<close>, \<open>process_lock.cpp\<close>, \<open>process_sandbox.cpp\<close>,
  \<open>posix_signal_stop_bridge.cpp\<close>) and serves with the deny-all policy of
  \<open>read_only_activation_policy.cpp\<close>. Every step is written to the operation journal
  (\<open>operation_journal.cpp\<close>, \<open>json_event_formatter.cpp\<close>) before or as it happens.

  \<^bold>\<open>The model of effects.\<close> Code that calls the system is a state monad over a \<open>world\<close> (theory
  \<open>Posix\<close>): directories, entries with type, owner, mode, links and content, the outcomes the
  next system calls will have (\<open>script\<close>: success, a short transfer, or an error; no call is
  assumed to succeed), \<open>errno\<close>, the clock, the answers of child processes, the open connection,
  and the list of \<open>actions\<close> an outside observer sees: journal lines, processes executed with the
  files they saw, authorizations, probes, confirmations. No fuel is used: loops over partial reads
  and writes recurse on the outcomes and the bytes left, of which every turn uses up one, and a wait
  with a deadline recurses on the events it meets. Loops that may run for ever (the capture of a
  child's output, the service, a wait for a descriptor) are \<open>while_option\<close> or
  \<open>partial_function\<close>, with \<open>None\<close> for a loop that never ends, and their return is a theorem. Errors are values: every early return and every event id of the sources is a
  branch. Mutexes make one call one step, so the calls are atomic and their order is what is
  quantified over. Machine integers keep their width (\<open>64 word\<close> for \<open>uint64_t\<close> and
  \<open>size_t\<close>, \<open>32 word\<close> for modes); time spans are integers, as the sources bound them.
  Reasoning uses the predicate \<open>wp m Q w\<close> of theory \<open>Prelude\<close> with the collections
  \<open>wp_simp\<close> and \<open>wp_rule\<close>, and contracts of whole operations stated as relations on two
  worlds.

  \<^bold>\<open>Theories, in dependency order.\<close>
  \<^item> \<open>Prelude\<close>: the monad's calculus, \<open>to_string\<close>/\<open>from_chars\<close>, identifiers, integer types.
  \<^item> \<open>Events\<close>: the event record, redaction of sensitive attributes and the JSON line
    (\<open>event.hpp\<close>, \<open>json_event_formatter.cpp\<close>), with a reader that undoes it.
  \<^item> \<open>Posix\<close>: the world, its system calls, and the helpers several files hold copies of.
  \<^item> \<open>Journal\<close>, \<open>Transaction_Store\<close>, \<open>Revision_Store\<close>, \<open>Candidate_Store\<close>: one theory per
    store, each with its operations, its abstract state and the contract that the operations refine. The
    transaction store implements a single slot (locale \<open>single_slot_store\<close>, interpreted as
    \<open>disk\<close>), the revision store a write-once archive (locale \<open>revision_archive\<close>, interpreted as
    \<open>archive\<close>).
  \<^item> \<open>Rule_Model\<close>, \<open>Renderer\<close>: validation characterised declaratively; the rendered text as PF
    reads it, statement by statement; \<open>inet_pton\<close> is the parameter \<open>pton\<close>.
  \<^item> \<open>Deadlines\<close>: the time left, and loops whose rounds may each decide, shared by all waits.
  \<^item> \<open>Pfctl\<close>, \<open>Process_Runner\<close>, \<open>Health_Probes\<close>: child processes, from the argument check to
    the captured output, and the two probes with their deadlines.
  \<^item> \<open>Preparation\<close>: the workflow up to a stored revision.
  \<^item> \<open>Activation\<close>: the workflow and recovery, stage by stage as in the code;
    \<open>Activation_Safety\<close>: over a \<open>firewall_view\<close> (archive, marker, pending record, loads), what
    may have happened for every result; \<open>Activation_Progress\<close>: without faults it does commit.
  \<^item> \<open>Controller\<close>: the lifecycle as an inductive relation and its invariants.
  \<^item> \<open>Rate_Limiter\<close>: the bounded window (locale \<open>sliding_window\<close>, interpreted as \<open>limiter\<close>).
  \<^item> \<open>Protocol_Codec\<close>, \<open>Local_Protocol\<close>, \<open>Local_Listener\<close>: frames, requests and responses over a
    stream that delivers arbitrary pieces; one session; the socket's life cycle and one admission.
    \<open>Waiting\<close>: the loops of these three with their clock and \<open>poll\<close>, which refine the loops over
    events, end when the clock passes the deadline and do not give up before.
  \<^item> \<open>Controller_Service\<close>: the service over the interface \<open>ControllerConnectionAcceptor\<close>, with its
    client lemmas in the locales \<open>connection_acceptor\<close> and \<open>acceptor_client\<close>;
    \<open>Local_Service\<close> interprets them on the local listener (\<open>served\<close>).
  \<^item> \<open>Read_Only\<close>: the deny-all policy, and the compositional rules (\<open>keeps_rule\<close>) by which it
    leaves the firewall alone through activation, dispatch, session and listener.
  \<^item> \<open>Paths\<close>, \<open>Daemon_Config\<close>, \<open>Daemon_Sandbox\<close>, \<open>Daemon_Startup\<close>: paths as
    \<open>std::filesystem\<close> decomposes them, the command line, \<open>unveil\<close> and \<open>pledge\<close>, preflight
    and lock file. \<open>Lock_Handle\<close>: the move-only objects that own the lock, and its exclusion.
  \<^item> \<open>Timestamps\<close>: \<open>system_utc_timestamp\<close>, exact and acceptable to the journal.
  \<^item> \<open>Signal_Bridge\<close>: the bridge under every interleaving of calls, threads and signals.
  \<^item> \<open>Daemon\<close>: the whole program, with its exit code and its messages, where the wiring the other theories assume becomes a theorem.
  \<^item> \<open>Command_Line\<close>: the tool \<open>gateholdctl\<close>.

  \<^bold>\<open>What the lemmas show.\<close> Stores: nothing is replaced that must not be, every failure leaves
  either the old or the new content, and what is read back is what was written. Activation: a
  success has loaded, probed, confirmed and marked the revision; a failure has restored the
  previous one or says that it could not; no load happens without its record; a second activation
  waits for the first. Controller and service: activation is possible exactly in the ready state,
  and the loop ends when it is asked to. Protocol: only an authenticated, well-formed and audited
  request is dispatched. Daemon: the accepted command lines are the documented ones, the assembled
  program is correctly wired, its exit code is justified and every failure explained, it terminates, and under its deny-all
  policy it never activates. Properties that need a hypothesis are applied to a concrete input.

  \<^bold>\<open>Parameters.\<close> Code outside the sources is an argument of the definitions:
  \<open>inet_pton\<close>, \<open>strerror\<close>, \<open>canonical\<close>, the size of \<open>sun_path\<close>, the mode a bound socket
  gets, the program \<open>pfctl\<close>, the OpenBSD calls \<open>unveil\<close> and \<open>pledge\<close>, and the three providers of
  an activation (authorizer, confirmation gate, probes), which are functions of the visible history that may
  also raise an exception. What \<open>poll\<close>, \<open>accept\<close>, \<open>sigwait\<close> and the steady clock answer is given
  as functions of the round (\<open>Waiting\<close>, \<open>Health_Probes\<close>) or as the events the loops meet.

  \<^bold>\<open>Not modelled.\<close> Concurrent access to the files by other processes: between two calls of one
  operation the files change only by that operation, as the ownership and mode checks of the sources
  are meant to enforce; durability across a power loss, so \<open>fsync\<close> counts only by its success.
  Exceptions of the standard library other than those of the providers, which \<open>main\<close> turns into
  exit code 3, and allocation failure. A write to the terminal that fails. Where the journal
  lines of the signal thread fall among those of the service: the wake-ups are taken together before
  the bridge stops, and the answers of the stop token are an input of the service. A system clock before
  1970. The build files, the tests, the scripts under \<open>packaging\<close>
  and \<open>tests/openbsd\<close> are not part of the program.
\<close>

end
